(* ===== verification/Prelude.thy ===== *)
theory Prelude
  imports Main "HOL-Library.Word" "HOL-Library.Char_ord" "HOL-Library.List_Lexorder"
    "HOL-Library.Product_Lexorder"
begin

text \<open>
  Types, clock readings and generic lemmas every other theory shares.

  A \<open>Bytes\<close> or \<open>Vec<u8>\<close> of the code is a list of 8-bit characters, and so is a Rust
  \<open>String\<close> (its UTF-8 bytes).  Byte strings compare lexicographically by byte value, as
  \<open>Bytes: Ord\<close> does.  An \<open>i64\<close> is the integer it denotes: the code adds \<open>i64\<close>
  values in three places only, the index normalisations (a negative index plus a length,
  which stays in range) and HINCRBY (a checked addition, written out with its range).
  A \<open>usize\<close> is a natural number.  A \<open>u64\<close> that the program increments (a stream
  sequence number, a delivery count) is a 64-bit word, so the increment wraps around as it
  does in the release build the wheels ship.
\<close>

section \<open>Collections of facts\<close>

named_theorems map_simps \<open>lookup laws of the standard-library maps\<close>
named_theorems view_simps \<open>what an access pattern does to the live view of the keyspace\<close>
named_theorems wf_intros \<open>operations keep well-formedness\<close>

section \<open>Types\<close>

type_synonym bytes = string
type_synonym i64 = int
type_synonym usize = nat
type_synonym u64 = "64 word"

text \<open>A stream entry ID \<open>(u64, u64)\<close>, compared lexicographically and unsigned.\<close>

type_synonym stream_id = "u64 \<times> u64"

definition u64_MAX :: u64 where
  "u64_MAX = - 1"

definition i64_MIN :: int where
  "i64_MIN = - (2 ^ 63)"

definition i64_MAX :: int where
  "i64_MAX = 2 ^ 63 - 1"

definition in_i64 :: "int \<Rightarrow> bool" where
  "in_i64 n \<longleftrightarrow> i64_MIN \<le> n \<and> n \<le> i64_MAX"

text \<open>Rust's \<open>i64::checked_add\<close>.\<close>

definition checked_add_i64 :: "int \<Rightarrow> int \<Rightarrow> int option" where
  "checked_add_i64 a b = (if in_i64 (a + b) then Some (a + b) else None)"

section \<open>Clock readings\<close>

text \<open>
  An \<open>Instant\<close> is a whole number of nanoseconds on the monotonic clock, a \<open>Duration\<close>
  a natural number of nanoseconds.  On Unix an instant keeps its seconds in an \<open>i64\<close>, and
  \<open>Instant + Duration\<close> panics when they overflow: that is the \<open>None\<close> of
  \<open>instant_checked_add\<close>.
\<close>

type_synonym instant = int
type_synonym duration = nat

definition from_secs :: "nat \<Rightarrow> duration" where
  "from_secs n = n * 10 ^ 9"

definition from_millis :: "nat \<Rightarrow> duration" where
  "from_millis n = n * 10 ^ 6"

definition as_secs :: "duration \<Rightarrow> nat" where
  "as_secs d = d div 10 ^ 9"

definition as_millis :: "duration \<Rightarrow> nat" where
  "as_millis d = d div 10 ^ 6"

definition instant_checked_add :: "instant \<Rightarrow> duration \<Rightarrow> instant option" where
  "instant_checked_add t d = (if t + int d < 2 ^ 63 * 10 ^ 9 then Some (t + int d) else None)"

definition instant_checked_sub :: "instant \<Rightarrow> duration \<Rightarrow> instant option" where
  "instant_checked_sub t d = (if - (2 ^ 63 * 10 ^ 9) \<le> t - int d then Some (t - int d) else None)"

text \<open>\<open>Instant::duration_since\<close> saturates at zero; the checked version says so.\<close>

definition duration_since :: "instant \<Rightarrow> instant \<Rightarrow> duration" where
  "duration_since t earlier = nat (t - earlier)"

definition checked_duration_since :: "instant \<Rightarrow> instant \<Rightarrow> duration option" where
  "checked_duration_since t earlier = (if earlier \<le> t then Some (nat (t - earlier)) else None)"

text \<open>
  A \<open>u64\<close> of milliseconds can always be taken from a reading of the clock, so the
  subtractions of XCLAIM do not panic.
\<close>

lemma instant_sub_millis_total:
  assumes "0 \<le> now"
  shows "instant_checked_sub now (from_millis (unat (ms :: u64))) = Some (now - int (from_millis (unat ms)))"
proof -
  have "uint ms < 2 ^ 64"
    using uint_bounded [of ms] by simp
  with assms show ?thesis
    by (simp add: instant_checked_sub_def from_millis_def)
qed

lemma as_secs_from_secs [simp]: "as_secs (from_secs n) = n"
  by (simp add: as_secs_def from_secs_def)

lemma as_millis_from_millis [simp]: "as_millis (from_millis n) = n"
  by (simp add: as_millis_def from_millis_def)

section \<open>Counting loops\<close>

text \<open>
  The loop of HSET, HDEL, SADD, SREM, ZREM, XDEL, XACK and DEL: visit the arguments in
  order, change the state, and count the visits that report success.
\<close>

fun count_loop :: "('a \<Rightarrow> 's \<Rightarrow> bool \<times> 's) \<Rightarrow> 'a list \<Rightarrow> 's \<Rightarrow> int \<times> 's" where
  "count_loop f [] s = (0, s)"
| "count_loop f (x # xs) s =
     (let (b, s1) = f x s; (n, s2) = count_loop f xs s1
      in ((if b then 1 else 0) + n, s2))"

lemma count_loop_inv:
  assumes "\<And>x s. P s \<Longrightarrow> P (snd (f x s))" and "P s"
  shows "P (snd (count_loop f xs s))"
  using assms(2) by (induction xs arbitrary: s) (auto simp: Let_def assms(1) split_beta)

text \<open>A loop whose step takes an element out of the state's set.\<close>

locale removing_loop =
  fixes f :: "'a \<Rightarrow> 's \<Rightarrow> bool \<times> 's" and mem :: "'s \<Rightarrow> 'a set" and inv :: "'s \<Rightarrow> bool"
  assumes hit: "inv s \<Longrightarrow> fst (f x s) \<longleftrightarrow> x \<in> mem s"
    and mem_step: "inv s \<Longrightarrow> mem (snd (f x s)) = mem s - {x}"
    and inv_step: "inv s \<Longrightarrow> inv (snd (f x s))"
    and finite_mem: "inv s \<Longrightarrow> finite (mem s)"
begin

lemma loop_inv: "inv s \<Longrightarrow> inv (snd (count_loop f xs s))"
  by (rule count_loop_inv [where P = inv]) (auto intro: inv_step)

lemma loop_mem: "inv s \<Longrightarrow> mem (snd (count_loop f xs s)) = mem s - set xs"
  by (induction xs arbitrary: s) (auto simp: Let_def split_beta mem_step inv_step)

lemma loop_count: "inv s \<Longrightarrow> fst (count_loop f xs s) = int (card (mem s \<inter> set xs))"
proof (induction xs arbitrary: s)
  case Nil
  then show ?case by simp
next
  case (Cons x xs)
  let ?s1 = "snd (f x s)"
  have IH: "fst (count_loop f xs ?s1) = int (card ((mem s - {x}) \<inter> set xs))"
    using Cons by (simp add: inv_step mem_step)
  have fin: "finite (mem s)"
    using Cons.prems by (rule finite_mem)
  have "mem s \<inter> set (x # xs) = (if x \<in> mem s then insert x ((mem s - {x}) \<inter> set xs) else (mem s - {x}) \<inter> set xs)"
    by auto
  with IH fin Cons.prems show ?case
    by (auto simp: Let_def split_beta hit)
qed

end

text \<open>A loop whose step puts the key of its argument into the state's set.\<close>

locale adding_loop =
  fixes f :: "'a \<Rightarrow> 's \<Rightarrow> bool \<times> 's" and key :: "'a \<Rightarrow> 'k" and mem :: "'s \<Rightarrow> 'k set"
    and inv :: "'s \<Rightarrow> bool"
  assumes hit: "inv s \<Longrightarrow> fst (f x s) \<longleftrightarrow> key x \<notin> mem s"
    and mem_step: "inv s \<Longrightarrow> mem (snd (f x s)) = insert (key x) (mem s)"
    and inv_step: "inv s \<Longrightarrow> inv (snd (f x s))"
begin

lemma loop_inv: "inv s \<Longrightarrow> inv (snd (count_loop f xs s))"
  by (rule count_loop_inv [where P = inv]) (auto intro: inv_step)

lemma loop_mem: "inv s \<Longrightarrow> mem (snd (count_loop f xs s)) = mem s \<union> key ` set xs"
  by (induction xs arbitrary: s) (auto simp: Let_def split_beta mem_step inv_step)

lemma loop_count: "inv s \<Longrightarrow> fst (count_loop f xs s) = int (card (key ` set xs - mem s))"
proof (induction xs arbitrary: s)
  case Nil
  then show ?case by simp
next
  case (Cons x xs)
  let ?s1 = "snd (f x s)"
  have IH: "fst (count_loop f xs ?s1) = int (card (key ` set xs - insert (key x) (mem s)))"
    using Cons by (simp add: inv_step mem_step)
  have "key ` set (x # xs) - mem s =
      (if key x \<in> mem s then key ` set xs - insert (key x) (mem s)
       else insert (key x) (key ` set xs - insert (key x) (mem s)))"
    by auto
  with IH Cons.prems show ?case
    by (auto simp: Let_def split_beta hit)
qed

end

section \<open>Lists\<close>

lemma filter_eq_takeWhile_sorted:
  assumes "sorted_wrt R xs" and "\<And>x y. R x y \<Longrightarrow> P y \<Longrightarrow> P x"
  shows "takeWhile P xs = filter P xs"
  using assms(1)
proof (induction xs)
  case Nil
  then show ?case by simp
next
  case (Cons x xs)
  show ?case
  proof (cases "P x")
    case True
    with Cons show ?thesis by simp
  next
    case False
    then have "\<forall>y \<in> set xs. \<not> P y"
      using Cons.prems assms(2) by auto
    with False show ?thesis by (simp add: filter_empty_conv)
  qed
qed

end
