(* ===== verification/Glob.thy ===== *)
theory Glob
  imports Prelude
begin

text \<open>
  The glob matcher of \<^verbatim>\<open>src/src/commands/pubsub.rs\<close>, used by KEYS, PUBLISH and PUBSUB
  CHANNELS: one loop with a single backtrack point.  An index into the pattern or the
  string is represented by the rest of the list from that index.  The matcher is proved
  equal to a declarative match of the pattern's tokens.
\<close>

section \<open>The matcher\<close>

definition skip_stars :: "bytes \<Rightarrow> bytes" where
  "skip_stars p = dropWhile (\<lambda>x. x = CHR ''*'') p"

text \<open>
  The scan of a character class up to its closing bracket: whether the byte was found, and
  the rest of the pattern, empty when the class is not terminated.  A hyphen makes a range
  only between two bytes of the class; \<open>p\<close> is the pattern behind the current byte.
\<close>

definition is_range :: "bytes \<Rightarrow> bool" where
  "is_range p \<longleftrightarrow> 2 \<le> length p \<and> p ! 0 = CHR ''-'' \<and> p ! 1 \<noteq> CHR '']''"

fun class_scan :: "char \<Rightarrow> bytes \<Rightarrow> bool \<Rightarrow> bool \<times> bytes" where
  "class_scan c [] found = (found, [])"
| "class_scan c (x # p) found =
     (if x = CHR '']'' then (found, x # p)
      else if is_range p
        then class_scan c (drop 2 p) (found \<or> (x \<le> p ! 1 \<and> x \<le> c \<and> c \<le> p ! 1))
      else class_scan c p (found \<or> c = x))"

definition strip_negation :: "bytes \<Rightarrow> bool \<times> bytes" where
  "strip_negation p =
     (case p of
        y # q \<Rightarrow> if y = CHR ''^'' \<or> y = CHR ''!'' then (True, q) else (False, p)
      | [] \<Rightarrow> (False, p))"

text \<open>What one iteration does at the pattern \<open>p\<close> and the byte \<open>c\<close>.\<close>

datatype glob_move = Consume bytes | Star bytes | Mismatch

definition glob_step :: "bytes \<Rightarrow> char \<Rightarrow> glob_move" where
  "glob_step p c =
     (case p of
        [] \<Rightarrow> Mismatch
      | x # p1 \<Rightarrow>
          if x = CHR 0x5C then
            (case p1 of y # p2 \<Rightarrow> if c = y then Consume p2 else Mismatch | [] \<Rightarrow> Mismatch)
          else if x = CHR ''*'' then Star (skip_stars p)
          else if x = CHR ''?'' then Consume p1
          else if x = CHR ''['' then
            (let (negated, q) = strip_negation p1; (found, r) = class_scan c q False
             in (case r of
                   [] \<Rightarrow> Mismatch
                 | _ # r1 \<Rightarrow> if (found \<and> \<not> negated) \<or> (\<not> found \<and> negated) then Consume r1 else Mismatch))
          else if x = c then Consume p1
          else Mismatch)"

lemma length_skip_stars: "length (skip_stars p) \<le> length p"
  by (simp add: skip_stars_def length_dropWhile_le)

lemma glob_step_Star: "glob_step p c = Star q \<Longrightarrow> q = skip_stars p \<and> (\<exists>p1. p = CHR ''*'' # p1)"
  by (auto simp: glob_step_def Let_def split: list.splits if_splits prod.splits)

text \<open>The loop: pattern, string, and the backtrack point of the last star.\<close>

function glob_loop :: "bytes \<Rightarrow> bytes \<Rightarrow> (bytes \<times> bytes) option \<Rightarrow> bool" where
  "glob_loop p [] star = (skip_stars p = [])"
| "glob_loop p (c # cs) star =
     (case glob_step p c of
        Consume p1 \<Rightarrow> glob_loop p1 cs star
      | Star p1 \<Rightarrow> if p1 = [] then True else glob_loop p1 (c # cs) (Some (p1, c # cs))
      | Mismatch \<Rightarrow>
          (case star of
             None \<Rightarrow> False
           | Some (sp, ss) \<Rightarrow> glob_loop sp (tl ss) (Some (sp, tl ss))))"
  by pat_completeness auto
termination
proof (relation "measures [\<lambda>(p, s, star). max (length s) (case star of None \<Rightarrow> 0 | Some (sp, ss) \<Rightarrow> length ss),
    \<lambda>(p, s, star). length s, \<lambda>(p, s, star). length p]", goal_cases)
  case 1
  show ?case by simp
next
  case (2 p c cs star p1)
  then show ?case by (auto split: option.splits)
next
  case (3 p c cs star p1)
  then have "length p1 < length p"
    using glob_step_Star [of p c p1] length_skip_stars by (fastforce simp: skip_stars_def less_Suc_eq_le length_dropWhile_le)
  then show ?case by (auto split: option.splits)
next
  case (4 p c cs star a sp ss)
  then show ?case by (cases ss) auto
qed

definition glob_match :: "bytes \<Rightarrow> bytes \<Rightarrow> bool" where
  "glob_match p s = glob_loop p s None"

section \<open>Patterns as token lists\<close>

text \<open>
  The reference: a pattern is a list of tokens, a class is its list of ranges, and a
  dangling escape or an unterminated class matches nothing.
\<close>

datatype glob_token = AnySeq | AnyOne | Lit char | Class bool "(char \<times> char) list" | Bad

fun class_ranges :: "bytes \<Rightarrow> ((char \<times> char) list \<times> bytes) option" where
  "class_ranges [] = None"
| "class_ranges (x # p) =
     (if x = CHR '']'' then Some ([], p)
      else if is_range p
        then map_option (\<lambda>(rs, r). ((x, p ! 1) # rs, r)) (class_ranges (drop 2 p))
      else map_option (\<lambda>(rs, r). ((x, x) # rs, r)) (class_ranges p))"

lemma class_ranges_length: "class_ranges p = Some (rs, r) \<Longrightarrow> length r < length p"
proof (induction p arbitrary: rs r rule: class_ranges.induct)
  case 1
  then show ?case by simp
next
  case (2 x p)
  consider "x = CHR '']''" | "x \<noteq> CHR '']''" "is_range p" | "x \<noteq> CHR '']''" "\<not> is_range p" by blast
  then show ?case
  proof cases
    case 2
    with "2.prems" obtain rs' where "class_ranges (drop 2 p) = Some (rs', r)" by auto
    with "2.IH"(1) 2 show ?thesis by fastforce
  next
    case 3
    with "2.prems" obtain rs' where "class_ranges p = Some (rs', r)" by auto
    with "2.IH"(2) 3 show ?thesis by fastforce
  qed (use "2.prems" in simp)
qed

function tokens :: "bytes \<Rightarrow> glob_token list" where
  "tokens [] = []"
| "tokens (x # p) =
     (if x = CHR 0x5C then (case p of y # q \<Rightarrow> Lit y # tokens q | [] \<Rightarrow> [Bad])
      else if x = CHR ''*'' then AnySeq # tokens p
      else if x = CHR ''?'' then AnyOne # tokens p
      else if x = CHR ''['' then
        (case class_ranges (snd (strip_negation p)) of
           None \<Rightarrow> [Bad]
         | Some (rs, r) \<Rightarrow> Class (fst (strip_negation p)) rs # tokens r)
      else Lit x # tokens p)"
  by pat_completeness auto
termination
proof (relation "measure length", goal_cases)
  case (5 x p a rs r)
  have "length (snd (strip_negation p)) \<le> length p"
    by (auto simp: strip_negation_def split: list.splits)
  with class_ranges_length [of "snd (strip_negation p)"] 5 show ?case
    by fastforce
qed auto

fun token_ok :: "glob_token \<Rightarrow> char \<Rightarrow> bool" where
  "token_ok AnySeq c = False"
| "token_ok AnyOne c = True"
| "token_ok (Lit x) c = (c = x)"
| "token_ok (Class negated rs) c = ((\<exists>(lo, hi) \<in> set rs. lo \<le> c \<and> c \<le> hi) \<noteq> negated)"
| "token_ok Bad c = False"

fun tokens_match :: "glob_token list \<Rightarrow> bytes \<Rightarrow> bool" where
  "tokens_match [] s = (s = [])"
| "tokens_match (t # ts) s =
     (if t = AnySeq then (\<exists>n \<le> length s. tokens_match ts (drop n s))
      else (case s of [] \<Rightarrow> False | c # cs \<Rightarrow> token_ok t c \<and> tokens_match ts cs))"

section \<open>The matcher meets the reference\<close>

lemma class_scan_ranges:
  "(case class_ranges p of
      None \<Rightarrow> \<exists>b. class_scan c p f = (b, [])
    | Some (rs, r) \<Rightarrow> class_scan c p f = (f \<or> (\<exists>(lo, hi) \<in> set rs. lo \<le> c \<and> c \<le> hi), CHR '']'' # r))"
proof (induction c p f rule: class_scan.induct)
  case (1 c found)
  then show ?case by simp
next
  case (2 c x p found)
  have range: "x \<le> h \<and> x \<le> c \<and> c \<le> h \<longleftrightarrow> x \<le> c \<and> c \<le> h" for h :: char
    by auto
  have one: "x \<le> c \<and> c \<le> x \<longleftrightarrow> c = x"
    by auto
  consider "x = CHR '']''" | "x \<noteq> CHR '']''" "is_range p" | "x \<noteq> CHR '']''" "\<not> is_range p" by blast
  then show ?case
  proof cases
    case 2
    with "2.IH"(1) show ?thesis
      by (simp add: range split: option.splits prod.splits) (blast+)?
  next
    case 3
    with "2.IH"(2) one show ?thesis
      by (simp split: option.splits prod.splits) (blast+)?
  qed simp
qed

lemma tokens_skip_stars:
  "\<exists>n. tokens p = replicate n AnySeq @ tokens (skip_stars p)"
proof (induction p)
  case Nil
  then show ?case by (simp add: skip_stars_def)
next
  case (Cons x p)
  show ?case
  proof (cases "x = CHR ''*''")
    case True
    with Cons obtain n where "tokens p = replicate n AnySeq @ tokens (skip_stars p)" by blast
    with True have "tokens (x # p) = replicate (Suc n) AnySeq @ tokens (skip_stars (x # p))"
      by (simp add: skip_stars_def)
    then show ?thesis by blast
  next
    case False
    then have "tokens (x # p) = replicate 0 AnySeq @ tokens (skip_stars (x # p))"
      by (simp add: skip_stars_def)
    then show ?thesis by blast
  qed
qed

lemma AnySeq_twice: "tokens_match (AnySeq # AnySeq # ts) s = tokens_match (AnySeq # ts) s"
proof
  assume "tokens_match (AnySeq # AnySeq # ts) s"
  then obtain n m where "n \<le> length s" "m \<le> length (drop n s)" "tokens_match ts (drop m (drop n s))"
    by auto
  then have "n + m \<le> length s \<and> tokens_match ts (drop (n + m) s)"
    by (simp add: add.commute)
  then show "tokens_match (AnySeq # ts) s" by auto
next
  assume "tokens_match (AnySeq # ts) s"
  then have "tokens_match (AnySeq # ts) (drop 0 s)" by simp
  then show "tokens_match (AnySeq # AnySeq # ts) s" by fastforce
qed

lemma AnySeq_replicate:
  "tokens_match (replicate (Suc n) AnySeq @ ts) s = tokens_match (AnySeq # ts) s"
proof (induction n arbitrary: s)
  case 0
  show ?case by simp
next
  case (Suc n)
  have "tokens_match (AnySeq # replicate (Suc n) AnySeq @ ts) s = tokens_match (AnySeq # AnySeq # ts) s"
    using Suc by (simp only: tokens_match.simps)
  then show ?case by (simp only: replicate_Suc append_Cons AnySeq_twice)
qed

lemma step_Star:
  assumes "glob_step p c = Star q"
  shows "tokens_match (tokens p) s = tokens_match (AnySeq # tokens q) s"
    and "\<exists>n. tokens p = replicate (Suc n) AnySeq @ tokens q"
proof -
  from assms obtain p1 where p: "p = CHR ''*'' # p1" and q: "q = skip_stars p"
    using glob_step_Star by blast
  obtain n where "tokens p1 = replicate n AnySeq @ tokens (skip_stars p1)"
    using tokens_skip_stars by blast
  then have n: "tokens p = replicate (Suc n) AnySeq @ tokens q"
    by (simp add: p q skip_stars_def)
  then show "\<exists>n. tokens p = replicate (Suc n) AnySeq @ tokens q" by blast
  from n show "tokens_match (tokens p) s = tokens_match (AnySeq # tokens q) s"
    by (simp only: AnySeq_replicate)
qed

text \<open>One iteration against the first token of the pattern.\<close>

lemma class_step:
  assumes neg: "strip_negation p = (negated, q)" and scan: "class_scan c q False = (found, r)"
  shows "r = [] \<and> tokens (CHR ''['' # p) = [Bad] \<or>
    (\<exists>x r1 rs. r = x # r1 \<and> tokens (CHR ''['' # p) = Class negated rs # tokens r1 \<and>
       found = (\<exists>(lo, hi) \<in> set rs. lo \<le> c \<and> c \<le> hi))"
proof (cases "class_ranges q")
  case None
  then have "\<exists>b. class_scan c q False = (b, [])"
    using class_scan_ranges [where p = q and c = c and f = False] by simp
  with None neg scan show ?thesis by simp
next
  case (Some a)
  obtain rs r1 where a: "a = (rs, r1)" by force
  with Some have "class_scan c q False = ((\<exists>(lo, hi) \<in> set rs. lo \<le> c \<and> c \<le> hi), CHR '']'' # r1)"
    using class_scan_ranges [where p = q and c = c and f = False] by simp
  with Some a neg scan show ?thesis by (auto intro!: exI [of _ r1])
qed

definition step_meets_tokens :: "glob_token list \<Rightarrow> char \<Rightarrow> glob_move \<Rightarrow> bool" where
  "step_meets_tokens ts c m =
     (case m of
        Consume q \<Rightarrow> \<exists>t. ts = t # tokens q \<and> t \<noteq> AnySeq \<and> token_ok t c
      | Star q \<Rightarrow> True
      | Mismatch \<Rightarrow> ts = [] \<or> (\<exists>t ts'. ts = t # ts' \<and> t \<noteq> AnySeq \<and> \<not> token_ok t c))"

lemma glob_step_tokens: "step_meets_tokens (tokens p) c (glob_step p c)"
proof (cases p)
  case Nil
  then show ?thesis by (simp add: glob_step_def step_meets_tokens_def)
next
  case (Cons x p1)
  consider "x = CHR 0x5C" | "x = CHR ''*''" | "x = CHR ''?''" | "x = CHR ''[''"
    | "x \<noteq> CHR 0x5C" "x \<noteq> CHR ''*''" "x \<noteq> CHR ''?''" "x \<noteq> CHR ''[''" by blast
  then show ?thesis
  proof cases
    case 1
    with Cons show ?thesis by (cases p1) (simp_all add: glob_step_def step_meets_tokens_def)
  next
    case 4
    obtain negated q where neg: "strip_negation p1 = (negated, q)" by force
    obtain found r where scan: "class_scan c q False = (found, r)" by force
    from class_step [OF neg scan] consider "r = []" "tokens p = [Bad]"
      | y r1 rs where "r = y # r1" "tokens p = Class negated rs # tokens r1"
          "found = (\<exists>(lo, hi) \<in> set rs. lo \<le> c \<and> c \<le> hi)"
      using Cons 4 by auto
    then show ?thesis
    proof cases
      case 1
      with Cons 4 neg scan show ?thesis by (simp add: glob_step_def step_meets_tokens_def)
    next
      case (2 y r1 rs)
      have "glob_step p c = (if found \<noteq> negated then Consume r1 else Mismatch)"
        using Cons 4 neg scan 2(1) by (auto simp: glob_step_def)
      with 2 show ?thesis by (simp add: step_meets_tokens_def)
    qed
  qed (use Cons in \<open>simp_all add: glob_step_def step_meets_tokens_def\<close>)
qed

lemma step_Consume:
  "glob_step p c = Consume q \<Longrightarrow> \<exists>t. tokens p = t # tokens q \<and> t \<noteq> AnySeq \<and> token_ok t c"
  using glob_step_tokens [of p c] by (simp add: step_meets_tokens_def)

lemma step_Mismatch:
  "glob_step p c = Mismatch \<Longrightarrow>
     tokens p = [] \<or> (\<exists>t ts. tokens p = t # ts \<and> t \<noteq> AnySeq \<and> \<not> token_ok t c)"
  using glob_step_tokens [of p c] by (simp add: step_meets_tokens_def)

text \<open>A run of tokens without \<open>AnySeq\<close> takes one byte each.\<close>

lemma match_segment_drop:
  "AnySeq \<notin> set seg \<Longrightarrow> tokens_match (seg @ ts) s \<Longrightarrow>
     length seg \<le> length s \<and> tokens_match ts (drop (length seg) s)"
  by (induction seg arbitrary: s) (auto split: list.splits)

definition later_start :: "(bytes \<times> bytes) option \<Rightarrow> bool" where
  "later_start star =
     (case star of
        None \<Rightarrow> False
      | Some (sp, ss) \<Rightarrow> \<exists>n. 1 \<le> n \<and> n \<le> length ss \<and> tokens_match (tokens sp) (drop n ss))"

lemma match_or_later:
  "tokens_match (AnySeq # tokens q) s \<longleftrightarrow> tokens_match (tokens q) s \<or> later_start (Some (q, s))"
proof
  assume "tokens_match (AnySeq # tokens q) s"
  then obtain n where n: "n \<le> length s" "tokens_match (tokens q) (drop n s)" by auto
  then show "tokens_match (tokens q) s \<or> later_start (Some (q, s))"
    by (cases n) (auto simp: later_start_def)
next
  assume "tokens_match (tokens q) s \<or> later_start (Some (q, s))"
  then have "tokens_match (tokens q) (drop 0 s) \<or>
      (\<exists>n. n \<le> length s \<and> tokens_match (tokens q) (drop n s))"
    by (auto simp: later_start_def)
  then show "tokens_match (AnySeq # tokens q) s" by auto
qed

lemma later_start_Cons: "later_start (Some (sp, d # ds)) \<longleftrightarrow> tokens_match (AnySeq # tokens sp) ds"
proof
  assume "later_start (Some (sp, d # ds))"
  then obtain n where "1 \<le> n" "n \<le> Suc (length ds)" "tokens_match (tokens sp) (drop n (d # ds))"
    by (auto simp: later_start_def)
  then have "n - 1 \<le> length ds \<and> tokens_match (tokens sp) (drop (n - 1) ds)"
    by (cases n) auto
  then show "tokens_match (AnySeq # tokens sp) ds" by auto
next
  assume "tokens_match (AnySeq # tokens sp) ds"
  then obtain n where "n \<le> length ds" "tokens_match (tokens sp) (drop n ds)" by auto
  then show "later_start (Some (sp, d # ds))"
    by (auto simp: later_start_def intro!: exI [of _ "Suc n"])
qed

text \<open>Since the last star, as many single-byte tokens as bytes have been consumed.\<close>

definition star_inv :: "bytes \<Rightarrow> bytes \<Rightarrow> (bytes \<times> bytes) option \<Rightarrow> bool" where
  "star_inv p s star =
     (case star of
        None \<Rightarrow> True
      | Some (sp, ss) \<Rightarrow>
          \<exists>seg. tokens sp = seg @ tokens p \<and> AnySeq \<notin> set seg \<and> length seg \<le> length ss \<and>
            s = drop (length seg) ss)"

lemma star_inv_start: "star_inv p s (Some (p, s))"
  by (simp add: star_inv_def)

lemma match_Nil_skip_stars: "tokens_match (tokens p) [] \<longleftrightarrow> skip_stars p = []"
proof -
  obtain n where n: "tokens p = replicate n AnySeq @ tokens (skip_stars p)"
    using tokens_skip_stars by blast
  have "tokens_match (replicate n AnySeq @ ts) [] = tokens_match ts []" for ts
    by (induction n) auto
  then have "tokens_match (tokens p) [] = tokens_match (tokens (skip_stars p)) []"
    by (subst n)
  also have "\<dots> = (skip_stars p = [])"
  proof (cases "skip_stars p")
    case (Cons x q)
    then have "x \<noteq> CHR ''*''"
      using hd_dropWhile [of "\<lambda>x. x = CHR ''*''" p] by (auto simp: skip_stars_def)
    with Cons show ?thesis by (auto split: list.splits option.splits)
  qed simp
  finally show ?thesis .
qed

text \<open>A later start before an inner star gives a match from the inner star on.\<close>

lemma later_start_absorbed:
  assumes "star_inv p s star" and "later_start star" and "glob_step p c = Star q"
  shows "tokens_match (tokens p) s"
proof -
  from assms(1,2) obtain sp ss seg n where star: "star = Some (sp, ss)"
    and seg: "tokens sp = seg @ tokens p" "AnySeq \<notin> set seg" "s = drop (length seg) ss"
    and n: "n \<le> length ss" "tokens_match (tokens sp) (drop n ss)"
    by (auto simp: star_inv_def later_start_def split: option.splits)
  from match_segment_drop [of seg "tokens p" "drop n ss"] seg n
  have "tokens_match (tokens p) (drop n s)" and "n \<le> length s"
    by (auto simp: add.commute)
  then show ?thesis
    unfolding step_Star(1) [OF assms(3)]
    using AnySeq_twice [of "tokens q" s] by auto
qed

lemma glob_loop_correct:
  "star_inv p s star \<Longrightarrow> glob_loop p s star \<longleftrightarrow> tokens_match (tokens p) s \<or> later_start star"
proof (induction p s star rule: glob_loop.induct)
  case (1 p star)
  have "\<not> later_start star"
    using 1 match_segment_drop
    by (fastforce simp: star_inv_def later_start_def split: option.splits)
  then show ?case by (simp add: match_Nil_skip_stars)
next
  case (2 p c cs star)
  show ?case
  proof (cases "glob_step p c")
    case (Consume q)
    then obtain t where t: "tokens p = t # tokens q" "t \<noteq> AnySeq" "token_ok t c"
      using step_Consume by blast
    have "star_inv q cs star"
    proof (cases star)
      case (Some a)
      obtain sp ss where a: "a = (sp, ss)" by force
      with Some "2.prems" obtain seg where seg: "tokens sp = seg @ tokens p" "AnySeq \<notin> set seg"
        "length seg \<le> length ss" "c # cs = drop (length seg) ss"
        by (auto simp: star_inv_def)
      then have "cs = drop (length (seg @ [t])) ss" and "length (seg @ [t]) \<le> length ss"
        by (metis drop_Suc length_append_singleton list.sel(3) tl_drop)
           (metis Suc_leI drop_eq_Nil2 leI length_append_singleton list.discI seg(4))
      with seg t show ?thesis
        by (auto simp: star_inv_def Some a intro!: exI [of _ "seg @ [t]"])
    qed (simp add: star_inv_def)
    with "2.IH"(1) [OF Consume] Consume t show ?thesis by simp
  next
    case (Star q)
    show ?thesis
    proof (cases "q = []")
      case True
      with Star step_Star(1) [OF Star, of "c # cs"] show ?thesis
        by (auto intro!: exI [of _ "Suc (length cs)"])
    next
      case False
      have "glob_loop p (c # cs) star \<longleftrightarrow> tokens_match (AnySeq # tokens q) (c # cs)"
        using "2.IH"(2) [OF Star False star_inv_start] Star False
        by (simp only: match_or_later) simp
      with step_Star(1) [OF Star] later_start_absorbed [OF "2.prems" _ Star] show ?thesis
        by blast
    qed
  next
    case Mismatch
    have no: "\<not> tokens_match (tokens p) (c # cs)"
      using step_Mismatch [OF Mismatch] by auto
    show ?thesis
    proof (cases star)
      case None
      with Mismatch no show ?thesis by (simp add: later_start_def)
    next
      case (Some a)
      obtain sp ss where a: "a = (sp, ss)" by force
      with Some "2.prems" obtain d ds where ss: "ss = d # ds"
        by (cases ss) (auto simp: star_inv_def)
      have "later_start star \<longleftrightarrow> tokens_match (tokens sp) ds \<or> later_start (Some (sp, ds))"
        using match_or_later [of sp ds] by (simp add: Some a ss later_start_Cons)
      with "2.IH"(3) [OF Mismatch Some a [symmetric] star_inv_start] Mismatch Some a ss no show ?thesis
        by simp
    qed
  qed
qed

lemma glob_match_tokens: "glob_match p s \<longleftrightarrow> tokens_match (tokens p) s"
  using glob_loop_correct [of p s None] by (simp add: glob_match_def star_inv_def later_start_def)

text \<open>
  C13. The iterative matcher of \<open>commands/pubsub.rs\<close>, which keeps a single backtrack point,
  decides exactly the declarative match of the pattern's tokens: \<open>*\<close> any bytes, \<open>?\<close> one
  byte, classes with ranges and negation, escapes; an unterminated class or a dangling
  escape matches nothing.
\<close>

theorem glob_match_correct: "glob_match p s \<longleftrightarrow> tokens_match (tokens p) s"
  by (rule glob_match_tokens)

end
