(* ===== verification/Rust_Collections.thy ===== *)
theory Rust_Collections
  imports Prelude "HOL-Library.AList"
begin

text \<open>
  The standard-library containers the store is built from.

  A \<open>HashMap\<close> is an association list with distinct keys whose order stands for the
  iteration order; the standard library leaves that order open, and a theorem about one
  operation holds for every list, hence for every order.  A \<open>BTreeMap\<close> is an association
  list sorted by a function of the key: the identity for stream IDs, and the total-order
  image of the score for \<open>(OrderedFloat<f64>, Bytes)\<close>, where keys that compare equal need
  not be identical.  A \<open>HashSet\<close> is a list without repetitions.  The interface the
  clients rely on is the locale \<open>rust_map\<close>, interpreted on both kinds of map.
\<close>

section \<open>The interface of a map\<close>

locale rust_map =
  fixes wf :: "'m \<Rightarrow> bool" and get :: "'m \<Rightarrow> 'k \<Rightarrow> 'v option"
    and ins :: "'k \<Rightarrow> 'v \<Rightarrow> 'm \<Rightarrow> 'm" and del :: "'k \<Rightarrow> 'm \<Rightarrow> 'm"
    and elems :: "'m \<Rightarrow> ('k \<times> 'v) list"
  assumes get_ins: "wf m \<Longrightarrow> get (ins k v m) = (get m)(k \<mapsto> v)"
    and get_del: "wf m \<Longrightarrow> get (del k m) = (get m)(k := None)"
    and wf_ins: "wf m \<Longrightarrow> wf (ins k v m)"
    and wf_del: "wf m \<Longrightarrow> wf (del k m)"
    and elems_get: "wf m \<Longrightarrow> map_of (elems m) = get m"
    and elems_distinct: "wf m \<Longrightarrow> distinct (map fst (elems m))"
begin

lemma dom_get: "wf m \<Longrightarrow> dom (get m) = fst ` set (elems m)"
  using elems_get [of m] by (metis dom_map_of_conv_image_fst)

lemma finite_dom: "wf m \<Longrightarrow> finite (dom (get m))"
  by (simp add: dom_get)

lemma card_dom: "wf m \<Longrightarrow> card (dom (get m)) = length (elems m)"
  using elems_distinct [of m] distinct_card [of "map fst (elems m)"] by (simp add: dom_get)

lemma elems_iff: "wf m \<Longrightarrow> (k, v) \<in> set (elems m) \<longleftrightarrow> get m k = Some v"
  using elems_get [of m] elems_distinct [of m] by (metis map_of_eq_Some_iff)

lemma length_ins: "wf m \<Longrightarrow>
    length (elems (ins k v m)) = (if get m k = None then Suc (length (elems m)) else length (elems m))"
proof -
  assume wf: "wf m"
  have "length (elems (ins k v m)) = card (insert k (dom (get m)))"
    using wf card_dom [OF wf_ins [OF wf], of k v] by (simp add: get_ins)
  with wf finite_dom card_dom show ?thesis
    by (auto simp: card_insert_if domIff)
qed

lemma length_del: "wf m \<Longrightarrow>
    length (elems (del k m)) = (if get m k = None then length (elems m) else length (elems m) - 1)"
proof -
  assume wf: "wf m"
  have "length (elems (del k m)) = card (dom (get m) - {k})"
    using wf card_dom [OF wf_del [OF wf], of k] by (simp add: get_del)
  with wf finite_dom card_dom show ?thesis
    by (auto simp: card_Diff_singleton domIff)
qed

text \<open>A key reported as present by \<open>remove\<close> is counted once.\<close>

lemma remove_step:
  assumes "wf m"
  shows "dom (get (del k m)) = dom (get m) - {k}"
  using assms by (auto simp: get_del split: if_splits)

lemma insert_step:
  assumes "wf m"
  shows "dom (get (ins k v m)) = insert k (dom (get m))"
  using assms by (simp add: get_ins)

end

section \<open>Hash maps\<close>

type_synonym ('k, 'v) hashmap = "('k \<times> 'v) list"

definition hm_wf :: "('k, 'v) hashmap \<Rightarrow> bool" where
  "hm_wf m \<longleftrightarrow> distinct (map fst m)"

definition hm_get :: "('k, 'v) hashmap \<Rightarrow> 'k \<Rightarrow> 'v option" where
  "hm_get m k = map_of m k"

definition hm_contains :: "('k, 'v) hashmap \<Rightarrow> 'k \<Rightarrow> bool" where
  "hm_contains m k \<longleftrightarrow> hm_get m k \<noteq> None"

definition hm_insert :: "'k \<Rightarrow> 'v \<Rightarrow> ('k, 'v) hashmap \<Rightarrow> ('k, 'v) hashmap" where
  "hm_insert k v m = AList.update k v m"

definition hm_remove :: "'k \<Rightarrow> ('k, 'v) hashmap \<Rightarrow> ('k, 'v) hashmap" where
  "hm_remove k m = AList.delete k m"

text \<open>Collecting an iterator of pairs into a map: later pairs win.\<close>

definition hm_collect :: "('k \<times> 'v) list \<Rightarrow> ('k, 'v) hashmap" where
  "hm_collect ps = fold (\<lambda>(k, v) m. hm_insert k v m) ps []"

lemma hm_get_Nil [simp, map_simps]: "hm_get [] k = None"
  by (simp add: hm_get_def)

lemma hm_get_insert [simp, map_simps]:
  "hm_get (hm_insert k v m) j = (if j = k then Some v else hm_get m j)"
  by (simp add: hm_get_def hm_insert_def update_conv')

lemma hm_get_remove [simp, map_simps]:
  "hm_get (hm_remove k m) j = (if j = k then None else hm_get m j)"
  by (simp add: hm_get_def hm_remove_def delete_conv')

lemma hm_wf_Nil [simp, wf_intros]: "hm_wf []"
  by (simp add: hm_wf_def)

lemma hm_wf_insert [simp, wf_intros]: "hm_wf m \<Longrightarrow> hm_wf (hm_insert k v m)"
  by (simp add: hm_wf_def hm_insert_def distinct_update)

lemma hm_wf_remove [simp, wf_intros]: "hm_wf m \<Longrightarrow> hm_wf (hm_remove k m)"
  by (simp add: hm_wf_def hm_remove_def distinct_delete)

interpretation hm: rust_map hm_wf hm_get hm_insert hm_remove "\<lambda>m. m"
  by unfold_locales (auto simp: fun_eq_iff, auto simp: hm_wf_def hm_get_def)

lemma hm_get_map_of: "hm_get m = map_of m"
  by (simp add: hm_get_def fun_eq_iff)

lemma hm_get_Some_in: "hm_get m k = Some v \<Longrightarrow> (k, v) \<in> set m"
  by (simp add: hm_get_def map_of_SomeD)

lemma hm_in_get: "hm_wf m \<Longrightarrow> (k, v) \<in> set m \<Longrightarrow> hm_get m k = Some v"
  by (simp add: hm.elems_iff)

lemma hm_get_None_iff: "hm_get m k = None \<longleftrightarrow> k \<notin> fst ` set m"
  by (simp add: hm_get_def map_of_eq_None_iff)

text \<open>Writing back the value that is there changes nothing.\<close>

lemma hm_insert_same: "hm_get m k = Some v \<Longrightarrow> hm_insert k v m = m"
  by (induction m) (auto simp: hm_get_def hm_insert_def split: if_splits)

lemma hm_remove_absent: "hm_get m k = None \<Longrightarrow> hm_remove k m = m"
  by (simp add: hm_get_def hm_remove_def delete_id map_of_eq_None_iff)

lemma hm_insert_neq_Nil [simp]: "hm_insert k v m \<noteq> []"
  by (simp add: hm_insert_def update_nonempty)

lemma set_hm_remove: "set (hm_remove k m) = {p \<in> set m. fst p \<noteq> k}"
  by (auto simp: hm_remove_def AList.delete_eq)

lemma set_hm_insert_subset: "set (hm_insert k v m) \<subseteq> insert (k, v) (set m)"
  by (induction m) (auto simp: hm_insert_def)

lemma hm_wf_collect [simp, wf_intros]: "hm_wf (hm_collect ps)"
proof -
  have "hm_wf m \<Longrightarrow> hm_wf (fold (\<lambda>(k, v) m. hm_insert k v m) ps m)" for m
    by (induction ps arbitrary: m) auto
  then show ?thesis by (simp add: hm_collect_def)
qed

lemma hm_get_collect_fold:
  "hm_get (fold (\<lambda>(k, v) m. hm_insert k v m) ps m) j =
     (case map_of (rev ps) j of Some v \<Rightarrow> Some v | None \<Rightarrow> hm_get m j)"
  by (induction ps arbitrary: m) (auto split: option.splits simp: map_add_def)

lemma hm_get_collect: "hm_get (hm_collect ps) = map_of (rev ps)"
  by (auto simp: hm_collect_def hm_get_collect_fold fun_eq_iff split: option.splits)

lemma hm_get_collect_distinct:
  "distinct (map fst ps) \<Longrightarrow> hm_get (hm_collect ps) = map_of ps"
  by (simp add: hm_get_collect map_of_inject_set rev_map [symmetric])

text \<open>Applying a function to every value.\<close>

lemma hm_get_map_values: "hm_get (map (\<lambda>(k, v). (k, g v)) m) j = map_option g (hm_get m j)"
  by (induction m) (auto simp: hm_get_def)

lemma hm_wf_map_values [simp]: "hm_wf (map (\<lambda>(k, v). (k, g v)) m) = hm_wf m"
proof -
  have "map fst (map (\<lambda>(k, v). (k, g v)) m) = map fst m"
    by (induction m) auto
  then show ?thesis by (simp only: hm_wf_def)
qed

section \<open>Tree maps\<close>

type_synonym ('k, 'v) btreemap = "('k \<times> 'v) list"

text \<open>
  \<open>insert\<close> on a key that compares equal to a key of the map keeps the old key and
  replaces the value.
\<close>

fun bt_insert :: "('k \<Rightarrow> 'o::linorder) \<Rightarrow> 'k \<Rightarrow> 'v \<Rightarrow> ('k, 'v) btreemap \<Rightarrow> ('k, 'v) btreemap" where
  "bt_insert f k v [] = [(k, v)]"
| "bt_insert f k v ((a, b) # m) =
     (if f k < f a then (k, v) # (a, b) # m
      else if f k = f a then (a, v) # m
      else (a, b) # bt_insert f k v m)"

definition bt_remove :: "('k \<Rightarrow> 'o::linorder) \<Rightarrow> 'k \<Rightarrow> ('k, 'v) btreemap \<Rightarrow> ('k, 'v) btreemap" where
  "bt_remove f k m = filter (\<lambda>p. f (fst p) \<noteq> f k) m"

definition bt_wf :: "('k \<Rightarrow> 'o::linorder) \<Rightarrow> ('k, 'v) btreemap \<Rightarrow> bool" where
  "bt_wf f m \<longleftrightarrow> sorted_wrt (<) (map (\<lambda>p. f (fst p)) m)"

text \<open>The entries from a lower bound on, and between two bounds.\<close>

definition bt_from :: "('k \<Rightarrow> 'o::linorder) \<Rightarrow> 'o \<Rightarrow> ('k, 'v) btreemap \<Rightarrow> ('k \<times> 'v) list" where
  "bt_from f lo m = filter (\<lambda>p. lo \<le> f (fst p)) m"

definition bt_after :: "('k \<Rightarrow> 'o::linorder) \<Rightarrow> 'o \<Rightarrow> ('k, 'v) btreemap \<Rightarrow> ('k \<times> 'v) list" where
  "bt_after f lo m = filter (\<lambda>p. lo < f (fst p)) m"

definition bt_below :: "('k \<Rightarrow> 'o::linorder) \<Rightarrow> 'o \<Rightarrow> ('k, 'v) btreemap \<Rightarrow> ('k \<times> 'v) list" where
  "bt_below f hi m = filter (\<lambda>p. f (fst p) < hi) m"

definition bt_between :: "('k \<Rightarrow> 'o::linorder) \<Rightarrow> 'o \<Rightarrow> 'o \<Rightarrow> ('k, 'v) btreemap \<Rightarrow> ('k \<times> 'v) list" where
  "bt_between f lo hi m = filter (\<lambda>p. lo \<le> f (fst p) \<and> f (fst p) \<le> hi) m"

definition bt_collect :: "('k \<Rightarrow> 'o::linorder) \<Rightarrow> ('k \<times> 'v) list \<Rightarrow> ('k, 'v) btreemap" where
  "bt_collect f ps = fold (\<lambda>(k, v) m. bt_insert f k v m) ps []"

lemma bt_wf_Nil [simp, wf_intros]: "bt_wf f []"
  by (simp add: bt_wf_def)

lemma bt_wf_Cons:
  "bt_wf f (p # m) \<longleftrightarrow> (\<forall>q \<in> set m. f (fst p) < f (fst q)) \<and> bt_wf f m"
  by (auto simp: bt_wf_def)

lemma set_bt_insert_subset: "set (bt_insert f k v m) \<subseteq> {(k, v)} \<union> set m \<union> {(a, v) | a. f a = f k}"
  by (induction f k v m rule: bt_insert.induct) auto

lemma bt_insert_keys: "(\<lambda>p. f (fst p)) ` set (bt_insert f k v m) = insert (f k) ((\<lambda>p. f (fst p)) ` set m)"
  by (induction f k v m rule: bt_insert.induct) auto

lemma bt_wf_insert [simp, wf_intros]: "bt_wf f m \<Longrightarrow> bt_wf f (bt_insert f k v m)"
proof (induction f k v m rule: bt_insert.induct)
  case (1 f k v)
  then show ?case by (simp add: bt_wf_def)
next
  case (2 f k v a b m)
  have lt: "f a < x" if "x \<in> (\<lambda>p. f (fst p)) ` set (bt_insert f k v m)" "f a < f k" for x
    using that "2.prems" by (auto simp: bt_insert_keys bt_wf_Cons)
  consider "f k < f a" | "f k = f a" | "f a < f k" by fastforce
  then show ?case
  proof cases
    case 3
    then have "\<not> f k < f a" "f k \<noteq> f a" by auto
    with 3 2 lt show ?thesis by (auto simp: bt_wf_Cons)
  qed (use "2.prems" in \<open>auto simp: bt_wf_Cons\<close>)
qed

lemma bt_wf_filter [simp, wf_intros]: "bt_wf f m \<Longrightarrow> bt_wf f (filter P m)"
  by (induction m) (auto simp: bt_wf_Cons)

lemma bt_wf_remove [simp, wf_intros]: "bt_wf f m \<Longrightarrow> bt_wf f (bt_remove f k m)"
  by (simp add: bt_remove_def)

lemma bt_wf_inj: "bt_wf f m \<Longrightarrow> p \<in> set m \<Longrightarrow> q \<in> set m \<Longrightarrow> f (fst p) = f (fst q) \<Longrightarrow> p = q"
  by (induction m) (auto simp: bt_wf_Cons)

lemma bt_wf_distinct: "bt_wf f m \<Longrightarrow> distinct (map fst m)"
  by (induction m) (auto simp: bt_wf_Cons)

lemma bt_wf_tl [simp, wf_intros]: "bt_wf f m \<Longrightarrow> bt_wf f (tl m)"
  by (cases m) (auto simp: bt_wf_Cons)

lemma bt_wf_drop [simp, wf_intros]: "bt_wf f m \<Longrightarrow> bt_wf f (drop n m)"
  by (auto simp: bt_wf_def drop_map [symmetric] sorted_wrt_drop)

lemma set_bt_remove: "set (bt_remove f k m) = {p \<in> set m. f (fst p) \<noteq> f k}"
  by (auto simp: bt_remove_def)

lemma set_bt_insert_fresh:
  "f k \<notin> (\<lambda>p. f (fst p)) ` set m \<Longrightarrow> set (bt_insert f k v m) = insert (k, v) (set m)"
  by (induction f k v m rule: bt_insert.induct) auto

text \<open>With the identity as order, the tree map is a map.\<close>

definition bt_get :: "('k::linorder, 'v) btreemap \<Rightarrow> 'k \<Rightarrow> 'v option" where
  "bt_get m k = map_of m k"

abbreviation btree_wf :: "('k::linorder, 'v) btreemap \<Rightarrow> bool" where
  "btree_wf \<equiv> bt_wf (\<lambda>k. k)"

abbreviation btree_insert :: "'k::linorder \<Rightarrow> 'v \<Rightarrow> ('k, 'v) btreemap \<Rightarrow> ('k, 'v) btreemap" where
  "btree_insert \<equiv> bt_insert (\<lambda>k. k)"

abbreviation btree_remove :: "'k::linorder \<Rightarrow> ('k, 'v) btreemap \<Rightarrow> ('k, 'v) btreemap" where
  "btree_remove \<equiv> bt_remove (\<lambda>k. k)"

lemma bt_get_Nil [simp, map_simps]: "bt_get [] k = None"
  by (simp add: bt_get_def)

lemma bt_get_insert [simp, map_simps]:
  "bt_get (btree_insert k v m) j = (if j = k then Some v else bt_get m j)"
  by (induction m) (auto simp: bt_get_def)

lemma bt_get_remove [simp, map_simps]:
  "bt_get (btree_remove k m) j = (if j = k then None else bt_get m j)"
  by (induction m) (auto simp: bt_get_def bt_remove_def)

interpretation bt: rust_map btree_wf bt_get btree_insert btree_remove "\<lambda>m. m"
  by unfold_locales (auto simp: fun_eq_iff bt_wf_distinct, auto simp: bt_get_def)

lemma bt_get_None_iff: "bt_get m k = None \<longleftrightarrow> k \<notin> fst ` set m"
  by (simp add: bt_get_def map_of_eq_None_iff)

lemma bt_get_filter:
  assumes "btree_wf m"
  shows "bt_get (filter (\<lambda>p. P (fst p)) m) k = (if P k then bt_get m k else None)"
  using assms by (induction m) (auto simp: bt_get_def bt_wf_Cons)

text \<open>Appending past the last key keeps the order.\<close>

lemma btree_insert_last:
  assumes "\<forall>p \<in> set m. fst p < k"
  shows "btree_insert k v m = m @ [(k, v)]"
  using assms by (induction m) auto

lemma btree_wf_snoc: "btree_wf (m @ [(k, v)]) \<longleftrightarrow> btree_wf m \<and> (\<forall>p \<in> set m. fst p < k)"
  by (auto simp: bt_wf_def sorted_wrt_append)

lemma fold_bt_insert_append:
  assumes "btree_wf (m @ ps)"
  shows "fold (\<lambda>(k, v) m. btree_insert k v m) ps m = m @ ps"
  using assms
proof (induction ps arbitrary: m)
  case Nil
  then show ?case by simp
next
  case (Cons p ps)
  obtain k v where p: "p = (k, v)" by force
  from Cons.prems have "\<forall>q \<in> set m. fst q < k"
    by (auto simp: bt_wf_def sorted_wrt_append p)
  with Cons.IH [of "m @ [(k, v)]"] Cons.prems show ?case
    by (simp add: p btree_insert_last)
qed

text \<open>Collecting the entries of a tree map gives the map back.\<close>

lemma bt_collect_id: "btree_wf m \<Longrightarrow> bt_collect (\<lambda>k. k) m = m"
  using fold_bt_insert_append [of "[]" m] by (simp add: bt_collect_def)

section \<open>Hash sets\<close>

type_synonym 'a hashset = "'a list"

definition hs_insert :: "'a \<Rightarrow> 'a hashset \<Rightarrow> 'a hashset" where
  "hs_insert x s = (if x \<in> set s then s else s @ [x])"

definition hs_remove :: "'a \<Rightarrow> 'a hashset \<Rightarrow> 'a hashset" where
  "hs_remove x s = removeAll x s"

definition hs_collect :: "'a list \<Rightarrow> 'a hashset" where
  "hs_collect xs = fold hs_insert xs []"

lemma set_hs_insert [simp]: "set (hs_insert x s) = insert x (set s)"
  by (auto simp: hs_insert_def)

lemma set_hs_remove [simp]: "set (hs_remove x s) = set s - {x}"
  by (simp add: hs_remove_def)

lemma distinct_hs_insert [simp, wf_intros]: "distinct s \<Longrightarrow> distinct (hs_insert x s)"
  by (simp add: hs_insert_def)

lemma distinct_hs_remove [simp, wf_intros]: "distinct s \<Longrightarrow> distinct (hs_remove x s)"
  by (simp add: hs_remove_def distinct_removeAll)

lemma hs_insert_neq_Nil [simp]: "hs_insert x s \<noteq> []"
  by (auto simp: hs_insert_def)

lemma hs_collect_set_distinct: "distinct xs \<Longrightarrow> hs_collect xs = xs"
proof -
  have "distinct (s @ xs) \<Longrightarrow> fold hs_insert xs s = s @ xs" for s
    by (induction xs arbitrary: s) (auto simp: hs_insert_def)
  from this [of "[]"] show "distinct xs \<Longrightarrow> hs_collect xs = xs"
    by (simp add: hs_collect_def)
qed

section \<open>Optional limits\<close>

text \<open>
  \<open>iter.take(count.unwrap_or(usize::MAX))\<close>: no container holds \<open>usize::MAX\<close>
  elements, so an absent limit takes everything.
\<close>

definition take_opt :: "usize option \<Rightarrow> 'a list \<Rightarrow> 'a list" where
  "take_opt n xs = (case n of None \<Rightarrow> xs | Some k \<Rightarrow> take k xs)"

lemma take_opt_None [simp]: "take_opt None xs = xs"
  by (simp add: take_opt_def)

lemma take_opt_Some [simp]: "take_opt (Some n) xs = take n xs"
  by (simp add: take_opt_def)

lemma set_take_opt_subset: "set (take_opt n xs) \<subseteq> set xs"
  by (cases n) (auto dest: in_set_takeD)

lemma take_opt_eq_take: "\<exists>k. take_opt n xs = take k xs"
  by (cases n) (auto intro: exI [of _ "length xs"])

end
