(* ===== verification/Rust_Text.thy ===== *)
theory Rust_Text
  imports Prelude
begin

text \<open>
  Text as the code uses it: UTF-8 validation and lossy decoding, ASCII upper case, decimal
  integers read by \<open>str::parse\<close> and printed by \<open>to_string\<close>, and the stream-ID
  syntax of \<^verbatim>\<open>src/src/commands/streams.rs\<close>.
\<close>

section \<open>UTF-8\<close>

definition code :: "char \<Rightarrow> nat" where
  "code c = of_char c"

definition code_at :: "bytes \<Rightarrow> nat \<Rightarrow> nat" where
  "code_at bs i = (if i < length bs then code (bs ! i) else 0)"

definition cont_at :: "bytes \<Rightarrow> nat \<Rightarrow> bool" where
  "cont_at bs i \<longleftrightarrow> 128 \<le> code_at bs i \<and> code_at bs i < 192"

text \<open>Whether the second byte of a three- or four-byte sequence may follow the first.\<close>

definition second_of_3 :: "nat \<Rightarrow> nat \<Rightarrow> bool" where
  "second_of_3 a b \<longleftrightarrow>
     (a = 0xE0 \<and> 0xA0 \<le> b \<and> b \<le> 0xBF) \<or> (0xE1 \<le> a \<and> a \<le> 0xEC \<and> 0x80 \<le> b \<and> b \<le> 0xBF) \<or>
     (a = 0xED \<and> 0x80 \<le> b \<and> b \<le> 0x9F) \<or> (0xEE \<le> a \<and> a \<le> 0xEF \<and> 0x80 \<le> b \<and> b \<le> 0xBF)"

definition second_of_4 :: "nat \<Rightarrow> nat \<Rightarrow> bool" where
  "second_of_4 a b \<longleftrightarrow>
     (a = 0xF0 \<and> 0x90 \<le> b \<and> b \<le> 0xBF) \<or> (0xF1 \<le> a \<and> a \<le> 0xF3 \<and> 0x80 \<le> b \<and> b \<le> 0xBF) \<or>
     (a = 0xF4 \<and> 0x80 \<le> b \<and> b \<le> 0x8F)"

text \<open>
  One step of the decoder at a first byte and the bytes behind it: whether a well-formed
  character starts there, and the number of bytes it or the ill-formed sequence takes.
\<close>

definition utf8_step :: "char \<Rightarrow> bytes \<Rightarrow> bool \<times> nat" where
  "utf8_step b bs =
     (let n = code b in
      if n < 0x80 then (True, 1)
      else if 0xC2 \<le> n \<and> n \<le> 0xDF then (if cont_at bs 0 then (True, 2) else (False, 1))
      else if 0xE0 \<le> n \<and> n \<le> 0xEF then
        (if second_of_3 n (code_at bs 0) then (if cont_at bs 1 then (True, 3) else (False, 2))
         else (False, 1))
      else if 0xF0 \<le> n \<and> n \<le> 0xF4 then
        (if second_of_4 n (code_at bs 0) then
           (if cont_at bs 1 then (if cont_at bs 2 then (True, 4) else (False, 3)) else (False, 2))
         else (False, 1))
      else (False, 1))"

text \<open>\<open>String::from_utf8_lossy\<close>: every ill-formed sequence becomes U+FFFD.\<close>

definition replacement :: bytes where
  "replacement = [char_of (0xEF :: nat), char_of (0xBF :: nat), char_of (0xBD :: nat)]"

fun utf8_lossy :: "bytes \<Rightarrow> string" where
  "utf8_lossy [] = []"
| "utf8_lossy (b # bs) =
     (let (ok, n) = utf8_step b bs
      in (if ok then b # take (n - 1) bs else replacement) @ utf8_lossy (drop (n - 1) bs))"

text \<open>\<open>std::str::from_utf8\<close> succeeds.\<close>

fun utf8_valid :: "bytes \<Rightarrow> bool" where
  "utf8_valid [] = True"
| "utf8_valid (b # bs) = (let (ok, n) = utf8_step b bs in ok \<and> utf8_valid (drop (n - 1) bs))"

lemma utf8_lossy_valid: "utf8_valid bs \<Longrightarrow> utf8_lossy bs = bs"
  by (induction bs rule: utf8_valid.induct) (auto simp: Let_def split: prod.splits)

lemma utf8_step_ascii: "code b < 128 \<Longrightarrow> utf8_step b bs = (True, 1)"
  by (simp add: utf8_step_def)

lemma utf8_valid_ascii: "\<forall>c \<in> set bs. code c < 128 \<Longrightarrow> utf8_valid bs"
  by (induction bs) (auto simp: utf8_step_ascii)

section \<open>ASCII case\<close>

definition ascii_upper :: "char \<Rightarrow> char" where
  "ascii_upper c = (if 97 \<le> code c \<and> code c \<le> 122 then char_of (code c - 32) else c)"

definition to_ascii_uppercase :: "string \<Rightarrow> string" where
  "to_ascii_uppercase s = map ascii_upper s"

section \<open>Decimal integers\<close>

definition digit_val :: "char \<Rightarrow> nat option" where
  "digit_val c = (if 48 \<le> code c \<and> code c \<le> 57 then Some (code c - 48) else None)"

fun parse_digits :: "nat \<Rightarrow> string \<Rightarrow> nat option" where
  "parse_digits acc [] = Some acc"
| "parse_digits acc (c # cs) =
     (case digit_val c of None \<Rightarrow> None | Some d \<Rightarrow> parse_digits (10 * acc + d) cs)"

text \<open>
  \<open>str::parse\<close>: a leading \<open>+\<close> is accepted, a leading \<open>-\<close> by the signed type
  only, a sign alone is not a number, and a value outside the type's range is an error.
\<close>

definition parse_nat :: "string \<Rightarrow> nat option" where
  "parse_nat s = (if s = [] then None else parse_digits 0 s)"

definition parse_u64 :: "string \<Rightarrow> u64 option" where
  "parse_u64 s =
     (case parse_nat (case s of c # cs \<Rightarrow> if c = CHR ''+'' then cs else s | [] \<Rightarrow> []) of
        None \<Rightarrow> None
      | Some n \<Rightarrow> if n < 2 ^ 64 then Some (of_nat n) else None)"

definition parse_i64 :: "string \<Rightarrow> int option" where
  "parse_i64 s =
     (case (case s of
              [] \<Rightarrow> None
            | c # cs \<Rightarrow>
                if c = CHR ''-'' then map_option (\<lambda>n. - int n) (parse_nat cs)
                else if c = CHR ''+'' then map_option int (parse_nat cs)
                else map_option int (parse_nat s)) of
        None \<Rightarrow> None
      | Some n \<Rightarrow> if in_i64 n then Some n else None)"

fun nat_str :: "nat \<Rightarrow> string" where
  "nat_str n = (if n < 10 then [char_of (48 + n)] else nat_str (n div 10) @ [char_of (48 + n mod 10)])"

declare nat_str.simps [simp del]

definition i64_str :: "int \<Rightarrow> string" where
  "i64_str n = (if n < 0 then CHR ''-'' # nat_str (nat (- n)) else nat_str (nat n))"

definition u64_str :: "u64 \<Rightarrow> string" where
  "u64_str w = nat_str (unat w)"

lemma code_char_of [simp]: "n < 256 \<Longrightarrow> code (char_of n) = n"
  by (simp add: code_def)

lemma digit_val_char_of [simp]: "n < 10 \<Longrightarrow> digit_val (char_of (48 + n)) = Some n"
  by (simp add: digit_val_def)

lemma parse_digits_append:
  "parse_digits acc (xs @ ys) = Option.bind (parse_digits acc xs) (\<lambda>n. parse_digits n ys)"
  by (induction xs arbitrary: acc) (auto split: option.splits)

lemma parse_digits_nat_str [simp]: "parse_digits 0 (nat_str n) = Some n"
proof (induction n rule: nat_str.induct)
  case (1 n)
  show ?case
  proof (cases "n < 10")
    case True
    then show ?thesis by (simp add: nat_str.simps [of n])
  next
    case False
    with 1 have "parse_digits 0 (nat_str (n div 10)) = Some (n div 10)" by simp
    with False show ?thesis by (simp add: nat_str.simps [of n] parse_digits_append)
  qed
qed

lemma nat_str_neq_Nil [simp]: "nat_str n \<noteq> []"
  by (subst nat_str.simps) simp

lemma nat_str_digits: "c \<in> set (nat_str n) \<Longrightarrow> 48 \<le> code c \<and> code c \<le> 57"
proof (induction n rule: nat_str.induct)
  case (1 n)
  then show ?case
    by (subst (asm) nat_str.simps) (auto split: if_splits)
qed

lemma digit_not_sign:
  assumes "c \<in> set (nat_str n)"
  shows "c \<noteq> CHR ''-'' \<and> c \<noteq> CHR ''+''"
  using nat_str_digits [OF assms] by (auto simp: code_def)

lemma nat_str_hd: "\<exists>c cs. nat_str n = c # cs \<and> c \<noteq> CHR ''-'' \<and> c \<noteq> CHR ''+''"
proof (cases "nat_str n")
  case Nil
  then show ?thesis by simp
next
  case (Cons c cs)
  then have "c \<in> set (nat_str n)" by simp
  with Cons digit_not_sign show ?thesis by blast
qed

lemma parse_nat_nat_str [simp]: "parse_nat (nat_str n) = Some n"
  by (simp add: parse_nat_def)

lemma parse_u64_nat_str: "n < 2 ^ 64 \<Longrightarrow> parse_u64 (nat_str n) = Some (of_nat n)"
proof -
  obtain c cs where "nat_str n = c # cs" "c \<noteq> CHR ''+''"
    using nat_str_hd by blast
  then have "(case nat_str n of c # cs \<Rightarrow> if c = CHR ''+'' then cs else nat_str n | [] \<Rightarrow> []) = nat_str n"
    by simp
  then show "n < 2 ^ 64 \<Longrightarrow> parse_u64 (nat_str n) = Some (of_nat n)"
    by (simp add: parse_u64_def)
qed

lemma parse_u64_u64_str [simp]: "parse_u64 (u64_str w) = Some w"
proof -
  have "unat w < 2 ^ LENGTH(64)" by (rule unsigned_less)
  then show ?thesis by (simp add: u64_str_def parse_u64_nat_str)
qed

lemma parse_i64_i64_str [simp]: "in_i64 n \<Longrightarrow> parse_i64 (i64_str n) = Some n"
proof -
  obtain c cs where cs: "nat_str (nat n) = c # cs" "c \<noteq> CHR ''-''" "c \<noteq> CHR ''+''"
    using nat_str_hd by blast
  have p: "parse_nat (c # cs) = Some (nat n)"
    using parse_nat_nat_str [of "nat n"] cs by simp
  assume "in_i64 n"
  then show "parse_i64 (i64_str n) = Some n"
    using cs p by (auto simp: parse_i64_def i64_str_def)
qed

lemma parse_i64_range: "parse_i64 s = Some n \<Longrightarrow> in_i64 n"
  by (auto simp: parse_i64_def split: option.splits if_splits)

lemma i64_str_ascii: "c \<in> set (i64_str n) \<Longrightarrow> code c < 128"
proof -
  assume "c \<in> set (i64_str n)"
  then consider "c = CHR ''-''" | m where "c \<in> set (nat_str m)"
    by (auto simp: i64_str_def split: if_splits)
  then show ?thesis
  proof cases
    case 1
    then show ?thesis by (simp add: code_def)
  next
    case (2 m)
    then show ?thesis using nat_str_digits [of c m] by simp
  qed
qed

lemma utf8_valid_i64_str [simp]: "utf8_valid (i64_str n)"
  by (simp add: utf8_valid_ascii i64_str_ascii)

lemma i64_str_inj: "in_i64 m \<Longrightarrow> in_i64 n \<Longrightarrow> i64_str m = i64_str n \<Longrightarrow> m = n"
  by (metis option.inject parse_i64_i64_str)

section \<open>Stream IDs\<close>

text \<open>\<open>s.splitn(2, '-')\<close>: the parts around the first separator, if there is one.\<close>

fun split_once :: "char \<Rightarrow> string \<Rightarrow> (string \<times> string) option" where
  "split_once c [] = None"
| "split_once c (x # xs) =
     (if x = c then Some ([], xs) else map_option (\<lambda>(a, b). (x # a, b)) (split_once c xs))"

definition format_stream_id :: "stream_id \<Rightarrow> string" where
  "format_stream_id sid = u64_str (fst sid) @ ''-'' @ u64_str (snd sid)"

definition parse_stream_id :: "string \<Rightarrow> stream_id option" where
  "parse_stream_id s =
     (case split_once CHR ''-'' s of
        None \<Rightarrow> None
      | Some (a, b) \<Rightarrow>
          (case parse_u64 a of
             None \<Rightarrow> None
           | Some ms \<Rightarrow> (case parse_u64 b of None \<Rightarrow> None | Some seq \<Rightarrow> Some (ms, seq))))"

lemma split_once_append: "c \<notin> set a \<Longrightarrow> split_once c (a @ c # b) = Some (a, b)"
  by (induction a) auto

lemma split_once_u64_str: "split_once CHR ''-'' (u64_str w @ CHR ''-'' # s) = Some (u64_str w, s)"
  by (rule split_once_append) (auto simp: u64_str_def dest: digit_not_sign)

text \<open>
  Printing a stream entry ID and parsing it back gives the ID: the two functions of
  \<open>commands/streams.rs\<close> agree, for all pairs of 64-bit numbers.
\<close>

theorem stream_id_roundtrip: "parse_stream_id (format_stream_id sid) = Some sid"
  by (simp add: parse_stream_id_def format_stream_id_def split_once_u64_str)

end
