(* ===== verification/Store_Types.thy ===== *)
theory Store_Types
  imports Rust_Collections Rust_Text
begin

text \<open>
  The data model of \<^verbatim>\<open>src/src/store.rs\<close> (the value types, an entry with its deadline,
  the errors and their wire text) and the argument helpers of
  \<^verbatim>\<open>src/src/commands/lists.rs\<close>.
\<close>

section \<open>Errors\<close>

datatype store_error =
    WrongType
  | NoGroup string string \<comment> \<open>group, key\<close>
  | BusyGroup
  | KeyNotFound
  | SyntaxErr string \<comment> \<open>the full wire message\<close>
  | NoSuchKey

text \<open>The \<open>Display\<close> text that \<open>thiserror\<close> derives; it swaps group and key.\<close>

fun store_error_text :: "store_error \<Rightarrow> string" where
  "store_error_text WrongType = ''WRONGTYPE Operation against a key holding the wrong kind of value''"
| "store_error_text (NoGroup grp key) =
     ''NOGROUP No such key '' @ [CHR 0x27] @ key @ [CHR 0x27] @ '' or consumer group '' @
     [CHR 0x27] @ grp @ [CHR 0x27]"
| "store_error_text BusyGroup = ''BUSYGROUP Consumer Group name already exists''"
| "store_error_text KeyNotFound = ''ERR The XGROUP subcommand requires the key to exist''"
| "store_error_text (SyntaxErr msg) = msg"
| "store_error_text NoSuchKey = ''ERR no such key''"

section \<open>Scores\<close>

text \<open>
  An \<open>f64\<close> is its bit pattern.  The store only compares scores: IEEE comparison is false on
  a NaN, orders the other values as sign and magnitude, and identifies the two zeros;
  \<open>OrderedFloat\<close> adds every NaN as one greatest value.
\<close>

datatype f64 = F64 (f64_bits: u64)

definition f64_neg :: "f64 \<Rightarrow> bool" where
  "f64_neg x \<longleftrightarrow> 2 ^ 63 \<le> uint (f64_bits x)"

definition f64_mag :: "f64 \<Rightarrow> int" where
  "f64_mag x = uint (f64_bits x) mod 2 ^ 63"

definition f64_nan :: "f64 \<Rightarrow> bool" where
  "f64_nan x \<longleftrightarrow> 0x7FF0000000000000 < f64_mag x"

definition f64_key :: "f64 \<Rightarrow> int" where
  "f64_key x = (if f64_neg x then - f64_mag x else f64_mag x)"

definition f64_le :: "f64 \<Rightarrow> f64 \<Rightarrow> bool" where
  "f64_le x y \<longleftrightarrow> \<not> f64_nan x \<and> \<not> f64_nan y \<and> f64_key x \<le> f64_key y"

definition f64_lt :: "f64 \<Rightarrow> f64 \<Rightarrow> bool" where
  "f64_lt x y \<longleftrightarrow> \<not> f64_nan x \<and> \<not> f64_nan y \<and> f64_key x < f64_key y"

definition f64_eq :: "f64 \<Rightarrow> f64 \<Rightarrow> bool" where
  "f64_eq x y \<longleftrightarrow> \<not> f64_nan x \<and> \<not> f64_nan y \<and> f64_key x = f64_key y"

definition f64_INFINITY :: f64 where
  "f64_INFINITY = F64 0x7FF0000000000000"

definition f64_NEG_INFINITY :: f64 where
  "f64_NEG_INFINITY = F64 0xFFF0000000000000"

text \<open>The rank of \<open>OrderedFloat x\<close> in its total order.\<close>

definition of_rank :: "f64 \<Rightarrow> int" where
  "of_rank x = (if f64_nan x then 2 ^ 63 else f64_key x)"

lemma f64_mag_less: "f64_mag x < 2 ^ 63"
  by (simp add: f64_mag_def)

lemma f64_mag_ge: "0 \<le> f64_mag x"
  by (simp add: f64_mag_def)

lemma f64_key_less: "f64_key x < 2 ^ 63"
  using f64_mag_less [of x] f64_mag_ge [of x] by (simp add: f64_key_def)

lemma of_rank_nan: "of_rank x = 2 ^ 63 \<longleftrightarrow> f64_nan x"
  using f64_key_less [of x] by (simp add: of_rank_def)

lemma of_rank_less_nan: "f64_nan y \<Longrightarrow> of_rank x \<le> of_rank y"
  using f64_key_less [of x] by (simp add: of_rank_def)

lemma f64_le_rank: "f64_le x y \<longleftrightarrow> \<not> f64_nan y \<and> of_rank x \<le> of_rank y"
  using f64_key_less [of y] by (auto simp: f64_le_def of_rank_def)

lemma f64_lt_rank: "f64_lt x y \<longleftrightarrow> \<not> f64_nan y \<and> of_rank x < of_rank y"
  using f64_key_less [of y] by (auto simp: f64_lt_def of_rank_def)

lemma f64_eq_rank: "f64_eq x y \<longleftrightarrow> \<not> f64_nan x \<and> of_rank x = of_rank y"
  using f64_key_less [of x] by (auto simp: f64_eq_def of_rank_def)

section \<open>Values\<close>

text \<open>
  The sorted set: entries ordered by score and member, and the score of each member.
  The key of \<open>by_score\<close> compares by \<open>score_key\<close>.
\<close>

record sorted_set =
  by_score :: "(f64 \<times> bytes, unit) btreemap"
  by_member :: "(bytes, f64) hashmap"

definition score_key :: "f64 \<times> bytes \<Rightarrow> int \<times> bytes" where
  "score_key p = (of_rank (fst p), snd p)"

record pending_entry =
  delivery_time :: instant
  delivery_count :: u64

record consumer =
  pending :: "(stream_id, pending_entry) hashmap"

record consumer_group =
  last_delivered_id :: stream_id
  consumers :: "(bytes, consumer) hashmap"

type_synonym fields = "(bytes, bytes) hashmap"

record stream =
  entries :: "(stream_id, fields) btreemap"
  last_id :: stream_id
  groups :: "(bytes, consumer_group) hashmap"

record xinfo_stream_snapshot =
  snap_length :: usize
  snap_last_id :: stream_id
  snap_groups_count :: usize
  snap_first_entry :: "(stream_id \<times> fields) option"
  snap_last_entry :: "(stream_id \<times> fields) option"

datatype value_data =
    StringV bytes
  | HashV "(bytes, bytes) hashmap"
  | SetV "bytes hashset"
  | SortedSetV sorted_set
  | StreamV stream
  | ListV "bytes list"

record value_entry =
  vdata :: value_data
  expires_at :: "instant option"

definition new_sorted_set_value :: sorted_set where
  "new_sorted_set_value = \<lparr>by_score = [], by_member = []\<rparr>"

definition new_stream_value :: stream where
  "new_stream_value = \<lparr>entries = [], last_id = (0, 0), groups = []\<rparr>"

definition new_consumer :: consumer where
  "new_consumer = \<lparr>pending = []\<rparr>"

text \<open>
  The constructors of \<open>ValueEntry\<close>.  The one for strings computes the deadline, which
  panics (\<open>None\<close>) when the instant overflows.
\<close>

definition new_string :: "instant \<Rightarrow> bytes \<Rightarrow> duration option \<Rightarrow> value_entry option" where
  "new_string now v ttl =
     (case ttl of
        None \<Rightarrow> Some \<lparr>vdata = StringV v, expires_at = None\<rparr>
      | Some d \<Rightarrow> map_option (\<lambda>t. \<lparr>vdata = StringV v, expires_at = Some t\<rparr>) (instant_checked_add now d))"

definition new_hash :: value_entry where
  "new_hash = \<lparr>vdata = HashV [], expires_at = None\<rparr>"

definition new_set :: value_entry where
  "new_set = \<lparr>vdata = SetV [], expires_at = None\<rparr>"

definition new_sorted_set :: value_entry where
  "new_sorted_set = \<lparr>vdata = SortedSetV new_sorted_set_value, expires_at = None\<rparr>"

definition new_stream :: value_entry where
  "new_stream = \<lparr>vdata = StreamV new_stream_value, expires_at = None\<rparr>"

definition new_list :: value_entry where
  "new_list = \<lparr>vdata = ListV [], expires_at = None\<rparr>"

definition is_expired :: "instant \<Rightarrow> value_entry \<Rightarrow> bool" where
  "is_expired now e = (case expires_at e of None \<Rightarrow> False | Some t \<Rightarrow> t \<le> now)"

lemma new_entries_not_expired [simp]:
  "\<not> is_expired now new_hash" "\<not> is_expired now new_set" "\<not> is_expired now new_sorted_set"
  "\<not> is_expired now new_stream" "\<not> is_expired now new_list"
  by (simp_all add: is_expired_def new_hash_def new_set_def new_sorted_set_def new_stream_def new_list_def)

lemma new_entries_data [simp]:
  "vdata new_hash = HashV []" "vdata new_set = SetV []"
  "vdata new_sorted_set = SortedSetV new_sorted_set_value"
  "vdata new_stream = StreamV new_stream_value" "vdata new_list = ListV []"
  by (simp_all add: new_hash_def new_set_def new_sorted_set_def new_stream_def new_list_def)

lemma new_entries_persist [simp]:
  "expires_at new_hash = None" "expires_at new_set = None" "expires_at new_sorted_set = None"
  "expires_at new_stream = None" "expires_at new_list = None"
  by (simp_all add: new_hash_def new_set_def new_sorted_set_def new_stream_def new_list_def)

lemma is_expired_mono: "is_expired now e \<Longrightarrow> now \<le> later \<Longrightarrow> is_expired later e"
  by (auto simp: is_expired_def split: option.splits)

lemma is_expired_update [simp]: "is_expired now (e\<lparr>vdata := d\<rparr>) = is_expired now e"
  by (simp add: is_expired_def)

section \<open>Arguments of the list commands\<close>

datatype list_end = LeftEnd | RightEnd

datatype insert_position = Before | After

datatype lrem_direction = HeadDir nat | TailDir nat | AllDir

definition parse_list_end :: "string \<Rightarrow> store_error + list_end" where
  "parse_list_end s =
     (if to_ascii_uppercase s = ''LEFT'' then Inr LeftEnd
      else if to_ascii_uppercase s = ''RIGHT'' then Inr RightEnd
      else Inl (SyntaxErr (''ERR syntax error: expected LEFT or RIGHT, got '' @ s)))"

definition parse_linsert_where :: "string \<Rightarrow> store_error + insert_position" where
  "parse_linsert_where s =
     (if to_ascii_uppercase s = ''BEFORE'' then Inr Before
      else if to_ascii_uppercase s = ''AFTER'' then Inr After
      else Inl (SyntaxErr (''ERR syntax error: expected BEFORE or AFTER, got '' @ s)))"

definition parse_lrem_count :: "i64 \<Rightarrow> lrem_direction" where
  "parse_lrem_count n = (if n > 0 then HeadDir (nat n) else if n < 0 then TailDir (nat (- n)) else AllDir)"

text \<open>The inclusive range of LRANGE and LTRIM as concrete bounds; \<open>None\<close> is empty.\<close>

definition normalize_range_indices :: "i64 \<Rightarrow> i64 \<Rightarrow> usize \<Rightarrow> (usize \<times> usize) option" where
  "normalize_range_indices start stop len =
     (if len = 0 then None
      else
        let n = int len;
            start1 = (if start < 0 then max (start + n) 0 else start);
            end1 = (if stop < 0 then stop + n else min stop (n - 1))
        in if start1 \<ge> n \<or> end1 < 0 \<or> start1 > end1 then None
           else Some (nat start1, nat end1))"

text \<open>Redis's reading of an index into a list of length \<open>n\<close>: negative counts from the end.\<close>

definition redis_index :: "nat \<Rightarrow> int \<Rightarrow> int" where
  "redis_index n i = (if i < 0 then i + int n else i)"

lemma normalize_range_Some:
  assumes "normalize_range_indices start stop len = Some (s, e)"
  shows "s \<le> e" and "e < len"
  using assms by (auto simp: normalize_range_indices_def Let_def split: if_splits)

lemma normalize_range_mem:
  "(case normalize_range_indices start stop len of
      None \<Rightarrow> False
    | Some (s, e) \<Rightarrow> s \<le> i \<and> i \<le> e) \<longleftrightarrow>
   i < len \<and> redis_index len start \<le> int i \<and> int i \<le> redis_index len stop"
  by (auto simp: normalize_range_indices_def redis_index_def Let_def)

text \<open>A valid index denotes one position; anything else is out of range.\<close>

definition list_position :: "nat \<Rightarrow> int \<Rightarrow> nat option" where
  "list_position n i =
     (let actual = (if i < 0 then i + int n else i)
      in if actual < 0 \<or> actual \<ge> int n then None else Some (nat actual))"

lemma list_position_Some: "list_position n i = Some k \<longleftrightarrow> k < n \<and> redis_index n i = int k"
  by (auto simp: list_position_def redis_index_def Let_def)

text \<open>The elements of a list that an inclusive pair of indexes selects, as Redis documents it.\<close>

definition index_range :: "'a list \<Rightarrow> int \<Rightarrow> int \<Rightarrow> 'a list" where
  "index_range xs start stop =
     nths xs {i. redis_index (length xs) start \<le> int i \<and> int i \<le> redis_index (length xs) stop}"

lemma nths_interval: "nths xs {i. a \<le> i \<and> i \<le> b} = take (Suc b - a) (drop a xs)"
proof (induction xs arbitrary: a b)
  case Nil
  then show ?case by simp
next
  case (Cons x xs)
  show ?case
  proof (cases a)
    case 0
    have "{j. Suc j \<le> b} = {j. (0 :: nat) \<le> j \<and> j < b}" by auto
    with 0 Cons [of 0 "b - 1"] show ?thesis
      by (cases b) (auto simp: nths_Cons less_Suc_eq_le)
  next
    case (Suc n)
    then have "{j. a \<le> Suc j \<and> Suc j \<le> b} = {j. n \<le> j \<and> Suc j \<le> b}" by auto
    with Suc Cons [of n "b - 1"] show ?thesis
      by (cases b) (auto simp: nths_Cons)
  qed
qed

lemma nths_outside: "(\<And>i. i < length xs \<Longrightarrow> i \<notin> A) \<Longrightarrow> nths xs A = []"
  by (induction xs arbitrary: A) (auto simp: nths_Cons)

lemma nths_cong_below: "(\<And>i. i < length xs \<Longrightarrow> i \<in> A \<longleftrightarrow> i \<in> B) \<Longrightarrow> nths xs A = nths xs B"
proof (induction xs arbitrary: A B)
  case (Cons x xs)
  have "nths xs {j. Suc j \<in> A} = nths xs {j. Suc j \<in> B}"
    using Cons.prems by (intro Cons.IH) auto
  moreover have "0 \<in> A \<longleftrightarrow> 0 \<in> B"
    using Cons.prems [of 0] by simp
  ultimately show ?case by (simp add: nths_Cons)
qed simp

lemma normalize_range_slice:
  "(case normalize_range_indices start stop (length xs) of
      None \<Rightarrow> []
    | Some (s, e) \<Rightarrow> take (Suc e - s) (drop s xs)) = index_range xs start stop"
proof (cases "normalize_range_indices start stop (length xs)")
  case None
  with normalize_range_mem [where start = start and stop = stop and len = "length xs"] show ?thesis
    by (simp add: index_range_def nths_outside)
next
  case (Some p)
  obtain s e where p: "p = (s, e)" by force
  have "nths xs {i. s \<le> i \<and> i \<le> e} = index_range xs start stop"
    unfolding index_range_def
    using Some p normalize_range_mem [where start = start and stop = stop and len = "length xs"] by (intro nths_cong_below) auto
  with Some p show ?thesis by (simp add: nths_interval)
qed

end
