(* ===== verification/Sorted_Sets.thy ===== *)
theory Sorted_Sets
  imports Store_Types
begin

text \<open>
  \<open>SortedSet\<close> of \<^verbatim>\<open>src/src/store.rs\<close>: the dual index (an ordered map by score and
  member, a hash map by member), the agreement of the two indexes, and the loops and range
  scans the sorted-set commands run on it.
\<close>

section \<open>The two indexes\<close>

definition zs_len :: "sorted_set \<Rightarrow> usize" where
  "zs_len z = length (by_member z)"

definition zs_insert :: "bytes \<Rightarrow> f64 \<Rightarrow> sorted_set \<Rightarrow> bool \<times> sorted_set" where
  "zs_insert member score z =
     (case hm_get (by_member z) member of
        Some old_score \<Rightarrow>
          (False,
           z\<lparr>by_score := bt_insert score_key (score, member) ()
                           (bt_remove score_key (old_score, member) (by_score z)),
             by_member := hm_insert member score (by_member z)\<rparr>)
      | None \<Rightarrow>
          (True,
           z\<lparr>by_score := bt_insert score_key (score, member) () (by_score z),
             by_member := hm_insert member score (by_member z)\<rparr>))"

definition zs_remove :: "bytes \<Rightarrow> sorted_set \<Rightarrow> bool \<times> sorted_set" where
  "zs_remove member z =
     (case hm_get (by_member z) member of
        Some score \<Rightarrow>
          (True,
           z\<lparr>by_member := hm_remove member (by_member z),
             by_score := bt_remove score_key (score, member) (by_score z)\<rparr>)
      | None \<Rightarrow> (False, z))"

text \<open>The members with their scores in index order, and the score map.\<close>

definition zs_list :: "sorted_set \<Rightarrow> (f64 \<times> bytes) list" where
  "zs_list z = map fst (by_score z)"

definition zs_score :: "sorted_set \<Rightarrow> bytes \<Rightarrow> f64 option" where
  "zs_score z = hm_get (by_member z)"

definition zs_wf :: "sorted_set \<Rightarrow> bool" where
  "zs_wf z \<longleftrightarrow>
     hm_wf (by_member z) \<and> bt_wf score_key (by_score z) \<and>
     (\<forall>s m. (s, m) \<in> set (zs_list z) \<longleftrightarrow> hm_get (by_member z) m = Some s)"

lemma zs_wf_new [simp, wf_intros]: "zs_wf new_sorted_set_value"
  by (simp add: zs_wf_def new_sorted_set_value_def zs_list_def)

lemma score_key_inj_member: "score_key p = score_key q \<Longrightarrow> snd p = snd q"
  by (simp add: score_key_def)

lemma set_zs_list: "(s, m) \<in> set (zs_list z) \<longleftrightarrow> ((s, m), ()) \<in> set (by_score z)"
  by (force simp: zs_list_def)

lemma zs_list_remove:
  assumes "zs_wf z" and "hm_get (by_member z) member = Some old"
  shows "set (map fst (bt_remove score_key (old, member) (by_score z))) =
    {(s, m). (s, m) \<in> set (zs_list z) \<and> m \<noteq> member}"
proof -
  have "score_key (s, m) \<noteq> score_key (old, member) \<longleftrightarrow> m \<noteq> member"
    if "((s, m), u) \<in> set (by_score z)" for s m u
  proof
    assume "score_key (s, m) \<noteq> score_key (old, member)"
    moreover have "hm_get (by_member z) m = Some s"
      using assms(1) that by (force simp: zs_wf_def zs_list_def)
    ultimately show "m \<noteq> member" using assms(2) by auto
  qed (auto simp: score_key_def)
  then show ?thesis
    by (force simp: set_bt_remove zs_list_def)
qed

lemma zs_fresh_key:
  assumes "\<forall>(s, m) \<in> set (map fst b). m \<noteq> member"
  shows "set (map fst (bt_insert score_key (score, member) () b)) = insert (score, member) (set (map fst b))"
proof -
  have "score_key (score, member) \<notin> (\<lambda>p. score_key (fst p)) ` set b"
    using assms by (force simp: score_key_def)
  then have "set (bt_insert score_key (score, member) () b) = insert ((score, member), ()) (set b)"
    by (rule set_bt_insert_fresh)
  then show ?thesis by simp
qed

lemma zs_wf_insert [wf_intros]: "zs_wf z \<Longrightarrow> zs_wf (snd (zs_insert member score z))"
proof -
  assume wf: "zs_wf z"
  show ?thesis
  proof (cases "hm_get (by_member z) member")
    case None
    then have "\<forall>(s, m) \<in> set (map fst (by_score z)). m \<noteq> member"
      using wf by (fastforce simp: zs_wf_def zs_list_def)
    from zs_fresh_key [OF this] wf None show ?thesis
      by (auto simp: zs_wf_def zs_insert_def zs_list_def)
  next
    case (Some old)
    let ?b = "bt_remove score_key (old, member) (by_score z)"
    have rem: "set (map fst ?b) = {(s, m). (s, m) \<in> set (zs_list z) \<and> m \<noteq> member}"
      using wf Some by (rule zs_list_remove)
    then have "\<forall>(s, m) \<in> set (map fst ?b). m \<noteq> member" by auto
    from zs_fresh_key [OF this] rem
    have set: "set (map fst (bt_insert score_key (score, member) () ?b)) =
        insert (score, member) {(s, m). (s, m) \<in> set (zs_list z) \<and> m \<noteq> member}"
      by simp
    have "bt_wf score_key (bt_insert score_key (score, member) () ?b)"
      using wf by (simp add: zs_wf_def)
    with set Some wf show ?thesis
      by (auto simp: zs_wf_def zs_insert_def zs_list_def)
  qed
qed

lemma zs_wf_remove [wf_intros]: "zs_wf z \<Longrightarrow> zs_wf (snd (zs_remove member z))"
proof -
  assume wf: "zs_wf z"
  show ?thesis
  proof (cases "hm_get (by_member z) member")
    case None
    with wf show ?thesis by (simp add: zs_remove_def)
  next
    case (Some old)
    from zs_list_remove [OF wf Some] wf Some show ?thesis
      by (auto simp: zs_wf_def zs_remove_def zs_list_def)
  qed
qed

lemma zs_score_insert [simp, map_simps]:
  "zs_score (snd (zs_insert member score z)) = (zs_score z)(member \<mapsto> score)"
  by (auto simp: zs_score_def zs_insert_def fun_eq_iff split: option.splits)

lemma zs_score_remove [simp, map_simps]:
  "zs_score (snd (zs_remove member z)) = (zs_score z)(member := None)"
  by (auto simp: zs_score_def zs_remove_def fun_eq_iff split: option.splits)

lemma fst_zs_insert: "fst (zs_insert member score z) \<longleftrightarrow> zs_score z member = None"
  by (auto simp: zs_score_def zs_insert_def split: option.splits)

lemma fst_zs_remove: "fst (zs_remove member z) \<longleftrightarrow> zs_score z member \<noteq> None"
  by (auto simp: zs_score_def zs_remove_def split: option.splits)

lemma zs_list_iff: "zs_wf z \<Longrightarrow> (s, m) \<in> set (zs_list z) \<longleftrightarrow> zs_score z m = Some s"
  by (simp add: zs_wf_def zs_score_def)

lemma zs_list_sorted: "zs_wf z \<Longrightarrow> sorted_wrt (\<lambda>p q. score_key p < score_key q) (zs_list z)"
  by (simp add: zs_wf_def bt_wf_def zs_list_def sorted_wrt_map)

lemma zs_list_members_distinct: "zs_wf z \<Longrightarrow> distinct (map snd (zs_list z))"
proof -
  assume wf: "zs_wf z"
  have "sorted_wrt (<) (map score_key (zs_list z))"
    using zs_list_sorted [OF wf] by (simp add: sorted_wrt_map)
  then have "distinct (zs_list z)"
    using strict_sorted_iff distinct_map by blast
  moreover have "inj_on snd (set (zs_list z))"
    using wf by (auto simp: inj_on_def zs_list_iff)
  ultimately show ?thesis by (simp add: distinct_map)
qed

lemma finite_dom_zs: "zs_wf z \<Longrightarrow> finite (dom (zs_score z))"
  by (simp add: zs_score_def zs_wf_def hm.finite_dom)

lemma card_dom_zs: "zs_wf z \<Longrightarrow> card (dom (zs_score z)) = zs_len z"
  by (simp add: zs_score_def zs_wf_def hm.card_dom zs_len_def)

lemma zs_list_members: "zs_wf z \<Longrightarrow> set (map snd (zs_list z)) = dom (zs_score z)"
proof (rule set_eqI)
  fix m
  assume wf: "zs_wf z"
  have "m \<in> set (map snd (zs_list z)) \<longleftrightarrow> (\<exists>s. (s, m) \<in> set (zs_list z))" by force
  then show "m \<in> set (map snd (zs_list z)) \<longleftrightarrow> m \<in> dom (zs_score z)"
    using zs_list_iff [OF wf] by auto
qed

lemma zs_len_list: "zs_wf z \<Longrightarrow> zs_len z = length (zs_list z)"
proof -
  assume wf: "zs_wf z"
  have "length (zs_list z) = card (set (map snd (zs_list z)))"
    using distinct_card [OF zs_list_members_distinct [OF wf]] by simp
  also have "\<dots> = zs_len z"
    using wf by (simp only: zs_list_members card_dom_zs)
  finally show ?thesis by simp
qed

lemma zs_len_0: "zs_len z = 0 \<longleftrightarrow> by_member z = []"
  by (simp add: zs_len_def)

lemma zs_empty_score: "zs_wf z \<Longrightarrow> zs_len z = 0 \<longleftrightarrow> zs_score z = Map.empty"
  using card_dom_zs [of z] finite_dom_zs [of z] by auto

text \<open>Two well-formed sets with the same scores list their members in the same order.\<close>

lemma zs_list_determined:
  assumes "zs_wf y" and "zs_wf z" and "zs_score y = zs_score z"
  shows "zs_list y = zs_list z"
proof -
  have set: "set (zs_list y) = set (zs_list z)"
    using assms zs_list_iff by (metis (no_types, lifting) subrelI subset_antisym)
  have "map score_key (zs_list y) = map score_key (zs_list z)"
    using assms(1,2) set
    by (intro strict_sorted_equal) (auto dest: zs_list_sorted simp: sorted_wrt_map)
  moreover have "inj_on score_key (set (zs_list z))"
    using assms(2) by (auto simp: inj_on_def zs_list_iff dest!: score_key_inj_member)
  ultimately show ?thesis
    using set by (simp add: inj_on_map_eq_map)
qed

section \<open>Ranges by score\<close>

text \<open>
  The scan of ZRANGEBYSCORE, ZRANGESTORE, ZREMRANGEBYSCORE and ZCOUNT: from the least key
  with the lower score on, while the score is at most the upper bound.
\<close>

definition zs_scan :: "f64 \<Rightarrow> f64 \<Rightarrow> sorted_set \<Rightarrow> (f64 \<times> bytes) list" where
  "zs_scan lo hi z =
     map fst (takeWhile (\<lambda>p. f64_le (fst (fst p)) hi) (bt_from score_key (of_rank lo, []) (by_score z)))"

definition in_score_range :: "f64 \<Rightarrow> f64 \<Rightarrow> f64 \<Rightarrow> bool" where
  "in_score_range lo hi s \<longleftrightarrow> f64_le lo s \<and> f64_le s hi"

lemma score_range_key:
  "(of_rank lo, []) \<le> score_key (s, m) \<and> f64_le s hi \<longleftrightarrow> in_score_range lo hi s"
proof -
  have "(of_rank lo, []) \<le> score_key (s, m) \<longleftrightarrow> of_rank lo \<le> of_rank s"
    by (auto simp: score_key_def less_eq_prod_def)
  moreover have "f64_le s hi \<Longrightarrow> \<not> f64_nan s"
    by (simp add: f64_le_def)
  ultimately show ?thesis
    unfolding in_score_range_def f64_le_rank [of lo s] by blast
qed

lemma zs_scan_filter:
  assumes "zs_wf z"
  shows "zs_scan lo hi z = filter (\<lambda>p. in_score_range lo hi (fst p)) (zs_list z)"
proof -
  let ?P = "\<lambda>p :: (f64 \<times> bytes) \<times> unit. f64_le (fst (fst p)) hi"
  have "sorted_wrt (\<lambda>p q. score_key (fst p) < score_key (fst q)) (bt_from score_key (of_rank lo, []) (by_score z))"
    using assms by (simp add: zs_wf_def bt_wf_def bt_from_def sorted_wrt_map sorted_wrt_filter)
  moreover have "?P p" if "score_key (fst p) < score_key (fst q)" "?P q" for p q
    using that by (auto simp: score_key_def f64_le_rank less_prod_def)
  ultimately have "takeWhile ?P (bt_from score_key (of_rank lo, []) (by_score z)) =
      filter ?P (bt_from score_key (of_rank lo, []) (by_score z))"
    by (rule filter_eq_takeWhile_sorted)
  also have "\<dots> = filter (\<lambda>p. in_score_range lo hi (fst (fst p))) (by_score z)"
    using score_range_key by (force simp: bt_from_def intro!: filter_cong)
  finally show ?thesis
    by (simp add: zs_scan_def zs_list_def filter_map comp_def)
qed

section \<open>The loops of the commands\<close>

text \<open>Removing members one by one.\<close>

interpretation zrem_loop: removing_loop zs_remove "\<lambda>z. dom (zs_score z)" zs_wf
  by unfold_locales
     (auto simp: fst_zs_remove wf_intros finite_dom_zs split: if_splits)

text \<open>
  ZADD's loop body.  The state is the pair of counters (new members, changed members) and
  the set.
\<close>

definition zadd_step :: "bool \<Rightarrow> bool \<Rightarrow> bool \<Rightarrow> bool \<Rightarrow> f64 \<times> bytes \<Rightarrow>
    int \<times> int \<times> sorted_set \<Rightarrow> int \<times> int \<times> sorted_set" where
  "zadd_step nx xx gt lt p st =
     (case p of (score, member) \<Rightarrow>
      case st of (added, changed, z) \<Rightarrow>
      case hm_get (by_member z) member of
        Some old_score \<Rightarrow>
          if nx then (added, changed, z)
          else if gt \<and> f64_le score old_score then (added, changed, z)
          else if lt \<and> f64_le old_score score then (added, changed, z)
          else if \<not> f64_eq score old_score then (added, changed + 1, snd (zs_insert member score z))
          else (added, changed, z)
      | None \<Rightarrow>
          if xx then (added, changed, z)
          else (added + 1, changed + 1, snd (zs_insert member score z)))"

definition zadd_loop :: "bool \<Rightarrow> bool \<Rightarrow> bool \<Rightarrow> bool \<Rightarrow> (f64 \<times> bytes) list \<Rightarrow> sorted_set \<Rightarrow>
    int \<times> int \<times> sorted_set" where
  "zadd_loop nx xx gt lt members z = fold (zadd_step nx xx gt lt) members (0, 0, z)"

text \<open>What one pair does to the score map, as Redis documents the flags.\<close>

definition zadd_score :: "bool \<Rightarrow> bool \<Rightarrow> bool \<Rightarrow> bool \<Rightarrow> f64 \<Rightarrow> f64 option \<Rightarrow> f64 option" where
  "zadd_score nx xx gt lt score old =
     (case old of
        None \<Rightarrow> if xx then None else Some score
      | Some o1 \<Rightarrow>
          if nx \<or> (gt \<and> f64_le score o1) \<or> (lt \<and> f64_le o1 score) \<or> f64_eq score o1 then Some o1
          else Some score)"

definition zadd_map :: "bool \<Rightarrow> bool \<Rightarrow> bool \<Rightarrow> bool \<Rightarrow> f64 \<times> bytes \<Rightarrow> (bytes \<rightharpoonup> f64) \<Rightarrow> (bytes \<rightharpoonup> f64)" where
  "zadd_map nx xx gt lt p sc = sc(snd p := zadd_score nx xx gt lt (fst p) (sc (snd p)))"

lemma zadd_step_refines:
  "zs_score (snd (snd (zadd_step nx xx gt lt p st))) = zadd_map nx xx gt lt p (zs_score (snd (snd st)))"
  by (cases p; cases st)
     (auto simp: zadd_step_def zadd_map_def zadd_score_def zs_score_def [symmetric] fun_upd_idem
       split: option.splits)

lemma zadd_step_wf [wf_intros]: "zs_wf (snd (snd st)) \<Longrightarrow> zs_wf (snd (snd (zadd_step nx xx gt lt p st)))"
  by (cases p; cases st) (auto simp: zadd_step_def wf_intros split: option.splits)

lemma zadd_fold_refines:
  "zs_score (snd (snd (fold (zadd_step nx xx gt lt) ps st))) =
     fold (zadd_map nx xx gt lt) ps (zs_score (snd (snd st)))"
  by (induction ps arbitrary: st) (auto simp: zadd_step_refines)

lemma zadd_fold_wf: "zs_wf (snd (snd st)) \<Longrightarrow> zs_wf (snd (snd (fold (zadd_step nx xx gt lt) ps st)))"
  by (induction ps arbitrary: st) (auto simp: wf_intros)

lemma zadd_loop_refines:
  "zs_score (snd (snd (zadd_loop nx xx gt lt ps z))) = fold (zadd_map nx xx gt lt) ps (zs_score z)"
  by (simp add: zadd_loop_def zadd_fold_refines)

lemma zadd_loop_wf [wf_intros]: "zs_wf z \<Longrightarrow> zs_wf (snd (snd (zadd_loop nx xx gt lt ps z)))"
  by (simp add: zadd_loop_def zadd_fold_wf)

text \<open>The counter of new members is the growth of the set.\<close>

lemma zadd_step_added:
  assumes "zs_wf (snd (snd st))"
  shows "fst (zadd_step nx xx gt lt p st) - fst st =
    int (card (dom (zs_score (snd (snd (zadd_step nx xx gt lt p st)))))) - int (card (dom (zs_score (snd (snd st)))))"
proof -
  have fin: "finite (dom (zs_score (snd (snd st))))"
    using assms by (rule finite_dom_zs)
  then show ?thesis
    by (cases p; cases st)
       (auto simp: zadd_step_def zs_score_def [symmetric] card_insert_if domIff insert_absorb
         split: option.splits)
qed

lemma zadd_fold_added:
  assumes "zs_wf (snd (snd st))"
  shows "fst (fold (zadd_step nx xx gt lt) ps st) - fst st =
    int (card (dom (zs_score (snd (snd (fold (zadd_step nx xx gt lt) ps st)))))) - int (card (dom (zs_score (snd (snd st)))))"
  using assms
proof (induction ps arbitrary: st)
  case Nil
  then show ?case by simp
next
  case (Cons p ps)
  from Cons.IH [of "zadd_step nx xx gt lt p st"] Cons.prems zadd_step_added [of st nx xx gt lt p]
  show ?case by (simp add: zadd_step_wf)
qed

lemma zadd_loop_added:
  "zs_wf z \<Longrightarrow> fst (zadd_loop nx xx gt lt ps z) =
     int (zs_len (snd (snd (zadd_loop nx xx gt lt ps z)))) - int (zs_len z)"
  using zadd_fold_added [of "(0, 0, z)" nx xx gt lt ps] zadd_fold_wf [of "(0, 0, z)" nx xx gt lt ps]
  by (simp add: zadd_loop_def card_dom_zs)

lemma zadd_step_changed_mono:
  "fst st \<le> fst (snd st) \<Longrightarrow> fst (zadd_step nx xx gt lt p st) \<le> fst (snd (zadd_step nx xx gt lt p st))"
  by (cases p; cases st) (auto simp: zadd_step_def split: option.splits)

text \<open>Rebuilding a set from its members, as ZRANGESTORE does.\<close>

definition zs_of_list :: "(f64 \<times> bytes) list \<Rightarrow> sorted_set" where
  "zs_of_list ps = fold (\<lambda>(score, member) z. snd (zs_insert member score z)) ps new_sorted_set_value"

lemma zs_of_list_wf [wf_intros]: "zs_wf (zs_of_list ps)"
proof -
  have "zs_wf z \<Longrightarrow> zs_wf (fold (\<lambda>(score, member) z. snd (zs_insert member score z)) ps z)" for z
    by (induction ps arbitrary: z) (auto simp: zs_wf_insert)
  then show ?thesis by (simp add: zs_of_list_def)
qed

lemma zs_score_of_list:
  assumes "distinct (map snd ps)"
  shows "zs_score (zs_of_list ps) m = map_of (map (\<lambda>(s, m). (m, s)) ps) m"
proof -
  have "zs_score (fold (\<lambda>(score, member) z. snd (zs_insert member score z)) ps z) m =
      (case map_of (map (\<lambda>(s, m). (m, s)) ps) m of Some s \<Rightarrow> Some s | None \<Rightarrow> zs_score z m)" for z
    using assms
  proof (induction ps arbitrary: z)
    case Nil
    then show ?case by simp
  next
    case (Cons p ps)
    obtain s k where p: "p = (s, k)" by force
    have "map_of (map (\<lambda>(s, m). (m, s)) ps) k = None"
      using Cons.prems by (force simp: p map_of_eq_None_iff)
    with Cons show ?case by (auto simp: p split: option.splits)
  qed
  from this [of new_sorted_set_value] show ?thesis
    by (auto simp: zs_of_list_def zs_score_def new_sorted_set_value_def split: option.splits)
qed

end
