(* ===== verification/Keyspace.thy ===== *)
theory Keyspace
  imports Glob Sorted_Sets
begin

text \<open>
  The keyspace of \<^verbatim>\<open>src/src/store.rs\<close>: the map behind \<open>Store.data\<close>, lazy expiry, the
  three access patterns the commands share, the live view a client can observe, and the
  commands on keys and strings.

  Every command holds the lock of the map from its first clock reading to its last, and one
  reading \<open>now\<close> stands for all of them, except in GET and TTL, where the code's two
  readings are two arguments.
\<close>

section \<open>State, expiry and access patterns\<close>

type_synonym keyspace = "(bytes, value_entry) hashmap"

type_synonym 'r result = "store_error + 'r"

text \<open>Passive expiration: an expired entry under the key is removed.\<close>

definition expire_key :: "instant \<Rightarrow> bytes \<Rightarrow> keyspace \<Rightarrow> keyspace" where
  "expire_key now key ks =
     (case hm_get ks key of
        Some e \<Rightarrow> if is_expired now e then hm_remove key ks else ks
      | None \<Rightarrow> ks)"

text \<open>
  The reading commands: an expired entry is removed and counts as missing; a missing key
  gives the default; otherwise the value decides.
\<close>

definition read_key :: "instant \<Rightarrow> bytes \<Rightarrow> 'r \<Rightarrow> (value_data \<Rightarrow> 'r) \<Rightarrow> keyspace \<Rightarrow> 'r \<times> keyspace" where
  "read_key now key dflt f ks =
     (case hm_get ks key of
        None \<Rightarrow> (dflt, ks)
      | Some e \<Rightarrow> if is_expired now e then (dflt, hm_remove key ks) else (f (vdata e), ks))"

text \<open>The updating commands: the same, with the value changed in place (\<open>get_mut\<close>).\<close>

definition update_key :: "instant \<Rightarrow> bytes \<Rightarrow> 'r \<Rightarrow> (value_data \<Rightarrow> 'r \<times> value_data) \<Rightarrow> keyspace \<Rightarrow>
    'r \<times> keyspace" where
  "update_key now key dflt f ks =
     (case hm_get ks key of
        None \<Rightarrow> (dflt, ks)
      | Some e \<Rightarrow>
          if is_expired now e then (dflt, hm_remove key ks)
          else (let (r, d) = f (vdata e) in (r, hm_insert key (e\<lparr>vdata := d\<rparr>) ks)))"

text \<open>The creating commands: \<open>entry(key).or_insert_with(mk)\<close>, then change in place.\<close>

definition create_key :: "instant \<Rightarrow> bytes \<Rightarrow> value_entry \<Rightarrow> (value_data \<Rightarrow> 'r \<times> value_data) \<Rightarrow> keyspace \<Rightarrow>
    'r \<times> keyspace" where
  "create_key now key mk f ks =
     (let ks1 = expire_key now key ks;
          e = (case hm_get ks1 key of Some e \<Rightarrow> e | None \<Rightarrow> mk);
          (r, d) = f (vdata e)
      in (r, hm_insert key (e\<lparr>vdata := d\<rparr>) ks1))"

fun value_empty :: "value_data \<Rightarrow> bool" where
  "value_empty (HashV m) = (m = [])"
| "value_empty (SetV s) = (s = [])"
| "value_empty (SortedSetV z) = (zs_len z = 0)"
| "value_empty (ListV xs) = (xs = [])"
| "value_empty _ = False"

definition remove_if_empty :: "bytes \<Rightarrow> keyspace \<Rightarrow> keyspace" where
  "remove_if_empty key ks =
     (case hm_get ks key of
        Some e \<Rightarrow> if value_empty (vdata e) then hm_remove key ks else ks
      | None \<Rightarrow> ks)"

text \<open>
  The type check: the value as the command's kind, or WRONGTYPE.  A kind is given by its
  projection and, for updates, its constructor.
\<close>

definition with_kind :: "(value_data \<Rightarrow> 'v option) \<Rightarrow> ('v \<Rightarrow> 'r result) \<Rightarrow> value_data \<Rightarrow> 'r result" where
  "with_kind proj f d = (case proj d of Some v \<Rightarrow> f v | None \<Rightarrow> Inl WrongType)"

definition modify_kind :: "(value_data \<Rightarrow> 'v option) \<Rightarrow> ('v \<Rightarrow> value_data) \<Rightarrow> ('v \<Rightarrow> 'r result \<times> 'v) \<Rightarrow>
    value_data \<Rightarrow> 'r result \<times> value_data" where
  "modify_kind proj wrap f d =
     (case proj d of
        Some v \<Rightarrow> (let (r, v') = f v in (r, wrap v'))
      | None \<Rightarrow> (Inl WrongType, d))"

fun string_of :: "value_data \<Rightarrow> bytes option" where
  "string_of (StringV v) = Some v" | "string_of _ = None"

fun hash_of :: "value_data \<Rightarrow> (bytes, bytes) hashmap option" where
  "hash_of (HashV m) = Some m" | "hash_of _ = None"

fun set_of :: "value_data \<Rightarrow> bytes hashset option" where
  "set_of (SetV s) = Some s" | "set_of _ = None"

fun zset_of :: "value_data \<Rightarrow> sorted_set option" where
  "zset_of (SortedSetV z) = Some z" | "zset_of _ = None"

fun stream_of :: "value_data \<Rightarrow> stream option" where
  "stream_of (StreamV s) = Some s" | "stream_of _ = None"

fun list_of :: "value_data \<Rightarrow> bytes list option" where
  "list_of (ListV xs) = Some xs" | "list_of _ = None"

section \<open>The live view\<close>

text \<open>
  What a client can observe at time \<open>now\<close>: the entries that have not expired.  The abstract
  keyspace is this partial map; the effect of a command is stated on it.
\<close>

definition live :: "instant \<Rightarrow> keyspace \<Rightarrow> bytes \<Rightarrow> value_entry option" where
  "live now ks key =
     (case hm_get ks key of Some e \<Rightarrow> if is_expired now e then None else Some e | None \<Rightarrow> None)"

text \<open>Storing a value under a key keeps the deadline the key has.\<close>

definition put :: "bytes \<Rightarrow> value_data \<Rightarrow> (bytes \<rightharpoonup> value_entry) \<Rightarrow> (bytes \<rightharpoonup> value_entry)" where
  "put key d view =
     view(key \<mapsto> (case view key of Some e \<Rightarrow> e\<lparr>vdata := d\<rparr> | None \<Rightarrow> \<lparr>vdata = d, expires_at = None\<rparr>))"

text \<open>Storing it unless it is an empty aggregate, which takes the key away.\<close>

definition put_or_drop :: "bytes \<Rightarrow> value_data \<Rightarrow> (bytes \<rightharpoonup> value_entry) \<Rightarrow> (bytes \<rightharpoonup> value_entry)" where
  "put_or_drop key d view = (if value_empty d then view(key := None) else put key d view)"

text \<open>\<open>remove_if_empty\<close> on the view.\<close>

definition drop_empty :: "bytes \<Rightarrow> (bytes \<rightharpoonup> value_entry) \<Rightarrow> (bytes \<rightharpoonup> value_entry)" where
  "drop_empty key view =
     (case view key of
        Some e \<Rightarrow> if value_empty (vdata e) then view(key := None) else view
      | None \<Rightarrow> view)"

text \<open>The typed lookup: missing, the value of the kind, or WRONGTYPE.\<close>

definition kind_at :: "(value_data \<Rightarrow> 'v option) \<Rightarrow> instant \<Rightarrow> keyspace \<Rightarrow> bytes \<Rightarrow> 'v option result" where
  "kind_at proj now ks key =
     (case live now ks key of
        None \<Rightarrow> Inr None
      | Some e \<Rightarrow> (case proj (vdata e) of None \<Rightarrow> Inl WrongType | Some v \<Rightarrow> Inr (Some v)))"

lemma live_Nil [simp]: "live now [] = Map.empty"
  by (simp add: live_def fun_eq_iff)

lemma live_Some: "live now ks key = Some e \<longleftrightarrow> hm_get ks key = Some e \<and> \<not> is_expired now e"
  by (auto simp: live_def split: option.splits)

lemma live_not_expired: "live now ks key = Some e \<Longrightarrow> \<not> is_expired now e"
  by (simp add: live_Some)

lemma live_insert [view_simps]:
  "live now (hm_insert key e ks) = (live now ks)(key := if is_expired now e then None else Some e)"
  by (auto simp: live_def fun_eq_iff)

lemma live_remove [view_simps]: "live now (hm_remove key ks) = (live now ks)(key := None)"
  by (auto simp: live_def fun_eq_iff)

lemma live_remove_expired: "hm_get ks key = Some e \<Longrightarrow> is_expired now e \<Longrightarrow> live now (hm_remove key ks) = live now ks"
  by (auto simp: live_def fun_eq_iff)

lemma live_expire_key [simp, view_simps]: "live now (expire_key now key ks) = live now ks"
  by (auto simp: expire_key_def live_remove_expired split: option.splits)

lemma hm_get_expire_key [simp]: "hm_get (expire_key now key ks) key = live now ks key"
  by (auto simp: expire_key_def live_def split: option.splits)

lemma hm_get_expire_key_other [simp]: "j \<noteq> key \<Longrightarrow> hm_get (expire_key now key ks) j = hm_get ks j"
  by (auto simp: expire_key_def split: option.splits)

lemma put_other [simp]: "j \<noteq> key \<Longrightarrow> put key d view j = view j"
  by (simp add: put_def)

lemma put_or_drop_other [simp]: "j \<noteq> key \<Longrightarrow> put_or_drop key d view j = view j"
  by (simp add: put_or_drop_def)

lemma put_data: "map_option vdata (put key d view key) = Some d"
  by (simp add: put_def split: option.splits)

text \<open>Storing a value never changes the deadline of a key that exists.\<close>

lemma put_deadline: "view key = Some e \<Longrightarrow> put key d view key = Some e' \<Longrightarrow> expires_at e' = expires_at e"
  by (auto simp: put_def)

subsection \<open>The access patterns on the live view\<close>

lemma read_key_view [view_simps]: "live now (snd (read_key now key dflt f ks)) = live now ks"
  by (auto simp: read_key_def live_remove_expired split: option.splits)

lemma read_key_result [view_simps]:
  "fst (read_key now key dflt f ks) = (case live now ks key of None \<Rightarrow> dflt | Some e \<Rightarrow> f (vdata e))"
  by (auto simp: read_key_def live_def split: option.splits)

lemma update_key_result [view_simps]:
  "fst (update_key now key dflt f ks) = (case live now ks key of None \<Rightarrow> dflt | Some e \<Rightarrow> fst (f (vdata e)))"
  by (auto simp: update_key_def live_def split: option.splits prod.splits)

lemma update_key_view [view_simps]:
  "live now (snd (update_key now key dflt f ks)) =
     (case live now ks key of None \<Rightarrow> live now ks | Some e \<Rightarrow> put key (snd (f (vdata e))) (live now ks))"
  by (auto simp: update_key_def live_insert live_remove_expired live_def put_def fun_eq_iff
      split: option.splits prod.splits)

lemma create_key_result [view_simps]:
  "fst (create_key now key mk f ks) =
     fst (f (vdata (case live now ks key of None \<Rightarrow> mk | Some e \<Rightarrow> e)))"
  by (auto simp: create_key_def Let_def split: option.splits prod.splits)

lemma create_key_view [view_simps]:
  "expires_at mk = None \<Longrightarrow>
   live now (snd (create_key now key mk f ks)) =
     put key (snd (f (vdata (case live now ks key of None \<Rightarrow> mk | Some e \<Rightarrow> e)))) (live now ks)"
  by (cases "live now ks key")
     (auto simp: create_key_def Let_def live_insert put_def is_expired_def [of now mk] live_not_expired
       split: prod.splits)

lemma remove_if_empty_view [view_simps]:
  "live now (remove_if_empty key ks) = drop_empty key (live now ks)"
  by (auto simp: remove_if_empty_def drop_empty_def live_def fun_eq_iff split: option.splits)

text \<open>An update that is followed by \<open>remove_if_empty\<close>, as in HDEL, SREM, ZREM and ZADD.\<close>

lemma drop_empty_put: "drop_empty key (put key d view) = put_or_drop key d view"
  by (auto simp: drop_empty_def put_or_drop_def put_def fun_eq_iff split: option.splits)

lemma put_same: "view key = Some e \<Longrightarrow> put key (vdata e) view = view"
  by (auto simp: put_def fun_eq_iff)

lemma drop_empty_None [simp]: "view key = None \<Longrightarrow> drop_empty key view = view"
  by (simp add: drop_empty_def)

section \<open>Kinds of values\<close>

text \<open>
  The interface between the access patterns and a kind of value: the constructor and its
  projection.  The laws of the typed commands are proved once, for any kind.
\<close>

locale value_kind =
  fixes proj :: "value_data \<Rightarrow> 'v option" and wrap :: "'v \<Rightarrow> value_data"
  assumes proj_wrap: "proj (wrap v) = Some v"
    and wrap_proj: "proj d = Some v \<Longrightarrow> d = wrap v"
begin

lemma read_typed:
  "fst (read_key now key (Inr dflt) (with_kind proj f) ks) =
     (case kind_at proj now ks key of Inl e \<Rightarrow> Inl e | Inr None \<Rightarrow> Inr dflt | Inr (Some v) \<Rightarrow> f v)"
  by (auto simp: read_key_result kind_at_def with_kind_def split: option.splits)

lemma update_typed_result:
  "fst (update_key now key (Inr dflt) (modify_kind proj wrap f) ks) =
     (case kind_at proj now ks key of Inl e \<Rightarrow> Inl e | Inr None \<Rightarrow> Inr dflt | Inr (Some v) \<Rightarrow> fst (f v))"
  by (auto simp: update_key_result kind_at_def modify_kind_def split: option.splits prod.splits)

lemma update_typed_view:
  "live now (snd (update_key now key dflt (modify_kind proj wrap f) ks)) =
     (case kind_at proj now ks key of
        Inr (Some v) \<Rightarrow> put key (wrap (snd (f v))) (live now ks)
      | _ \<Rightarrow> live now ks)"
  by (auto simp: update_key_view kind_at_def modify_kind_def put_def fun_eq_iff
      split: option.splits prod.splits)

lemma update_typed_drop_view:
  "live now (remove_if_empty key (snd (update_key now key dflt (modify_kind proj wrap f) ks))) =
     (case kind_at proj now ks key of
        Inl _ \<Rightarrow> drop_empty key (live now ks)
      | Inr None \<Rightarrow> live now ks
      | Inr (Some v) \<Rightarrow> put_or_drop key (wrap (snd (f v))) (live now ks))"
  by (auto simp: remove_if_empty_view update_typed_view drop_empty_put kind_at_def
      split: option.splits)

text \<open>A creating command starts from the initial value when the key is missing.\<close>

lemma create_typed_result:
  "vdata mk = wrap v0 \<Longrightarrow>
   fst (create_key now key mk (modify_kind proj wrap f) ks) =
     (case kind_at proj now ks key of
        Inl e \<Rightarrow> Inl e
      | Inr v \<Rightarrow> fst (f (case v of None \<Rightarrow> v0 | Some v \<Rightarrow> v)))"
  by (auto simp: create_key_result kind_at_def modify_kind_def proj_wrap split: option.splits prod.splits)

lemma create_typed_view:
  "vdata mk = wrap v0 \<Longrightarrow> expires_at mk = None \<Longrightarrow>
   live now (snd (create_key now key mk (modify_kind proj wrap f) ks)) =
     (case kind_at proj now ks key of
        Inl _ \<Rightarrow> live now ks
      | Inr v \<Rightarrow> put key (wrap (snd (f (case v of None \<Rightarrow> v0 | Some v \<Rightarrow> v)))) (live now ks))"
  by (auto simp: create_key_view kind_at_def modify_kind_def proj_wrap put_same
      split: option.splits prod.splits)

lemma create_typed_drop_view:
  "vdata mk = wrap v0 \<Longrightarrow> expires_at mk = None \<Longrightarrow>
   live now (remove_if_empty key (snd (create_key now key mk (modify_kind proj wrap f) ks))) =
     (case kind_at proj now ks key of
        Inl _ \<Rightarrow> drop_empty key (live now ks)
      | Inr v \<Rightarrow> put_or_drop key (wrap (snd (f (case v of None \<Rightarrow> v0 | Some v \<Rightarrow> v)))) (live now ks))"
  by (auto simp: remove_if_empty_view create_typed_view drop_empty_put split: sum.splits)

text \<open>The same key holds one kind only: what is stored is what the kind's lookup returns.\<close>

lemma kind_at_put: "live later ks' = put key (wrap v) (live now ks) \<Longrightarrow> kind_at proj later ks' key = Inr (Some v)"
  by (auto simp: kind_at_def put_def proj_wrap split: option.splits)

lemma kind_at_Some: "kind_at proj now ks key = Inr (Some v) \<longleftrightarrow> (\<exists>e. live now ks key = Some e \<and> vdata e = wrap v)"
  by (auto simp: kind_at_def proj_wrap dest: wrap_proj split: option.splits)

text \<open>A predicate on values that the operation keeps is kept by the typed update.\<close>

lemma modify_keeps:
  assumes "\<And>v. P (wrap v) \<Longrightarrow> P (wrap (snd (f v)))" and "P d"
  shows "P (snd (modify_kind proj wrap f d))"
  using assms wrap_proj by (auto simp: modify_kind_def split: option.splits prod.splits) (metis snd_conv)

end

interpretation string_kind: value_kind string_of StringV
  by unfold_locales (auto elim: string_of.elims)

interpretation hash_kind: value_kind hash_of HashV
  by unfold_locales (auto elim: hash_of.elims)

interpretation set_kind: value_kind set_of SetV
  by unfold_locales (auto elim: set_of.elims)

interpretation zset_kind: value_kind zset_of SortedSetV
  by unfold_locales (auto elim: zset_of.elims)

interpretation stream_kind: value_kind stream_of StreamV
  by unfold_locales (auto elim: stream_of.elims)

interpretation list_kind: value_kind list_of ListV
  by unfold_locales (auto elim: list_of.elims)

section \<open>Predicates on every stored value\<close>

definition ks_all :: "(value_data \<Rightarrow> bool) \<Rightarrow> keyspace \<Rightarrow> bool" where
  "ks_all P ks \<longleftrightarrow> hm_wf ks \<and> (\<forall>key e. hm_get ks key = Some e \<longrightarrow> P (vdata e))"

lemma ks_all_Nil [simp]: "ks_all P []"
  by (simp add: ks_all_def)

lemma ks_all_wf: "ks_all P ks \<Longrightarrow> hm_wf ks"
  by (simp add: ks_all_def)

lemma ks_all_get: "ks_all P ks \<Longrightarrow> hm_get ks key = Some e \<Longrightarrow> P (vdata e)"
  by (simp add: ks_all_def)

lemma ks_all_live: "ks_all P ks \<Longrightarrow> live now ks key = Some e \<Longrightarrow> P (vdata e)"
  by (auto simp: live_Some intro: ks_all_get)

lemma ks_all_insert: "ks_all P ks \<Longrightarrow> P (vdata e) \<Longrightarrow> ks_all P (hm_insert key e ks)"
  by (simp add: ks_all_def)

lemma ks_all_remove [wf_intros]: "ks_all P ks \<Longrightarrow> ks_all P (hm_remove key ks)"
  by (simp add: ks_all_def)

lemma ks_all_expire [wf_intros]: "ks_all P ks \<Longrightarrow> ks_all P (expire_key now key ks)"
  by (auto simp: expire_key_def ks_all_remove split: option.splits)

lemma ks_all_read [wf_intros]: "ks_all P ks \<Longrightarrow> ks_all P (snd (read_key now key dflt f ks))"
  by (auto simp: read_key_def ks_all_remove split: option.splits)

lemma ks_all_update:
  "ks_all P ks \<Longrightarrow> (\<And>d. P d \<Longrightarrow> P (snd (f d))) \<Longrightarrow> ks_all P (snd (update_key now key dflt f ks))"
  by (auto simp: update_key_def ks_all_remove split_beta Let_def intro!: ks_all_insert dest: ks_all_get
      split: option.splits)

lemma ks_all_create:
  "ks_all P ks \<Longrightarrow> P (vdata mk) \<Longrightarrow> (\<And>d. P d \<Longrightarrow> P (snd (f d))) \<Longrightarrow>
   ks_all P (snd (create_key now key mk f ks))"
  by (auto simp: create_key_def split_beta Let_def intro!: ks_all_insert ks_all_expire dest: ks_all_live
      split: option.splits)

lemma ks_all_drop [wf_intros]: "ks_all P ks \<Longrightarrow> ks_all P (remove_if_empty key ks)"
  by (auto simp: remove_if_empty_def ks_all_remove split: option.splits)

text \<open>Structural well-formedness: maps have one value per key, sets one copy per member.\<close>

definition consumer_wf :: "consumer \<Rightarrow> bool" where
  "consumer_wf c \<longleftrightarrow> hm_wf (pending c)"

definition group_wf :: "consumer_group \<Rightarrow> bool" where
  "group_wf g \<longleftrightarrow> hm_wf (consumers g) \<and> (\<forall>(n, c) \<in> set (consumers g). consumer_wf c)"

definition stream_wf :: "stream \<Rightarrow> bool" where
  "stream_wf s \<longleftrightarrow> btree_wf (entries s) \<and> (\<forall>(i, f) \<in> set (entries s). hm_wf f) \<and>
     hm_wf (groups s) \<and> (\<forall>(n, g) \<in> set (groups s). group_wf g)"

fun value_wf :: "value_data \<Rightarrow> bool" where
  "value_wf (StringV v) = True"
| "value_wf (HashV m) = hm_wf m"
| "value_wf (SetV s) = distinct s"
| "value_wf (SortedSetV z) = zs_wf z"
| "value_wf (StreamV s) = stream_wf s"
| "value_wf (ListV xs) = True"

definition ks_wf :: "keyspace \<Rightarrow> bool" where
  "ks_wf ks \<longleftrightarrow> ks_all value_wf ks"

lemma ks_wf_hm: "ks_wf ks \<Longrightarrow> hm_wf ks"
  by (simp add: ks_wf_def ks_all_wf)

lemma kind_at_wf:
  "ks_wf ks \<Longrightarrow> value_kind proj wrap \<Longrightarrow> kind_at proj now ks key = Inr (Some v) \<Longrightarrow> value_wf (wrap v)"
  by (metis ks_wf_def ks_all_live value_kind.kind_at_Some)

lemma ks_wf_read [wf_intros]: "ks_wf ks \<Longrightarrow> ks_wf (snd (read_key now key dflt f ks))"
  by (simp add: ks_wf_def ks_all_read)

lemma ks_wf_drop [wf_intros]: "ks_wf ks \<Longrightarrow> ks_wf (remove_if_empty key ks)"
  by (simp add: ks_wf_def ks_all_drop)

lemma ks_wf_remove [wf_intros]: "ks_wf ks \<Longrightarrow> ks_wf (hm_remove key ks)"
  by (simp add: ks_wf_def ks_all_remove)

lemma ks_wf_insert: "ks_wf ks \<Longrightarrow> value_wf (vdata e) \<Longrightarrow> ks_wf (hm_insert key e ks)"
  by (simp add: ks_wf_def ks_all_insert)

lemma ks_wf_get: "ks_wf ks \<Longrightarrow> hm_get ks key = Some e \<Longrightarrow> value_wf (vdata e)"
  by (auto simp: ks_wf_def intro: ks_all_get)

lemma ks_wf_expire [wf_intros]: "ks_wf ks \<Longrightarrow> ks_wf (expire_key now key ks)"
  by (simp add: ks_wf_def ks_all_expire)

context value_kind begin

lemma ks_wf_update [wf_intros]:
  "(\<And>v. value_wf (wrap v) \<Longrightarrow> value_wf (wrap (snd (f v)))) \<Longrightarrow> ks_wf ks \<Longrightarrow>
   ks_wf (snd (update_key now key dflt (modify_kind proj wrap f) ks))"
  unfolding ks_wf_def by (rule ks_all_update) (auto intro: modify_keeps)

lemma ks_wf_create [wf_intros]:
  "(\<And>v. value_wf (wrap v) \<Longrightarrow> value_wf (wrap (snd (f v)))) \<Longrightarrow> value_wf (vdata mk) \<Longrightarrow> ks_wf ks \<Longrightarrow>
   ks_wf (snd (create_key now key mk (modify_kind proj wrap f) ks))"
  unfolding ks_wf_def by (rule ks_all_create) (auto intro: modify_keeps)

end

section \<open>Commands that see live keys only\<close>

text \<open>
  A command is local to the view when its result and the view it leaves depend on the live
  view alone: whether an expired entry is still in the map makes no difference.
\<close>

definition view_local :: "instant \<Rightarrow> (keyspace \<Rightarrow> 'r \<times> keyspace) \<Rightarrow> bool" where
  "view_local now f \<longleftrightarrow>
     (\<forall>ks1 ks2. live now ks1 = live now ks2 \<longrightarrow>
        fst (f ks1) = fst (f ks2) \<and> live now (snd (f ks1)) = live now (snd (f ks2)))"

named_theorems view_intros \<open>the access patterns are local to the view\<close>

lemma view_local_read [view_intros]: "view_local now (read_key now key dflt f)"
  by (simp add: view_local_def read_key_result read_key_view)

lemma view_local_update [view_intros]: "view_local now (update_key now key dflt f)"
  by (auto simp: view_local_def update_key_result update_key_view split: option.splits)

lemma view_local_create [view_intros]: "expires_at mk = None \<Longrightarrow> view_local now (create_key now key mk f)"
  by (simp add: view_local_def create_key_result create_key_view)

lemma view_local_drop:
  "view_local now f \<Longrightarrow> view_local now (\<lambda>ks. (fst (f ks), remove_if_empty key (snd (f ks))))"
  unfolding view_local_def fst_conv snd_conv remove_if_empty_view by metis

lemma view_localD:
  "view_local now f \<Longrightarrow> live now ks1 = live now ks2 \<Longrightarrow>
   fst (f ks1) = fst (f ks2) \<and> live now (snd (f ks1)) = live now (snd (f ks2))"
  unfolding view_local_def by blast

end
