(* ===== verification/Key_Commands.thy ===== *)
theory Key_Commands
  imports Keyspace
begin

text \<open>
  The commands of \<^verbatim>\<open>src/src/store.rs\<close> on keys and strings: GET, SET, MGET, DEL,
  EXISTS, KEYS, TTL, EXPIRE and the sweep of the background task.
\<close>

section \<open>The commands\<close>

text \<open>
  GET looks the key up under the read lock; when the entry has expired it drops that lock,
  takes the write lock and looks again.  Another thread may run in between, so the two
  phases are two functions, with a clock reading each.
\<close>

definition get_peek :: "instant \<Rightarrow> bytes \<Rightarrow> keyspace \<Rightarrow> bytes option result option" where
  "get_peek now key ks =
     (case hm_get ks key of
        None \<Rightarrow> Some (Inr None)
      | Some e \<Rightarrow>
          if \<not> is_expired now e then
            (case vdata e of StringV v \<Rightarrow> Some (Inr (Some v)) | _ \<Rightarrow> Some (Inl WrongType))
          else None)"

definition get_evict :: "instant \<Rightarrow> bytes \<Rightarrow> keyspace \<Rightarrow> bytes option result \<times> keyspace" where
  "get_evict now key ks =
     (case hm_get ks key of
        Some e \<Rightarrow> if is_expired now e then (Inr None, hm_remove key ks) else (Inr None, ks)
      | None \<Rightarrow> (Inr None, ks))"

definition get_cmd :: "instant \<Rightarrow> instant \<Rightarrow> bytes \<Rightarrow> keyspace \<Rightarrow> bytes option result \<times> keyspace" where
  "get_cmd now1 now2 key ks =
     (case get_peek now1 key ks of Some r \<Rightarrow> (r, ks) | None \<Rightarrow> get_evict now2 key ks)"

text \<open>SET; \<open>None\<close> is the panic of a deadline that overflows, which leaves the map as it was.\<close>

definition set_cmd :: "instant \<Rightarrow> bytes \<Rightarrow> bytes \<Rightarrow> duration option \<Rightarrow> bool \<Rightarrow> bool \<Rightarrow> keyspace \<Rightarrow>
    (bool \<times> keyspace) option" where
  "set_cmd now key v ttl nx xx ks =
     (let key_exists = (case hm_get ks key of Some e \<Rightarrow> \<not> is_expired now e | None \<Rightarrow> False)
      in if nx \<and> key_exists then Some (False, ks)
         else if xx \<and> \<not> key_exists then Some (False, ks)
         else (case new_string now v ttl of
                 None \<Rightarrow> None
               | Some e \<Rightarrow> Some (True, hm_insert key e ks)))"

definition delete_step :: "instant \<Rightarrow> bytes \<Rightarrow> keyspace \<Rightarrow> bool \<times> keyspace" where
  "delete_step now key ks =
     ((case hm_get ks key of Some e \<Rightarrow> \<not> is_expired now e | None \<Rightarrow> False), hm_remove key ks)"

definition delete_cmd :: "instant \<Rightarrow> bytes list \<Rightarrow> keyspace \<Rightarrow> i64 \<times> keyspace" where
  "delete_cmd now keys ks = count_loop (delete_step now) keys ks"

definition exists_step :: "instant \<Rightarrow> bytes \<Rightarrow> keyspace \<Rightarrow> bool \<times> keyspace" where
  "exists_step now key ks =
     ((case hm_get ks key of Some e \<Rightarrow> \<not> is_expired now e | None \<Rightarrow> False), ks)"

definition exists_cmd :: "instant \<Rightarrow> bytes list \<Rightarrow> keyspace \<Rightarrow> i64" where
  "exists_cmd now keys ks = fst (count_loop (exists_step now) keys ks)"

definition keys_cmd :: "instant \<Rightarrow> bytes \<Rightarrow> keyspace \<Rightarrow> bytes list" where
  "keys_cmd now pattern ks =
     map fst (filter (\<lambda>(key, e). \<not> is_expired now e \<and> glob_match pattern key) ks)"

text \<open>TTL reads the clock for the expiry test and again for the remaining time.\<close>

definition ttl_cmd :: "instant \<Rightarrow> instant \<Rightarrow> bytes \<Rightarrow> keyspace \<Rightarrow> i64 \<times> keyspace" where
  "ttl_cmd now1 now2 key ks =
     (case hm_get ks key of
        None \<Rightarrow> (- 2, ks)
      | Some e \<Rightarrow>
          if is_expired now1 e then (- 2, hm_remove key ks)
          else (case expires_at e of
                  None \<Rightarrow> (- 1, ks)
                | Some t \<Rightarrow>
                    (case checked_duration_since t now2 of
                       Some remaining \<Rightarrow> (int (as_secs remaining), ks)
                     | None \<Rightarrow> (- 2, hm_remove key ks))))"

definition mget_cmd :: "instant \<Rightarrow> bytes list \<Rightarrow> keyspace \<Rightarrow> bytes option list" where
  "mget_cmd now keys ks =
     map (\<lambda>key. case hm_get ks key of
                  Some e \<Rightarrow>
                    if \<not> is_expired now e
                    then (case vdata e of StringV v \<Rightarrow> Some v | _ \<Rightarrow> None) else None
                | None \<Rightarrow> None) keys"

text \<open>EXPIRE; \<open>None\<close> is the panic of a deadline that overflows.\<close>

definition expire_cmd :: "instant \<Rightarrow> bytes \<Rightarrow> i64 \<Rightarrow> keyspace \<Rightarrow> (bool \<times> keyspace) option" where
  "expire_cmd now key seconds ks =
     (case hm_get ks key of
        Some e \<Rightarrow>
          if is_expired now e then Some (False, hm_remove key ks)
          else if seconds \<le> 0 then Some (True, hm_remove key ks)
          else (case instant_checked_add now (from_secs (nat seconds)) of
                  None \<Rightarrow> None
                | Some t \<Rightarrow> Some (True, hm_insert key (e\<lparr>expires_at := Some t\<rparr>) ks))
      | None \<Rightarrow> Some (False, ks))"

text \<open>The sweep inspects at most twenty entries that have a deadline.\<close>

fun sweep_scan :: "instant \<Rightarrow> nat \<Rightarrow> keyspace \<Rightarrow> bytes list" where
  "sweep_scan now checked [] = []"
| "sweep_scan now checked ((key, e) # rest) =
     (if expires_at e \<noteq> None then
        (let hit = (if is_expired now e then [key] else [])
        in if checked + 1 \<ge> 20 then hit else hit @ sweep_scan now (checked + 1) rest)
      else sweep_scan now checked rest)"

definition sweep_expired :: "instant \<Rightarrow> keyspace \<Rightarrow> usize \<times> keyspace" where
  "sweep_expired now ks =
     (let to_remove = sweep_scan now 0 ks
      in (length to_remove, fold hm_remove to_remove ks))"

section \<open>Loops\<close>

text \<open>DEL takes each key out of the live keys, and counts those that were live.\<close>

interpretation delete_loop: removing_loop "delete_step now" "\<lambda>ks. dom (live now ks)" hm_wf
  for now
proof
  show "hm_wf ks \<Longrightarrow> finite (dom (live now ks))" for ks
    by (rule finite_subset [OF _ hm.finite_dom]) (auto simp: live_Some)
qed (auto simp: delete_step_def live_def live_remove split: option.splits if_splits)

lemma delete_loop_view:
  "live now (snd (count_loop (delete_step now) keys ks)) = (live now ks) |` (- set keys)"
  by (induction keys arbitrary: ks)
     (auto simp: split_beta Let_def delete_step_def live_remove fun_eq_iff restrict_map_def)

lemma exists_loop: "fst (count_loop (exists_step now) keys ks) = int (length (filter (\<lambda>k. live now ks k \<noteq> None) keys))"
proof (induction keys)
  case (Cons k keys)
  have "snd (exists_step now k ks) = ks"
    by (simp add: exists_step_def)
  moreover have "fst (exists_step now k ks) \<longleftrightarrow> live now ks k \<noteq> None"
    by (auto simp: exists_step_def live_def split: option.splits)
  ultimately show ?case
    using Cons by (simp add: split_beta Let_def)
qed simp

lemma sweep_scan_expired:
  "key \<in> set (sweep_scan now n ks) \<Longrightarrow> \<exists>e. (key, e) \<in> set ks \<and> is_expired now e"
  by (induction now n ks rule: sweep_scan.induct) (auto simp: Let_def split: if_splits)

lemma sweep_scan_length: "n < 20 \<Longrightarrow> length (sweep_scan now n ks) + n \<le> 20"
proof (induction now n ks rule: sweep_scan.induct)
  case (2 now n key e rest)
  then show ?case by (cases "n + 1 < 20") (auto simp: Let_def)
qed simp

lemma sweep_scan_distinct: "hm_wf ks \<Longrightarrow> distinct (sweep_scan now n ks)"
proof (induction now n ks rule: sweep_scan.induct)
  case (2 now n key e rest)
  have "key \<notin> set (sweep_scan now m rest)" for m
    using "2.prems" sweep_scan_expired [of key now m rest] by (force simp: hm_wf_def)
  with 2 show ?case by (auto simp: Let_def hm_wf_def)
qed simp

lemma sweep_scan_all:
  "n + length (filter (\<lambda>p. expires_at (snd p) \<noteq> None) ks) \<le> 20 \<Longrightarrow> (key, e) \<in> set ks \<Longrightarrow>
   is_expired now e \<Longrightarrow> key \<in> set (sweep_scan now n ks)"
proof (induction now n ks rule: sweep_scan.induct)
  case (2 now n k e' rest)
  have ne: "expires_at e \<noteq> None"
    using "2.prems"(3) by (auto simp: is_expired_def split: option.splits)
  show ?case
  proof (cases "(key, e) = (k, e')")
    case True
    with 2 ne show ?thesis by (auto simp: Let_def)
  next
    case False
    with "2.prems" have mem: "(key, e) \<in> set rest" by auto
    with ne have "filter (\<lambda>p. expires_at (snd p) \<noteq> None) rest \<noteq> []"
      by (auto simp: filter_empty_conv intro!: bexI [of _ "(key, e)"])
    then have pos: "0 < length (filter (\<lambda>p. expires_at (snd p) \<noteq> None) rest)" by blast
    show ?thesis
    proof (cases "expires_at e' = None")
      case True
      with 2 mem show ?thesis by simp
    next
      case False
      have "length (filter (\<lambda>p. expires_at (snd p) \<noteq> None) ((k, e') # rest)) =
          Suc (length (filter (\<lambda>p. expires_at (snd p) \<noteq> None) rest))"
        using False by simp
      with "2.prems"(1) pos have "n + 1 < 20" by linarith
      with False 2 mem show ?thesis by (auto simp: Let_def)
    qed
  qed
qed simp

lemma hm_get_fold_remove: "hm_get (fold hm_remove keys ks) k = (if k \<in> set keys then None else hm_get ks k)"
  by (induction keys arbitrary: ks) auto

lemma hm_wf_fold_remove: "hm_wf ks \<Longrightarrow> hm_wf (fold hm_remove keys ks)"
  by (induction keys arbitrary: ks) auto

text \<open>When the first twenty entries with a deadline are live, the sweep finds nothing.\<close>

lemma sweep_scan_none:
  "filter (\<lambda>p. expires_at (snd p) \<noteq> None) ks = pre @ post \<Longrightarrow> n + length pre = 20 \<Longrightarrow> n < 20 \<Longrightarrow>
   \<forall>p \<in> set pre. \<not> is_expired now (snd p) \<Longrightarrow> sweep_scan now n ks = []"
proof (induction now n ks arbitrary: pre rule: sweep_scan.induct)
  case (2 now n key e rest)
  show ?case
  proof (cases "expires_at e = None")
    case True
    with 2 show ?thesis by simp
  next
    case False
    with "2.prems" obtain pre' where pre: "pre = (key, e) # pre'"
      by (cases pre) auto
    with "2.prems" False have "filter (\<lambda>p. expires_at (snd p) \<noteq> None) rest = pre' @ post"
      "Suc n + length pre' = 20" "\<not> is_expired now e" by auto
    with 2 False pre show ?thesis by (auto simp: Let_def)
  qed
qed simp

lemma sweep_dead:
  assumes "hm_wf ks" and "k \<in> set (sweep_scan now 0 ks)"
  shows "\<exists>e. hm_get ks k = Some e \<and> is_expired now e"
  using sweep_scan_expired [OF assms(2)] assms(1) by (auto simp: hm.elems_iff)

lemma sweep_view:
  assumes "hm_wf ks"
  shows "live now (snd (sweep_expired now ks)) = live now ks"
proof
  fix k
  show "live now (snd (sweep_expired now ks)) k = live now ks k"
    using sweep_dead [OF assms, of k now]
    by (auto simp: sweep_expired_def Let_def live_def hm_get_fold_remove split: option.splits)
qed

lemma sweep_size:
  assumes "hm_wf ks"
  shows "fst (sweep_expired now ks) + length (snd (sweep_expired now ks)) = length ks"
proof -
  let ?dead = "sweep_scan now 0 ks"
  have sub: "set ?dead \<subseteq> dom (hm_get ks)"
    using sweep_dead [OF assms] by blast
  have "length (fold hm_remove ?dead ks) = card (dom (hm_get (fold hm_remove ?dead ks)))"
    using assms by (simp add: hm.card_dom hm_wf_fold_remove)
  also have "dom (hm_get (fold hm_remove ?dead ks)) = dom (hm_get ks) - set ?dead"
    by (auto simp: hm_get_fold_remove split: if_splits)
  also have "card \<dots> = card (dom (hm_get ks)) - card (set ?dead)"
    using sub by (intro card_Diff_subset) auto
  also have "\<dots> = length ks - length ?dead"
    using assms by (simp add: hm.card_dom distinct_card sweep_scan_distinct)
  moreover have "length ?dead \<le> length ks"
    using assms sub card_mono [of "dom (hm_get ks)" "set ?dead"]
    by (simp add: hm.card_dom hm.finite_dom distinct_card sweep_scan_distinct)
  ultimately show ?thesis
    by (simp add: sweep_expired_def Let_def)
qed

lemma sweep_complete:
  assumes "hm_wf ks" and "length (filter (\<lambda>p. expires_at (snd p) \<noteq> None) ks) \<le> 20"
  shows "hm_get (snd (sweep_expired now ks)) key = live now ks key"
proof (cases "hm_get ks key")
  case (Some e)
  have "key \<in> set (sweep_scan now 0 ks)" if "is_expired now e"
    using sweep_scan_all [OF _ hm_get_Some_in [OF Some] that, of 0] assms(2) by simp
  with Some sweep_dead [OF assms(1), of key now] show ?thesis
    by (auto simp: sweep_expired_def Let_def hm_get_fold_remove live_def)
qed (simp add: sweep_expired_def Let_def hm_get_fold_remove live_def)

section \<open>Well-formedness\<close>

lemma get_cmd_wf [wf_intros]: "ks_wf ks \<Longrightarrow> ks_wf (snd (get_cmd now1 now2 key ks))"
  by (auto simp: get_cmd_def get_evict_def ks_wf_remove split: option.splits)

lemma new_string_Some:
  "new_string now v ttl = Some e \<Longrightarrow> vdata e = StringV v \<and> expires_at e = map_option (\<lambda>d. now + int d) ttl"
  by (auto simp: new_string_def instant_checked_add_def split: option.splits if_splits)

lemma set_cmd_wf [wf_intros]: "ks_wf ks \<Longrightarrow> set_cmd now key v ttl nx xx ks = Some (ok, ks') \<Longrightarrow> ks_wf ks'"
  by (auto simp: set_cmd_def Let_def ks_wf_insert new_string_Some split: if_splits option.splits)

lemma delete_cmd_wf [wf_intros]: "ks_wf ks \<Longrightarrow> ks_wf (snd (delete_cmd now keys ks))"
  unfolding delete_cmd_def by (rule count_loop_inv) (auto simp: delete_step_def ks_wf_remove)

lemma ttl_cmd_wf [wf_intros]: "ks_wf ks \<Longrightarrow> ks_wf (snd (ttl_cmd now1 now2 key ks))"
  by (auto simp: ttl_cmd_def ks_wf_remove split: option.splits)

lemma expire_cmd_wf [wf_intros]: "ks_wf ks \<Longrightarrow> expire_cmd now key secs ks = Some (ok, ks') \<Longrightarrow> ks_wf ks'"
  by (auto simp: expire_cmd_def ks_wf_remove ks_wf_get intro!: ks_wf_insert
      split: if_splits option.splits)

lemma sweep_expired_wf [wf_intros]: "ks_wf ks \<Longrightarrow> ks_wf (snd (sweep_expired now ks))"
proof -
  have "ks_wf ks \<Longrightarrow> ks_wf (fold hm_remove keys ks)" for keys
    by (induction keys arbitrary: ks) (auto simp: ks_wf_remove)
  then show "ks_wf ks \<Longrightarrow> ks_wf (snd (sweep_expired now ks))"
    by (simp add: sweep_expired_def Let_def)
qed

section \<open>Properties\<close>

lemma get_cmd_result:
  assumes "now1 \<le> now2"
  shows "fst (get_cmd now1 now2 key ks) = kind_at string_of now1 ks key"
  by (auto simp: get_cmd_def get_peek_def get_evict_def kind_at_def live_def
      split: option.splits value_data.splits)

lemma get_evict_view: "live now (snd (get_evict now key ks)) = live now ks"
  by (auto simp: get_evict_def live_remove_expired split: option.splits)

text \<open>
  SET's result and effect: it stores the string with a fresh deadline unless NX or XX
  forbids it, a live key counts as existing and an expired one does not, and the only way
  to panic is a deadline beyond the range of the clock.
\<close>

theorem set_cmd_spec:
  "set_cmd now key v ttl nx xx ks =
     (let present = (live now ks key \<noteq> None)
      in if (nx \<and> present) \<or> (xx \<and> \<not> present) then Some (False, ks)
         else if (\<exists>d. ttl = Some d \<and> now + int d \<ge> 2 ^ 63 * 10 ^ 9) then None
         else Some (True, hm_insert key
                \<lparr>vdata = StringV v, expires_at = map_option (\<lambda>d. now + int d) ttl\<rparr> ks))"
proof -
  have "(case hm_get ks key of Some e \<Rightarrow> \<not> is_expired now e | None \<Rightarrow> False) \<longleftrightarrow> live now ks key \<noteq> None"
    by (simp add: live_def split: option.splits)
  moreover have "new_string now v ttl =
      (if \<exists>d. ttl = Some d \<and> now + int d \<ge> 2 ^ 63 * 10 ^ 9 then None
       else Some \<lparr>vdata = StringV v, expires_at = map_option (\<lambda>d. now + int d) ttl\<rparr>)"
    by (cases ttl) (auto simp: new_string_def instant_checked_add_def)
  ultimately show ?thesis
    unfolding set_cmd_def by (simp add: Let_def)
qed

text \<open>
  A string that SET stored is what GET returns, whatever the key held before, from that
  moment until its deadline; from the deadline on GET finds nothing.
\<close>

theorem set_then_get:
  assumes "set_cmd now key v ttl nx xx ks = Some (True, ks')" and "now \<le> t1" and "t1 \<le> t2"
  shows "fst (get_cmd t1 t2 key ks') =
    Inr (case ttl of None \<Rightarrow> Some v | Some d \<Rightarrow> if t1 < now + int d then Some v else None)"
proof -
  from assms(1) obtain e where e: "new_string now v ttl = Some e" and ks': "ks' = hm_insert key e ks"
    by (auto simp: set_cmd_def Let_def split: if_splits option.splits)
  from new_string_Some [OF e] show ?thesis
    using assms(3) by (cases ttl) (auto simp: get_cmd_result kind_at_def live_insert ks' is_expired_def)
qed

theorem set_then_get_witness:
  "fst (get_cmd 7 8 ''k'' [(''k'', \<lparr>vdata = StringV ''v'', expires_at = Some 10\<rparr>)]) = Inr (Some ''v'')"
proof -
  have "set_cmd 5 ''k'' ''v'' (Some 5) False False [] =
      Some (True, [(''k'', \<lparr>vdata = StringV ''v'', expires_at = Some 10\<rparr>)])"
    by code_simp
  from set_then_get [OF this, of 7 8] show ?thesis by simp
qed

text \<open>
  The two phases of GET are safe under interleaving: whatever other threads did to the
  map between the read lock and the write lock, the write phase takes away nothing that is
  live at its own clock reading, and it answers "missing".
\<close>

theorem get_evict_safe:
  "fst (get_evict now key ks) = Inr None \<and> live now (snd (get_evict now key ks)) = live now ks \<and>
   (\<forall>j. j \<noteq> key \<longrightarrow> hm_get (snd (get_evict now key ks)) j = hm_get ks j)"
  by (auto simp: get_evict_def live_remove_expired split: option.splits)

theorem get_evict_safe_witness:
  "hm_get (snd (get_evict 5 ''a'' [(''a'', \<lparr>vdata = StringV [], expires_at = Some 5\<rparr>),
                                   (''b'', \<lparr>vdata = StringV [], expires_at = Some 5\<rparr>)])) ''b'' =
   Some \<lparr>vdata = StringV [], expires_at = Some 5\<rparr>"
  using get_evict_safe [of 5 "''a''" "[(''a'', \<lparr>vdata = StringV [], expires_at = Some 5\<rparr>),
                                   (''b'', \<lparr>vdata = StringV [], expires_at = Some 5\<rparr>)]"]
  by (simp add: hm_get_def)

text \<open>
  DEL answers the number of distinct keys among its arguments that were live, and
  afterwards exactly those keys are gone from the view.
\<close>

theorem delete_spec:
  assumes "hm_wf ks"
  shows "fst (delete_cmd now keys ks) = int (card (dom (live now ks) \<inter> set keys)) \<and>
    live now (snd (delete_cmd now keys ks)) = (live now ks) |` (- set keys)"
  using assms by (simp_all add: delete_cmd_def delete_loop.loop_count delete_loop_view)

theorem delete_spec_witness:
  "fst (delete_cmd 5 [''a'', ''a'', ''b''] [(''a'', \<lparr>vdata = StringV [], expires_at = None\<rparr>),
      (''b'', \<lparr>vdata = StringV [], expires_at = Some 5\<rparr>)]) = 1"
proof -
  let ?ks = "[(''a'', \<lparr>vdata = StringV [], expires_at = None\<rparr>),
      (''b'', \<lparr>vdata = StringV [], expires_at = Some (5 :: instant)\<rparr>)]"
  have "dom (live 5 ?ks) \<inter> set [''a'', ''a'', ''b''] = {''a''}"
    by (auto simp: live_def hm_get_def is_expired_def)
  with delete_spec [of ?ks 5 "[''a'', ''a'', ''b'']"] show ?thesis
    by (simp add: hm_wf_def)
qed

text \<open>EXISTS counts a key as often as it is given.\<close>

lemma exists_cmd_spec: "exists_cmd now keys ks = int (length (filter (\<lambda>k. live now ks k \<noteq> None) keys))"
  by (simp add: exists_cmd_def exists_loop)

text \<open>KEYS lists the live keys that match, each once.\<close>

lemma keys_cmd_spec:
  assumes "hm_wf ks"
  shows "set (keys_cmd now pattern ks) = {k \<in> dom (live now ks). tokens_match (tokens pattern) k}"
    and "distinct (keys_cmd now pattern ks)"
proof -
  have "(\<exists>e. (k, e) \<in> set ks \<and> \<not> is_expired now e) \<longleftrightarrow> live now ks k \<noteq> None" for k
    using assms by (auto simp: live_def hm.elems_iff split: option.splits)
  then show "set (keys_cmd now pattern ks) = {k \<in> dom (live now ks). tokens_match (tokens pattern) k}"
    by (force simp: keys_cmd_def glob_match_tokens)
  show "distinct (keys_cmd now pattern ks)"
    using assms by (simp add: keys_cmd_def hm_wf_def distinct_map_filter)
qed

text \<open>MGET agrees with GET, reading a missing key and a key of another type as nothing.\<close>

lemma mget_cmd_spec:
  "mget_cmd now keys ks =
     map (\<lambda>k. case kind_at string_of now ks k of Inr v \<Rightarrow> v | Inl _ \<Rightarrow> None) keys"
  by (auto simp: mget_cmd_def kind_at_def live_def split: option.splits value_data.splits)

text \<open>
  EXPIRE with a positive number of seconds keeps a live key for that long and not a
  nanosecond longer, whatever the later clock readings, without touching its value; a
  missing key answers false and zero or a negative number deletes.
\<close>

theorem expire_cmd_spec:
  assumes "expire_cmd now key secs ks = Some (ok, ks')"
  shows "(ok \<longleftrightarrow> live now ks key \<noteq> None) \<and> live t ks' key =
      (case live now ks key of
         None \<Rightarrow> None
       | Some e \<Rightarrow>
           if 0 < secs \<and> t < now + secs * 10 ^ 9
           then Some (e\<lparr>expires_at := Some (now + secs * 10 ^ 9)\<rparr>) else None) \<and>
      (\<forall>j. j \<noteq> key \<longrightarrow> live t ks' j = live t ks j)"
proof (cases "live now ks key")
  case None
  with assms show ?thesis
    by (auto simp: expire_cmd_def live_def split: option.splits if_splits)
next
  case (Some e)
  then have "hm_get ks key = Some e" "\<not> is_expired now e" by (auto simp: live_Some)
  with assms Some show ?thesis
    by (cases "secs \<le> 0")
       (auto simp: expire_cmd_def live_remove live_insert is_expired_def [of t] instant_checked_add_def
         from_secs_def split: option.splits if_splits)
qed

theorem expire_cmd_spec_witness:
  "live 4 [(''k'', \<lparr>vdata = StringV ''v'', expires_at = Some 1000000000\<rparr>)] ''k'' =
     Some \<lparr>vdata = StringV ''v'', expires_at = Some 1000000000\<rparr>"
proof -
  have *: "expire_cmd 0 ''k'' 1 [(''k'', \<lparr>vdata = StringV ''v'', expires_at = None\<rparr>)] =
      Some (True, [(''k'', \<lparr>vdata = StringV ''v'', expires_at = Some 1000000000\<rparr>)])"
    by (simp add: expire_cmd_def hm_get_def hm_insert_def is_expired_def instant_checked_add_def from_secs_def)
  have "live 0 [(''k'', \<lparr>vdata = StringV ''v'', expires_at = None\<rparr>)] ''k'' =
      Some \<lparr>vdata = StringV ''v'', expires_at = None\<rparr>"
    by code_simp
  with expire_cmd_spec [OF *, of 4] show ?thesis by simp
qed

text \<open>
  TTL answers -2 for a missing key, -1 for a key without a deadline and otherwise the
  whole seconds that remain at the second clock reading; a key that expires between the two
  readings counts as missing and is removed, and the view is never changed.
\<close>

theorem ttl_cmd_spec:
  assumes "now1 \<le> now2"
  shows "fst (ttl_cmd now1 now2 key ks) =
      (case live now1 ks key of
         None \<Rightarrow> - 2
       | Some e \<Rightarrow>
           (case expires_at e of
              None \<Rightarrow> - 1
            | Some t \<Rightarrow> if t < now2 then - 2 else (t - now2) div 10 ^ 9))
    \<and> live now2 (snd (ttl_cmd now1 now2 key ks)) = live now2 ks"
proof (cases "live now1 ks key")
  case None
  then show ?thesis
    using assms by (auto simp: ttl_cmd_def live_def fun_eq_iff is_expired_def split: option.splits)
next
  case (Some e)
  then have e: "hm_get ks key = Some e" "\<not> is_expired now1 e" by (auto simp: live_Some)
  show ?thesis
  proof (cases "expires_at e")
    case None
    with Some e show ?thesis by (simp add: ttl_cmd_def)
  next
    case (Some t)
    have "live now2 (hm_remove key ks) = live now2 ks" if "t < now2"
      using that e Some by (intro live_remove_expired) (auto simp: is_expired_def)
    with Some e \<open>live now1 ks key = Some e\<close> show ?thesis
      by (auto simp: ttl_cmd_def checked_duration_since_def as_secs_def zdiv_int)
  qed
qed

theorem ttl_cmd_spec_witness:
  "fst (ttl_cmd 0 1 ''k'' [(''k'', \<lparr>vdata = StringV [], expires_at = Some 5000000001\<rparr>)]) = 5"
  using ttl_cmd_spec [of 0 1 "''k''" "[(''k'', \<lparr>vdata = StringV [], expires_at = Some 5000000001\<rparr>)]"]
  by (simp add: live_def hm_get_def is_expired_def)

text \<open>
  C17. The background sweep removes at most twenty entries, all of them expired, so no client
  can see it happen; when at most twenty keys have a deadline it leaves no expired entry
  behind.
\<close>

theorem sweep_expired_spec:
  assumes "hm_wf ks"
  shows "live now (snd (sweep_expired now ks)) = live now ks \<and> fst (sweep_expired now ks) \<le> 20 \<and>
    fst (sweep_expired now ks) + length (snd (sweep_expired now ks)) = length ks \<and>
    (length (filter (\<lambda>p. expires_at (snd p) \<noteq> None) ks) \<le> 20 \<longrightarrow>
      (\<forall>key. hm_get (snd (sweep_expired now ks)) key = live now ks key))"
  using sweep_view [OF assms] sweep_scan_length [of 0 now ks] sweep_size [OF assms] sweep_complete [OF assms]
  by (simp add: sweep_expired_def Let_def)

theorem sweep_expired_spec_witness:
  "hm_get (snd (sweep_expired 9 [(''k'', \<lparr>vdata = StringV [], expires_at = Some 5\<rparr>)])) ''k'' = None"
  using sweep_expired_spec [of "[(''k'', \<lparr>vdata = StringV [], expires_at = Some 5\<rparr>)]" 9]
  by (simp add: hm_wf_def live_def hm_get_def is_expired_def)



end
