(* ===== verification/Hash_Ops.thy ===== *)
theory Hash_Ops
  imports Keyspace
begin

text \<open>
  The hash commands of \<^verbatim>\<open>src/src/store.rs\<close>: HSET, HGET, HDEL, HVALS, HGETALL, HEXISTS
  and HINCRBY.
\<close>

section \<open>The commands\<close>

definition hset_step :: "bytes \<times> bytes \<Rightarrow> (bytes, bytes) hashmap \<Rightarrow> bool \<times> (bytes, bytes) hashmap" where
  "hset_step p m = (case p of (field, v) \<Rightarrow> (\<not> hm_contains m field, hm_insert field v m))"

definition hset :: "instant \<Rightarrow> bytes \<Rightarrow> (bytes \<times> bytes) list \<Rightarrow> keyspace \<Rightarrow> i64 result \<times> keyspace" where
  "hset now key fvs =
     create_key now key new_hash
       (modify_kind hash_of HashV
         (\<lambda>m. let (new_count, m') = count_loop hset_step fvs m in (Inr new_count, m')))"

definition hget :: "instant \<Rightarrow> bytes \<Rightarrow> bytes \<Rightarrow> keyspace \<Rightarrow> bytes option result \<times> keyspace" where
  "hget now key field =
     read_key now key (Inr None) (with_kind hash_of (\<lambda>m. Inr (hm_get m field)))"

definition hdel_step :: "bytes \<Rightarrow> (bytes, bytes) hashmap \<Rightarrow> bool \<times> (bytes, bytes) hashmap" where
  "hdel_step field m = (hm_contains m field, hm_remove field m)"

definition hdel :: "instant \<Rightarrow> bytes \<Rightarrow> bytes list \<Rightarrow> keyspace \<Rightarrow> i64 result \<times> keyspace" where
  "hdel now key fds ks =
     (let (r, ks') =
        update_key now key (Inr 0)
          (modify_kind hash_of HashV
            (\<lambda>m. let (cnt, m') = count_loop hdel_step fds m in (Inr cnt, m'))) ks
      in (r, remove_if_empty key ks'))"

definition hvals :: "instant \<Rightarrow> bytes \<Rightarrow> keyspace \<Rightarrow> bytes list result \<times> keyspace" where
  "hvals now key = read_key now key (Inr []) (with_kind hash_of (\<lambda>m. Inr (map snd m)))"

definition hgetall :: "instant \<Rightarrow> bytes \<Rightarrow> keyspace \<Rightarrow> (bytes, bytes) hashmap result \<times> keyspace" where
  "hgetall now key = read_key now key (Inr []) (with_kind hash_of Inr)"

definition hexists :: "instant \<Rightarrow> bytes \<Rightarrow> bytes \<Rightarrow> keyspace \<Rightarrow> bool result \<times> keyspace" where
  "hexists now key field =
     read_key now key (Inr False) (with_kind hash_of (\<lambda>m. Inr (hm_contains m field)))"

text \<open>
  The value HINCRBY stores.  Only the form an integer is printed in counts as an integer:
  the parse must print back to the same text.
\<close>

definition hincrby_value :: "bytes option \<Rightarrow> i64 \<Rightarrow> i64 result" where
  "hincrby_value current increment =
     (let cur =
        (case current of
           None \<Rightarrow> Inr 0
         | Some v \<Rightarrow>
             (case (if utf8_valid v then parse_i64 v else None) of
                Some n \<Rightarrow> if i64_str n = v then Inr n else Inl (SyntaxErr ''ERR hash value is not an integer'')
              | None \<Rightarrow> Inl (SyntaxErr ''ERR hash value is not an integer'')))
      in (case cur of
            Inl e \<Rightarrow> Inl e
          | Inr n \<Rightarrow>
              (case checked_add_i64 n increment of
                 Some r \<Rightarrow> Inr r
               | None \<Rightarrow> Inl (SyntaxErr ''ERR increment or decrement would overflow''))))"

definition hincrby :: "instant \<Rightarrow> bytes \<Rightarrow> bytes \<Rightarrow> i64 \<Rightarrow> keyspace \<Rightarrow> i64 result \<times> keyspace" where
  "hincrby now key field increment =
     create_key now key new_hash
       (modify_kind hash_of HashV
         (\<lambda>m. case hincrby_value (hm_get m field) increment of
                Inl e \<Rightarrow> (Inl e, m)
              | Inr new_val \<Rightarrow> (Inr new_val, hm_insert field (i64_str new_val) m)))"

section \<open>Loops\<close>

interpretation hset_loop: adding_loop hset_step fst "\<lambda>m. dom (hm_get m)" hm_wf
  by unfold_locales (auto simp: hset_step_def hm_contains_def split: prod.splits if_splits)

interpretation hdel_loop: removing_loop hdel_step "\<lambda>m. dom (hm_get m)" hm_wf
  by unfold_locales (auto simp: hdel_step_def hm_contains_def hm.finite_dom split: if_splits)

lemma hset_loop_get: "hm_get (snd (count_loop hset_step fvs m)) = hm_get m ++ map_of (rev fvs)"
  by (induction fvs arbitrary: m)
     (auto simp: Let_def split_beta hset_step_def fun_eq_iff map_add_def split: option.splits)

lemma hdel_loop_get: "hm_get (snd (count_loop hdel_step fds m)) = (hm_get m) |` (- set fds)"
  by (induction fds arbitrary: m)
     (auto simp: Let_def split_beta hdel_step_def fun_eq_iff restrict_map_def)

text \<open>HSET leaves an empty hash only when it is given no field at all.\<close>

lemma hset_loop_nonempty: "fvs \<noteq> [] \<or> m \<noteq> [] \<Longrightarrow> snd (count_loop hset_step fvs m) \<noteq> []"
  by (induction fvs arbitrary: m) (auto simp: Let_def split_beta hset_step_def)

lemma hset_wf [wf_intros]: "ks_wf ks \<Longrightarrow> ks_wf (snd (hset now key fvs ks))"
  unfolding hset_def
  by (rule hash_kind.ks_wf_create) (auto simp: split_beta Let_def hset_loop.loop_inv)

lemma hget_wf [wf_intros]: "ks_wf ks \<Longrightarrow> ks_wf (snd (hget now key field ks))"
  by (simp add: hget_def ks_wf_read)

lemma hdel_wf [wf_intros]: "ks_wf ks \<Longrightarrow> ks_wf (snd (hdel now key fds ks))"
  unfolding hdel_def Let_def split_beta snd_conv
  by (rule ks_wf_drop, rule hash_kind.ks_wf_update) (auto simp: split_beta hdel_loop.loop_inv)

lemma hvals_wf [wf_intros]: "ks_wf ks \<Longrightarrow> ks_wf (snd (hvals now key ks))"
  by (simp add: hvals_def ks_wf_read)

lemma hgetall_wf [wf_intros]: "ks_wf ks \<Longrightarrow> ks_wf (snd (hgetall now key ks))"
  by (simp add: hgetall_def ks_wf_read)

lemma hexists_wf [wf_intros]: "ks_wf ks \<Longrightarrow> ks_wf (snd (hexists now key field ks))"
  by (simp add: hexists_def ks_wf_read)

lemma hincrby_wf [wf_intros]: "ks_wf ks \<Longrightarrow> ks_wf (snd (hincrby now key field increment ks))"
  unfolding hincrby_def
  by (rule hash_kind.ks_wf_create) (auto split: sum.splits)

section \<open>Properties\<close>

text \<open>The abstract hash under a key: empty when the key is missing.\<close>

definition hash_at :: "instant \<Rightarrow> keyspace \<Rightarrow> bytes \<Rightarrow> (bytes \<rightharpoonup> bytes) result" where
  "hash_at now ks key =
     (case kind_at hash_of now ks key of
        Inl e \<Rightarrow> Inl e | Inr None \<Rightarrow> Inr Map.empty | Inr (Some m) \<Rightarrow> Inr (hm_get m))"

lemma hget_spec: "fst (hget now key field ks) =
    (case hash_at now ks key of Inl e \<Rightarrow> Inl e | Inr h \<Rightarrow> Inr (h field))"
  by (auto simp: hget_def hash_kind.read_typed hash_at_def split: sum.splits option.splits)

lemma hash_put:
  "live now ks' = put key (HashV m) (live now ks) \<Longrightarrow> hash_at now ks' key = Inr (hm_get m)"
  by (simp add: hash_at_def hash_kind.kind_at_put)

text \<open>
  HSET on a missing key or a hash writes the pairs in order, the last value of a repeated
  field winning, counts the distinct fields that were not there, and keeps the key's
  deadline; on another type it answers WRONGTYPE and changes nothing a client can see.
\<close>

theorem hset_spec:
  assumes "ks_wf ks"
  shows "case hash_at now ks key of
      Inl e \<Rightarrow> fst (hset now key fvs ks) = Inl e \<and> live now (snd (hset now key fvs ks)) = live now ks
    | Inr h \<Rightarrow>
        fst (hset now key fvs ks) = Inr (int (card (fst ` set fvs - dom h))) \<and>
        hash_at now (snd (hset now key fvs ks)) key = Inr (h ++ map_of (rev fvs)) \<and>
        (\<forall>e e'. live now ks key = Some e \<longrightarrow> live now (snd (hset now key fvs ks)) key = Some e' \<longrightarrow>
           expires_at e' = expires_at e) \<and>
        (\<forall>j. j \<noteq> key \<longrightarrow> live now (snd (hset now key fvs ks)) j = live now ks j)"
proof (cases "kind_at hash_of now ks key")
  case (Inl e)
  then show ?thesis
    by (simp add: hset_def hash_at_def hash_kind.create_typed_result [OF new_entries_data(1)]
        hash_kind.create_typed_view [OF new_entries_data(1)])
next
  case (Inr v)
  let ?m = "case v of None \<Rightarrow> [] | Some m \<Rightarrow> m"
  let ?m' = "snd (count_loop hset_step fvs ?m)"
  have wf: "hm_wf ?m"
    using Inr assms kind_at_wf [OF assms hash_kind.value_kind_axioms, of now key]
    by (auto split: option.splits)
  have res: "fst (hset now key fvs ks) = Inr (int (card (fst ` set fvs - dom (hm_get ?m))))"
    using Inr hset_loop.loop_count [OF wf]
    by (simp add: hset_def hash_kind.create_typed_result [OF new_entries_data(1)] split_beta Let_def)
  have view: "live now (snd (hset now key fvs ks)) = put key (HashV ?m') (live now ks)"
    using Inr
    by (simp add: hset_def hash_kind.create_typed_view [OF new_entries_data(1)] split_beta Let_def)
  have at: "hash_at now ks key = Inr (hm_get ?m)"
    using Inr by (auto simp: hash_at_def fun_eq_iff split: option.splits)
  have "hash_at now (snd (hset now key fvs ks)) key = Inr (hm_get ?m ++ map_of (rev fvs))"
    using hash_put [OF view] by (simp add: hset_loop_get)
  then show ?thesis
    unfolding at by (simp add: res view put_deadline)
qed

theorem hset_spec_witness:
  "hash_at 0 (snd (hset 0 ''h'' [(''f'', ''1''), (''f'', ''2'')] [])) ''h'' = Inr [''f'' \<mapsto> ''2'']"
  using hset_spec [of "[]" 0 "''h''" "[(''f'', ''1''), (''f'', ''2'')]"]
  by (simp add: ks_wf_def hash_at_def kind_at_def)

text \<open>
  HDEL counts the distinct fields it found and takes them away; the key goes with the
  last field.
\<close>

theorem hdel_spec:
  assumes "ks_wf ks" and "hash_at now ks key = Inr h"
  shows "fst (hdel now key fds ks) = Inr (int (card (dom h \<inter> set fds))) \<and>
    hash_at now (snd (hdel now key fds ks)) key = Inr (h |` (- set fds)) \<and>
    (live now (snd (hdel now key fds ks)) key = None \<longleftrightarrow> live now ks key = None \<or> dom h \<subseteq> set fds)"
proof (cases "kind_at hash_of now ks key")
  case (Inl e)
  with assms show ?thesis by (simp add: hash_at_def)
next
  case (Inr v)
  show ?thesis
  proof (cases v)
    case None
    have "live now ks key = None"
      using Inr None by (auto simp: kind_at_def split: option.splits)
    moreover have "h = Map.empty"
      using assms(2) Inr None by (simp add: hash_at_def)
    ultimately show ?thesis
      using Inr None
      by (simp add: hdel_def split_beta Let_def hash_kind.update_typed_result
          hash_kind.update_typed_drop_view hash_at_def kind_at_def)
  next
    case (Some m)
    let ?m' = "snd (count_loop hdel_step fds m)"
    have wf: "hm_wf m"
      using kind_at_wf [OF assms(1) hash_kind.value_kind_axioms, of now key m] Inr Some by simp
    have h: "h = hm_get m"
      using assms(2) Inr Some by (simp add: hash_at_def)
    have res: "fst (hdel now key fds ks) = Inr (int (card (dom h \<inter> set fds)))"
      using Inr Some hdel_loop.loop_count [OF wf]
      by (simp add: hdel_def split_beta Let_def hash_kind.update_typed_result h)
    have view: "live now (snd (hdel now key fds ks)) = put_or_drop key (HashV ?m') (live now ks)"
      using Inr Some by (simp add: hdel_def split_beta Let_def hash_kind.update_typed_drop_view)
    have get': "hm_get ?m' = h |` (- set fds)"
      by (simp add: h hdel_loop_get)
    have empty: "?m' = [] \<longleftrightarrow> dom h \<subseteq> set fds"
    proof -
      have "?m' = [] \<longleftrightarrow> hm_get ?m' = Map.empty"
        by (cases ?m') (auto simp: hm_get_def fun_eq_iff)
      then show ?thesis
        unfolding get' by (auto simp: restrict_map_def fun_eq_iff dom_def)
    qed
    have at: "hash_at now (snd (hdel now key fds ks)) key = Inr (h |` (- set fds))"
    proof (cases "?m' = []")
      case True
      then have "h |` (- set fds) = Map.empty"
        using get' by (simp add: fun_eq_iff)
      with True view show ?thesis
        by (simp add: hash_at_def kind_at_def put_or_drop_def)
    next
      case False
      with view hash_put [of now _ key ?m' ks] get' show ?thesis
        by (simp add: put_or_drop_def)
    qed
    have "live now ks key \<noteq> None"
      using Inr Some by (auto simp: kind_at_def split: option.splits)
    then show ?thesis
      using res at empty by (auto simp: view put_or_drop_def put_def)
  qed
qed

theorem hdel_spec_witness:
  "live 0 (snd (hdel 0 ''h'' [''f''] [(''h'', \<lparr>vdata = HashV [(''f'', ''1'')], expires_at = None\<rparr>)])) ''h'' = None"
  using hdel_spec [of "[(''h'', \<lparr>vdata = HashV [(''f'', ''1'')], expires_at = None\<rparr>)]" 0 "''h''" "[''f'' \<mapsto> ''1'']" "[''f'']"]
  by (auto simp: ks_wf_def ks_all_def hm_wf_def hm_get_def hash_at_def kind_at_def live_def is_expired_def
      fun_eq_iff split: if_splits)

lemma hincrby_value_canonical:
  "in_i64 n \<Longrightarrow> hincrby_value (Some (i64_str n)) d =
     (if in_i64 (n + d) then Inr (n + d) else Inl (SyntaxErr ''ERR increment or decrement would overflow''))"
  by (simp add: hincrby_value_def checked_add_i64_def)

lemma hincrby_value_other:
  "\<nexists>n. in_i64 n \<and> v = i64_str n \<Longrightarrow>
   hincrby_value (Some v) d = Inl (SyntaxErr ''ERR hash value is not an integer'')"
  by (auto simp: hincrby_value_def Let_def dest: parse_i64_range split: option.splits)

lemma hincrby_value_missing: "in_i64 d \<Longrightarrow> hincrby_value None d = Inr d"
  by (simp add: hincrby_value_def checked_add_i64_def)

text \<open>
  C19. HINCRBY adds to the canonical decimal form of an \<open>i64\<close> and to nothing else: a missing
  field counts from 0, any other text and any result outside the range of \<open>i64\<close> is the
  documented error and leaves the hash as it was, and the stored field prints the answer.
\<close>

theorem hincrby_spec:
  assumes "in_i64 d" and "hash_at now ks key = Inr h"
    and "h field = None \<and> n = 0 \<or> h field = Some (i64_str n) \<and> in_i64 n"
  shows "if in_i64 (n + d)
    then fst (hincrby now key field d ks) = Inr (n + d) \<and>
         hash_at now (snd (hincrby now key field d ks)) key = Inr (h(field \<mapsto> i64_str (n + d)))
    else fst (hincrby now key field d ks) = Inl (SyntaxErr ''ERR increment or decrement would overflow'') \<and>
         hash_at now (snd (hincrby now key field d ks)) key = Inr h"
proof -
  from assms(2) obtain v where v: "kind_at hash_of now ks key = Inr v"
    by (auto simp: hash_at_def split: sum.splits)
  let ?m = "case v of None \<Rightarrow> [] | Some m \<Rightarrow> m"
  have h: "h = hm_get ?m"
    using assms(2) v by (auto simp: hash_at_def fun_eq_iff split: option.splits)
  have val: "hincrby_value (hm_get ?m field) d =
      (if in_i64 (n + d) then Inr (n + d) else Inl (SyntaxErr ''ERR increment or decrement would overflow''))"
    using assms by (auto simp: h hincrby_value_missing hincrby_value_canonical)
  have res: "fst (hincrby now key field d ks) = hincrby_value (hm_get ?m field) d"
    using v by (simp add: hincrby_def hash_kind.create_typed_result [OF new_entries_data(1)] split: sum.splits)
  let ?m' = "if in_i64 (n + d) then hm_insert field (i64_str (n + d)) ?m else ?m"
  have "live now (snd (hincrby now key field d ks)) = put key (HashV ?m') (live now ks)"
    using v by (simp add: hincrby_def hash_kind.create_typed_view [OF new_entries_data(1)] val)
  from hash_put [OF this] show ?thesis
    using h by (auto simp: res val fun_eq_iff)
qed

theorem hincrby_spec_witness:
  "hash_at 0 (snd (hincrby 0 ''h'' ''f'' 5 [(''h'', \<lparr>vdata = HashV [(''f'', i64_str 37)], expires_at = None\<rparr>)])) ''h'' =
     Inr [''f'' \<mapsto> i64_str 42]"
proof -
  have "hash_at 0 [(''h'', \<lparr>vdata = HashV [(''f'', i64_str 37)], expires_at = None\<rparr>)] ''h'' = Inr [''f'' \<mapsto> i64_str 37]"
    by (auto simp: hash_at_def kind_at_def live_def hm_get_def is_expired_def fun_eq_iff)
  from hincrby_spec [OF _ this, of 5 "''f''" 37] show ?thesis
    by (simp add: in_i64_def i64_MIN_def i64_MAX_def del: nat_str.simps)
qed

text \<open>
  HINCRBY refuses every stored text that is not what an \<open>i64\<close> prints as (leading zeros
  or plus signs, spaces, empty text, numbers out of range, bytes that are not UTF-8).
\<close>

theorem hincrby_rejects_other_text:
  assumes "hash_at now ks key = Inr h" and "h field = Some v" and "\<nexists>n. in_i64 n \<and> v = i64_str n"
  shows "fst (hincrby now key field d ks) = Inl (SyntaxErr ''ERR hash value is not an integer'') \<and>
    live now (snd (hincrby now key field d ks)) = live now ks"
proof -
  from assms(1,2) obtain m where m: "kind_at hash_of now ks key = Inr (Some m)" and h: "h = hm_get m"
    by (auto simp: hash_at_def split: sum.splits option.splits)
  from m obtain e where "live now ks key = Some e" "vdata e = HashV m"
    by (auto simp: hash_kind.kind_at_Some)
  then have "put key (HashV m) (live now ks) = live now ks"
    using put_same [of "live now ks" key e] by simp
  then show ?thesis
    using assms m
    by (simp add: hincrby_def hash_kind.create_typed_result [OF new_entries_data(1)]
        hash_kind.create_typed_view [OF new_entries_data(1)] h hincrby_value_other)
qed

theorem hincrby_rejects_other_text_witness:
  "fst (hincrby 0 ''h'' ''f'' 5 [(''h'', \<lparr>vdata = HashV [(''f'', ''+7'')], expires_at = None\<rparr>)]) =
     Inl (SyntaxErr ''ERR hash value is not an integer'')"
proof -
  have "hash_at 0 [(''h'', \<lparr>vdata = HashV [(''f'', ''+7'')], expires_at = None\<rparr>)] ''h'' = Inr [''f'' \<mapsto> ''+7'']"
    by (auto simp: hash_at_def kind_at_def live_def hm_get_def is_expired_def fun_eq_iff)
  moreover have "\<nexists>n. in_i64 n \<and> ''+7'' = i64_str n"
  proof
    assume "\<exists>n. in_i64 n \<and> ''+7'' = i64_str n"
    then obtain n where "in_i64 n" "i64_str n = ''+7''" by auto
    moreover have "parse_i64 ''+7'' = Some 7" by code_simp
    ultimately have "i64_str 7 = ''+7''"
      using parse_i64_i64_str by fastforce
    moreover have "i64_str 7 = ''7''" by code_simp
    ultimately show False by simp
  qed
  ultimately show ?thesis
    using hincrby_rejects_other_text [of 0 _ "''h''" "[''f'' \<mapsto> ''+7'']" "''f''" "''+7''" 5] by simp
qed

end
