(* ===== verification/Set_Ops.thy ===== *)
theory Set_Ops
  imports Keyspace
begin

text \<open>The set commands of \<^verbatim>\<open>src/src/store.rs\<close>: SADD, SMEMBERS, SISMEMBER and SREM.\<close>

section \<open>The commands\<close>

definition sadd_step :: "bytes \<Rightarrow> bytes hashset \<Rightarrow> bool \<times> bytes hashset" where
  "sadd_step member s = (member \<notin> set s, hs_insert member s)"

definition sadd :: "instant \<Rightarrow> bytes \<Rightarrow> bytes list \<Rightarrow> keyspace \<Rightarrow> i64 result \<times> keyspace" where
  "sadd now key ms =
     create_key now key new_set
       (modify_kind set_of SetV
         (\<lambda>s. let (new_count, s') = count_loop sadd_step ms s in (Inr new_count, s')))"

definition smembers :: "instant \<Rightarrow> bytes \<Rightarrow> keyspace \<Rightarrow> bytes list result \<times> keyspace" where
  "smembers now key = read_key now key (Inr []) (with_kind set_of Inr)"

definition sismember :: "instant \<Rightarrow> bytes \<Rightarrow> bytes \<Rightarrow> keyspace \<Rightarrow> bool result \<times> keyspace" where
  "sismember now key member =
     read_key now key (Inr False) (with_kind set_of (\<lambda>s. Inr (member \<in> set s)))"

definition srem_step :: "bytes \<Rightarrow> bytes hashset \<Rightarrow> bool \<times> bytes hashset" where
  "srem_step member s = (member \<in> set s, hs_remove member s)"

definition srem :: "instant \<Rightarrow> bytes \<Rightarrow> bytes list \<Rightarrow> keyspace \<Rightarrow> i64 result \<times> keyspace" where
  "srem now key ms ks =
     (let (r, ks') =
        update_key now key (Inr 0)
          (modify_kind set_of SetV
            (\<lambda>s. let (cnt, s') = count_loop srem_step ms s in (Inr cnt, s'))) ks
      in (r, remove_if_empty key ks'))"

section \<open>Loops\<close>

interpretation sadd_loop: adding_loop sadd_step "\<lambda>m. m" set distinct
  by unfold_locales (auto simp: sadd_step_def)

interpretation srem_loop: removing_loop srem_step set distinct
  by unfold_locales (auto simp: srem_step_def)

lemma sadd_wf [wf_intros]: "ks_wf ks \<Longrightarrow> ks_wf (snd (sadd now key ms ks))"
  unfolding sadd_def by (rule set_kind.ks_wf_create) (auto simp: split_beta sadd_loop.loop_inv)

lemma smembers_wf [wf_intros]: "ks_wf ks \<Longrightarrow> ks_wf (snd (smembers now key ks))"
  by (simp add: smembers_def ks_wf_read)

lemma sismember_wf [wf_intros]: "ks_wf ks \<Longrightarrow> ks_wf (snd (sismember now key member ks))"
  by (simp add: sismember_def ks_wf_read)

lemma srem_wf [wf_intros]: "ks_wf ks \<Longrightarrow> ks_wf (snd (srem now key ms ks))"
  unfolding srem_def Let_def split_beta snd_conv
  by (rule ks_wf_drop, rule set_kind.ks_wf_update) (auto simp: split_beta srem_loop.loop_inv)

section \<open>Properties\<close>

text \<open>The abstract set under a key: empty when the key is missing.\<close>

definition set_at :: "instant \<Rightarrow> keyspace \<Rightarrow> bytes \<Rightarrow> bytes set result" where
  "set_at now ks key =
     (case kind_at set_of now ks key of
        Inl e \<Rightarrow> Inl e | Inr None \<Rightarrow> Inr {} | Inr (Some s) \<Rightarrow> Inr (set s))"

lemma sismember_spec: "fst (sismember now key m ks) =
    (case set_at now ks key of Inl e \<Rightarrow> Inl e | Inr S \<Rightarrow> Inr (m \<in> S))"
  by (auto simp: sismember_def set_kind.read_typed set_at_def split: sum.splits option.splits)

lemma smembers_spec:
  "ks_wf ks \<Longrightarrow> fst (smembers now key ks) = Inr ms \<Longrightarrow> set_at now ks key = Inr (set ms) \<and> distinct ms"
  using kind_at_wf [OF _ set_kind.value_kind_axioms, of ks now key]
  by (auto simp: smembers_def set_kind.read_typed set_at_def split: sum.splits option.splits)

lemma set_put: "live now ks' = put key (SetV s) (live now ks) \<Longrightarrow> set_at now ks' key = Inr (set s)"
  by (simp add: set_at_def set_kind.kind_at_put)

lemma sadd_spec:
  assumes "ks_wf ks" and "set_at now ks key = Inr S"
  shows "fst (sadd now key ms ks) = Inr (int (card (set ms - S)))"
    and "set_at now (snd (sadd now key ms ks)) key = Inr (S \<union> set ms)"
proof -
  obtain v where v: "kind_at set_of now ks key = Inr v"
    using assms(2) by (auto simp: set_at_def split: sum.splits)
  let ?s = "case v of None \<Rightarrow> [] | Some s \<Rightarrow> s"
  have wf: "distinct ?s"
    using v kind_at_wf [OF assms(1) set_kind.value_kind_axioms, of now key] by (auto split: option.splits)
  have S: "S = set ?s"
    using assms(2) v by (auto simp: set_at_def split: option.splits)
  show "fst (sadd now key ms ks) = Inr (int (card (set ms - S)))"
    using v sadd_loop.loop_count [OF wf]
    by (simp add: sadd_def set_kind.create_typed_result [OF new_entries_data(2)] split_beta Let_def S)
  have "live now (snd (sadd now key ms ks)) = put key (SetV (snd (count_loop sadd_step ms ?s))) (live now ks)"
    using v by (simp add: sadd_def set_kind.create_typed_view [OF new_entries_data(2)] split_beta Let_def)
  from set_put [OF this] show "set_at now (snd (sadd now key ms ks)) key = Inr (S \<union> set ms)"
    using sadd_loop.loop_mem [OF wf] by (simp add: S)
qed

lemma srem_spec:
  assumes "ks_wf ks" and "set_at now ks key = Inr S"
  shows "fst (srem now key ms ks) = Inr (int (card (S \<inter> set ms)))"
    and "set_at now (snd (srem now key ms ks)) key = Inr (S - set ms)"
    and "S - set ms = {} \<Longrightarrow> live now (snd (srem now key ms ks)) key = None"
proof -
  obtain v where v: "kind_at set_of now ks key = Inr v"
    using assms(2) by (auto simp: set_at_def split: sum.splits)
  have "fst (srem now key ms ks) = Inr (int (card (S \<inter> set ms))) \<and>
    set_at now (snd (srem now key ms ks)) key = Inr (S - set ms) \<and>
    (S - set ms = {} \<longrightarrow> live now (snd (srem now key ms ks)) key = None)"
  proof (cases v)
    case None
    have "live now ks key = None"
      using v None by (auto simp: kind_at_def split: option.splits)
    moreover have "S = {}"
      using assms(2) v None by (simp add: set_at_def)
    ultimately show ?thesis
      using v None
      by (simp add: srem_def split_beta Let_def set_kind.update_typed_result
          set_kind.update_typed_drop_view set_at_def kind_at_def)
  next
    case (Some s)
    let ?s' = "snd (count_loop srem_step ms s)"
    have wf: "distinct s"
      using kind_at_wf [OF assms(1) set_kind.value_kind_axioms, of now key s] v Some by simp
    have S: "S = set s"
      using assms(2) v Some by (simp add: set_at_def)
    have res: "fst (srem now key ms ks) = Inr (int (card (S \<inter> set ms)))"
      using v Some srem_loop.loop_count [OF wf]
      by (simp add: srem_def split_beta Let_def set_kind.update_typed_result S)
    have view: "live now (snd (srem now key ms ks)) = put_or_drop key (SetV ?s') (live now ks)"
      using v Some by (simp add: srem_def split_beta Let_def set_kind.update_typed_drop_view)
    have mem: "set ?s' = S - set ms"
      using srem_loop.loop_mem [OF wf] by (simp add: S)
    show ?thesis
    proof (cases "?s' = []")
      case True
      with mem have "S - set ms = {}" by auto
      with True res view show ?thesis
        by (auto simp: set_at_def kind_at_def put_or_drop_def)
    next
      case False
      then have "S - set ms \<noteq> {}" by (metis mem set_empty)
      with False res mem view set_put [of now _ key ?s' ks] show ?thesis
        by (simp add: put_or_drop_def)
    qed
  qed
  then show "fst (srem now key ms ks) = Inr (int (card (S \<inter> set ms)))"
    and "set_at now (snd (srem now key ms ks)) key = Inr (S - set ms)"
    and "S - set ms = {} \<Longrightarrow> live now (snd (srem now key ms ks)) key = None" by auto
qed

text \<open>
  SADD and SREM are union and difference: SADD answers the number of distinct members
  that were not in the set, SREM the number of distinct members that were, and a set that
  loses its last member takes the key with it.
\<close>

theorem sadd_srem_spec:
  assumes "ks_wf ks" and "set_at now ks key = Inr S"
  shows "fst (sadd now key ms ks) = Inr (int (card (set ms - S))) \<and>
    set_at now (snd (sadd now key ms ks)) key = Inr (S \<union> set ms) \<and>
    fst (srem now key ms ks) = Inr (int (card (S \<inter> set ms))) \<and>
    set_at now (snd (srem now key ms ks)) key = Inr (S - set ms) \<and>
    (S \<subseteq> set ms \<longrightarrow> live now (snd (srem now key ms ks)) key = None)"
  using sadd_spec [OF assms] srem_spec [OF assms] by auto

theorem sadd_srem_spec_witness:
  "live 0 (snd (srem 0 ''s'' [''a'', ''b''] [(''s'', \<lparr>vdata = SetV [''a''], expires_at = None\<rparr>)])) ''s'' = None"
  using sadd_srem_spec [of "[(''s'', \<lparr>vdata = SetV [''a''], expires_at = None\<rparr>)]" 0 "''s''" "{''a''}" "[''a'', ''b'']"]
  by (simp add: ks_wf_def ks_all_def hm_wf_def hm_get_def set_at_def kind_at_def live_def is_expired_def)

end
