(* ===== verification/Zset_Ops.thy ===== *)
theory Zset_Ops
  imports Keyspace
begin

text \<open>
  The sorted-set commands of \<^verbatim>\<open>src/src/store.rs\<close>: ZADD, ZREM, ZRANGE, ZRANGEBYSCORE,
  ZRANGESTORE, ZREMRANGEBYSCORE, ZCARD, ZSCORE and ZCOUNT, over the dual index of the theory
  \<open>Sorted_Sets\<close>.
\<close>

section \<open>The commands\<close>

definition zadd :: "instant \<Rightarrow> bytes \<Rightarrow> (f64 \<times> bytes) list \<Rightarrow> bool \<Rightarrow> bool \<Rightarrow> bool \<Rightarrow> bool \<Rightarrow> bool \<Rightarrow>
    keyspace \<Rightarrow> i64 result \<times> keyspace" where
  "zadd now key ms nx xx gt lt ch ks =
     (let (r, ks') =
        create_key now key new_sorted_set
          (modify_kind zset_of SortedSetV
            (\<lambda>z. let (added, changed, z') = zadd_loop nx xx gt lt ms z
                 in (Inr (if ch then changed else added), z'))) ks
      in (r, remove_if_empty key ks'))"

definition zrem :: "instant \<Rightarrow> bytes \<Rightarrow> bytes list \<Rightarrow> keyspace \<Rightarrow> i64 result \<times> keyspace" where
  "zrem now key ms ks =
     (let (r, ks') =
        update_key now key (Inr 0)
          (modify_kind zset_of SortedSetV
            (\<lambda>z. let (cnt, z') = count_loop zs_remove ms z in (Inr cnt, z'))) ks
      in (r, remove_if_empty key ks'))"

definition with_scores :: "bool \<Rightarrow> f64 \<times> bytes \<Rightarrow> bytes \<times> f64 option" where
  "with_scores withscores p = (snd p, if withscores then Some (fst p) else None)"

definition zs_range :: "i64 \<Rightarrow> i64 \<Rightarrow> sorted_set \<Rightarrow> (f64 \<times> bytes) list" where
  "zs_range start stop z =
     (let len = int (zs_len z)
      in if len = 0 then []
         else
           let real_start = (if start < 0 then len + start else start);
               real_stop = (if stop < 0 then len + stop else stop);
               real_start = (if real_start < 0 then 0 else real_start);
               real_stop = (if real_stop \<ge> len then len - 1 else real_stop)
           in if real_start > real_stop \<or> real_start \<ge> len then []
              else take (nat (real_stop - real_start + 1)) (drop (nat real_start) (zs_list z)))"

definition zrange :: "instant \<Rightarrow> bytes \<Rightarrow> i64 \<Rightarrow> i64 \<Rightarrow> bool \<Rightarrow> keyspace \<Rightarrow>
    (bytes \<times> f64 option) list result \<times> keyspace" where
  "zrange now key start stop withscores =
     read_key now key (Inr [])
       (with_kind zset_of (\<lambda>z. Inr (map (with_scores withscores) (zs_range start stop z))))"

definition zrangebyscore :: "instant \<Rightarrow> bytes \<Rightarrow> f64 \<Rightarrow> f64 \<Rightarrow> bool \<Rightarrow> keyspace \<Rightarrow>
    (bytes \<times> f64 option) list result \<times> keyspace" where
  "zrangebyscore now key lo hi withscores =
     read_key now key (Inr [])
       (with_kind zset_of (\<lambda>z. Inr (map (with_scores withscores) (zs_scan lo hi z))))"

definition zrangestore :: "instant \<Rightarrow> bytes \<Rightarrow> bytes \<Rightarrow> f64 \<Rightarrow> f64 \<Rightarrow> keyspace \<Rightarrow> i64 result \<times> keyspace" where
  "zrangestore now dst src lo hi ks =
     (let (r, ks1) = read_key now src (Inr []) (with_kind zset_of (\<lambda>z. Inr (zs_scan lo hi z))) ks
      in (case r of
            Inl e \<Rightarrow> (Inl e, ks1)
          | Inr members_to_store \<Rightarrow>
              if length members_to_store = 0 then (Inr 0, hm_remove dst ks1)
              else (Inr (int (length members_to_store)),
                    hm_insert dst \<lparr>vdata = SortedSetV (zs_of_list members_to_store), expires_at = None\<rparr> ks1)))"

definition zremrangebyscore :: "instant \<Rightarrow> bytes \<Rightarrow> f64 \<Rightarrow> f64 \<Rightarrow> keyspace \<Rightarrow> i64 result \<times> keyspace" where
  "zremrangebyscore now key lo hi ks =
     (let (r, ks') =
        update_key now key (Inr 0)
          (modify_kind zset_of SortedSetV
            (\<lambda>z. let to_remove = map snd (zs_scan lo hi z)
                 in (Inr (int (length to_remove)), fold (\<lambda>m z. snd (zs_remove m z)) to_remove z))) ks
      in (r, remove_if_empty key ks'))"

definition zcard :: "instant \<Rightarrow> bytes \<Rightarrow> keyspace \<Rightarrow> i64 result \<times> keyspace" where
  "zcard now key = read_key now key (Inr 0) (with_kind zset_of (\<lambda>z. Inr (int (zs_len z))))"

definition zscore :: "instant \<Rightarrow> bytes \<Rightarrow> bytes \<Rightarrow> keyspace \<Rightarrow> f64 option result \<times> keyspace" where
  "zscore now key member = read_key now key (Inr None) (with_kind zset_of (\<lambda>z. Inr (zs_score z member)))"

definition zcount :: "instant \<Rightarrow> bytes \<Rightarrow> f64 \<Rightarrow> f64 \<Rightarrow> keyspace \<Rightarrow> i64 result \<times> keyspace" where
  "zcount now key lo hi =
     read_key now key (Inr 0) (with_kind zset_of (\<lambda>z. Inr (int (length (zs_scan lo hi z)))))"

section \<open>Well-formedness\<close>

lemma zs_fold_remove: "fold (\<lambda>m z. snd (zs_remove m z)) ms z = snd (count_loop zs_remove ms z)"
  by (induction ms arbitrary: z) (auto simp: Let_def split_beta)

lemma zadd_wf [wf_intros]: "ks_wf ks \<Longrightarrow> ks_wf (snd (zadd now key ms nx xx gt lt ch ks))"
  unfolding zadd_def Let_def split_beta snd_conv
  by (rule ks_wf_drop, rule zset_kind.ks_wf_create) (auto simp: split_beta zadd_loop_wf)

lemma zrem_wf [wf_intros]: "ks_wf ks \<Longrightarrow> ks_wf (snd (zrem now key ms ks))"
  unfolding zrem_def Let_def split_beta snd_conv
  by (rule ks_wf_drop, rule zset_kind.ks_wf_update) (auto simp: split_beta zrem_loop.loop_inv)

lemma zremrangebyscore_wf [wf_intros]: "ks_wf ks \<Longrightarrow> ks_wf (snd (zremrangebyscore now key lo hi ks))"
  unfolding zremrangebyscore_def Let_def split_beta snd_conv
  by (rule ks_wf_drop, rule zset_kind.ks_wf_update) (auto simp: zs_fold_remove zrem_loop.loop_inv)

lemma zrangestore_wf [wf_intros]: "ks_wf ks \<Longrightarrow> ks_wf (snd (zrangestore now dst src lo hi ks))"
  unfolding zrangestore_def split_beta Let_def
  by (auto simp: ks_wf_read ks_wf_remove zs_of_list_wf ks_wf_insert split: sum.splits)

lemma zset_reads_wf [wf_intros]:
  "ks_wf ks \<Longrightarrow> ks_wf (snd (zrange now key start stop ws ks))"
  "ks_wf ks \<Longrightarrow> ks_wf (snd (zrangebyscore now key lo hi ws ks))"
  "ks_wf ks \<Longrightarrow> ks_wf (snd (zcard now key ks))"
  "ks_wf ks \<Longrightarrow> ks_wf (snd (zscore now key member ks))"
  "ks_wf ks \<Longrightarrow> ks_wf (snd (zcount now key lo hi ks))"
  by (simp_all add: zrange_def zrangebyscore_def zcard_def zscore_def zcount_def ks_wf_read)

section \<open>The abstract sorted set\<close>

lemma zs_score_new [simp]: "zs_score new_sorted_set_value = Map.empty"
  by (simp add: zs_score_def new_sorted_set_value_def fun_eq_iff)

text \<open>The score map under a key; a missing key is the empty map.\<close>

definition zset_at :: "instant \<Rightarrow> keyspace \<Rightarrow> bytes \<Rightarrow> (bytes \<rightharpoonup> f64) result" where
  "zset_at now ks key =
     (case kind_at zset_of now ks key of
        Inl e \<Rightarrow> Inl e | Inr None \<Rightarrow> Inr Map.empty | Inr (Some z) \<Rightarrow> Inr (zs_score z))"

text \<open>The members in index order, a list the score map determines.\<close>

definition ranked :: "(bytes \<rightharpoonup> f64) \<Rightarrow> (f64 \<times> bytes) list \<Rightarrow> bool" where
  "ranked sc ps \<longleftrightarrow>
     sorted_wrt (\<lambda>p q. score_key p < score_key q) ps \<and> (\<forall>s m. (s, m) \<in> set ps \<longleftrightarrow> sc m = Some s)"

lemma ranked_zs_list: "zs_wf z \<Longrightarrow> ranked (zs_score z) (zs_list z)"
  by (simp add: ranked_def zs_list_sorted zs_list_iff)

lemma kind_at_zs_wf: "ks_wf ks \<Longrightarrow> kind_at zset_of now ks key = Inr (Some z) \<Longrightarrow> zs_wf z"
  using kind_at_wf [OF _ zset_kind.value_kind_axioms] by fastforce

lemma zset_put: "live now ks' = put key (SortedSetV z) (live now ks) \<Longrightarrow> zset_at now ks' key = Inr (zs_score z)"
  by (simp add: zset_at_def zset_kind.kind_at_put)

lemma zset_put_or_drop:
  assumes "live now ks' = put_or_drop key (SortedSetV z) (live now ks)" and "zs_wf z"
  shows "zset_at now ks' key = Inr (zs_score z)"
    and "live now ks' key = None \<longleftrightarrow> zs_score z = Map.empty"
proof -
  have "zset_at now ks' key = Inr (zs_score z) \<and> (live now ks' key = None \<longleftrightarrow> zs_score z = Map.empty)"
  proof (cases "zs_len z = 0")
    case True
    with assms zs_empty_score [of z] show ?thesis
      by (simp add: put_or_drop_def zset_at_def kind_at_def)
  next
    case False
    with assms zset_put [of now ks' key z ks] zs_empty_score [of z] show ?thesis
      by (auto simp: put_or_drop_def put_def)
  qed
  then show "zset_at now ks' key = Inr (zs_score z)"
    and "live now ks' key = None \<longleftrightarrow> zs_score z = Map.empty" by auto
qed

text \<open>What the abstract set says of the concrete one.\<close>

lemma zset_at_cases:
  assumes "ks_wf ks" and "zset_at now ks key = Inr sc"
  obtains (missing) "kind_at zset_of now ks key = Inr None" "sc = Map.empty" "live now ks key = None"
  | (present) z where "kind_at zset_of now ks key = Inr (Some z)" "sc = zs_score z" "zs_wf z"
      "live now ks key \<noteq> None"
proof (cases "kind_at zset_of now ks key")
  case (Inl e)
  with assms show ?thesis by (simp add: zset_at_def)
next
  case (Inr v)
  show ?thesis
  proof (cases v)
    case None
    then show ?thesis
      using Inr assms(2) by (intro missing) (auto simp: zset_at_def kind_at_def split: option.splits)
  next
    case (Some z)
    then show ?thesis
      using Inr assms kind_at_zs_wf [OF assms(1)]
      by (intro present [of z]) (auto simp: zset_at_def kind_at_def split: option.splits)
  qed
qed

section \<open>ZADD\<close>

text \<open>Whether a pair writes the set.\<close>

definition zadd_writes :: "bool \<Rightarrow> bool \<Rightarrow> bool \<Rightarrow> bool \<Rightarrow> f64 \<Rightarrow> f64 option \<Rightarrow> bool" where
  "zadd_writes nx xx gt lt score old =
     (case old of
        None \<Rightarrow> \<not> xx
      | Some o1 \<Rightarrow> \<not> nx \<and> \<not> (gt \<and> f64_le score o1) \<and> \<not> (lt \<and> f64_le o1 score) \<and> \<not> f64_eq score o1)"

fun zadd_changes :: "bool \<Rightarrow> bool \<Rightarrow> bool \<Rightarrow> bool \<Rightarrow> (f64 \<times> bytes) list \<Rightarrow> (bytes \<rightharpoonup> f64) \<Rightarrow> int" where
  "zadd_changes nx xx gt lt [] sc = 0"
| "zadd_changes nx xx gt lt (p # ps) sc =
     (if zadd_writes nx xx gt lt (fst p) (sc (snd p)) then 1 else 0) +
     zadd_changes nx xx gt lt ps (zadd_map nx xx gt lt p sc)"

lemma zadd_step_changed:
  "fst (snd (zadd_step nx xx gt lt p st)) =
     fst (snd st) + (if zadd_writes nx xx gt lt (fst p) (zs_score (snd (snd st)) (snd p)) then 1 else 0)"
  by (cases p; cases st)
     (auto simp: zadd_step_def zadd_writes_def zs_score_def [symmetric] split: option.splits)

lemma zadd_fold_changed:
  "fst (snd (fold (zadd_step nx xx gt lt) ps st)) =
     fst (snd st) + zadd_changes nx xx gt lt ps (zs_score (snd (snd st)))"
  by (induction ps arbitrary: st) (auto simp: zadd_step_changed zadd_step_refines)

lemma zadd_loop_changed:
  "fst (snd (zadd_loop nx xx gt lt ps z)) = zadd_changes nx xx gt lt ps (zs_score z)"
  by (simp add: zadd_loop_def zadd_fold_changed)

lemma zadd_zset:
  assumes "ks_wf ks" and "zset_at now ks key = Inr sc" and "sc' = fold (zadd_map nx xx gt lt) ms sc"
  shows "fst (zadd now key ms nx xx gt lt ch ks) =
      Inr (if ch then zadd_changes nx xx gt lt ms sc else int (card (dom sc')) - int (card (dom sc)))"
    and "zset_at now (snd (zadd now key ms nx xx gt lt ch ks)) key = Inr sc'"
    and "live now (snd (zadd now key ms nx xx gt lt ch ks)) key = None \<longleftrightarrow> sc' = Map.empty"
proof -
  obtain v where v: "kind_at zset_of now ks key = Inr v"
    and sc: "sc = zs_score (case v of None \<Rightarrow> new_sorted_set_value | Some z \<Rightarrow> z)"
    and wf: "zs_wf (case v of None \<Rightarrow> new_sorted_set_value | Some z \<Rightarrow> z)"
    using assms(1,2)
    by (cases rule: zset_at_cases) auto
  let ?z = "case v of None \<Rightarrow> new_sorted_set_value | Some z \<Rightarrow> z"
  let ?z' = "snd (snd (zadd_loop nx xx gt lt ms ?z))"
  have wf': "zs_wf ?z'"
    using wf by (rule zadd_loop_wf)
  have sc': "zs_score ?z' = sc'"
    by (simp add: zadd_loop_refines sc assms(3))
  show "fst (zadd now key ms nx xx gt lt ch ks) =
      Inr (if ch then zadd_changes nx xx gt lt ms sc else int (card (dom sc')) - int (card (dom sc)))"
    using v zadd_loop_changed [of nx xx gt lt ms ?z] zadd_loop_added [OF wf, of nx xx gt lt ms]
      card_dom_zs [OF wf] card_dom_zs [OF wf']
    by (simp add: zadd_def split_beta Let_def zset_kind.create_typed_result [OF new_entries_data(3)]
        sc [symmetric] sc')
  have view: "live now (snd (zadd now key ms nx xx gt lt ch ks)) = put_or_drop key (SortedSetV ?z') (live now ks)"
    using v by (simp add: zadd_def split_beta Let_def zset_kind.create_typed_drop_view [OF new_entries_data(3)])
  show "zset_at now (snd (zadd now key ms nx xx gt lt ch ks)) key = Inr sc'"
    using zset_put_or_drop(1) [OF view wf'] sc' by simp
  show "live now (snd (zadd now key ms nx xx gt lt ch ks)) key = None \<longleftrightarrow> sc' = Map.empty"
    using zset_put_or_drop(2) [OF view wf'] sc' by simp
qed

text \<open>
  C9. ZADD applies its pairs to the score map in order, each under the flags; it answers the
  growth of the set, or with CH the number of pairs that wrote; and no empty sorted set is
  left behind.
\<close>

theorem zadd_spec:
  assumes "ks_wf ks" and "zset_at now ks key = Inr sc"
  shows "let (r, ks') = zadd now key ms nx xx gt lt ch ks; sc' = fold (zadd_map nx xx gt lt) ms sc
    in r = Inr (if ch then zadd_changes nx xx gt lt ms sc else int (card (dom sc')) - int (card (dom sc))) \<and>
       zset_at now ks' key = Inr sc' \<and> (live now ks' key = None \<longleftrightarrow> sc' = Map.empty)"
  using zadd_zset [OF assms refl, where nx = nx and xx = xx and gt = gt and lt = lt and ms = ms and ch = ch] by (simp add: split_beta Let_def)

theorem zadd_spec_witness:
  "fst (zadd 0 ''z'' [(F64 1, ''a''), (F64 2, ''a'')] False False False False True []) = Inr 2"
  using zadd_spec [of "[]" 0 "''z''" Map.empty "[(F64 1, ''a''), (F64 2, ''a'')]" False False False False True]
  by (simp add: ks_wf_def zset_at_def kind_at_def split_beta Let_def zadd_writes_def zadd_map_def
      zadd_score_def f64_eq_def f64_key_def f64_neg_def f64_mag_def)

lemma zadd_score_flags:
  assumes "\<not> f64_nan score" and "\<not> f64_nan o1"
  shows "\<exists>s. zadd_score nx xx gt lt score (Some o1) = Some s \<and> \<not> f64_nan s \<and> (nx \<longrightarrow> s = o1) \<and>
    (gt \<longrightarrow> of_rank o1 \<le> of_rank s) \<and> (lt \<longrightarrow> of_rank s \<le> of_rank o1)"
  using assms by (auto simp: zadd_score_def f64_le_rank)

lemma zadd_map_flags:
  assumes "\<forall>p \<in> set ps. \<not> f64_nan (fst p)" and "sc m = Some o1" and "\<not> f64_nan o1"
  shows "\<exists>s. fold (zadd_map nx xx gt lt) ps sc m = Some s \<and> \<not> f64_nan s \<and> (nx \<longrightarrow> s = o1) \<and>
    (gt \<longrightarrow> of_rank o1 \<le> of_rank s) \<and> (lt \<longrightarrow> of_rank s \<le> of_rank o1)"
  using assms
proof (induction ps arbitrary: sc o1)
  case Nil
  then show ?case by simp
next
  case (Cons p ps)
  obtain s where s: "zadd_map nx xx gt lt p sc m = Some s" "\<not> f64_nan s" "nx \<longrightarrow> s = o1"
      "gt \<longrightarrow> of_rank o1 \<le> of_rank s" "lt \<longrightarrow> of_rank s \<le> of_rank o1"
    using zadd_score_flags [of "fst p" o1 nx xx gt lt] Cons.prems
    by (cases "snd p = m") (auto simp: zadd_map_def)
  from Cons.IH [of "zadd_map nx xx gt lt p sc" s] Cons.prems(1) s show ?case
    by (auto intro: order_trans)
qed

lemma zadd_map_xx: "fold (zadd_map nx True gt lt) ps sc m = None \<longleftrightarrow> sc m = None"
  by (induction ps arbitrary: sc)
     (auto simp: zadd_map_def zadd_score_def split: option.splits)

text \<open>
  C11. The flags keep their promise over a whole ZADD: with XX no member appears, with NX no
  score changes, with GT no score goes down and with LT none goes up (scores that are
  numbers), and a member never disappears.
\<close>

theorem zadd_flags:
  assumes "ks_wf ks" and "zset_at now ks key = Inr sc"
    and "\<forall>p \<in> set ms. \<not> f64_nan (fst p)" and "\<forall>s \<in> ran sc. \<not> f64_nan s"
  shows "\<exists>sc'. zset_at now (snd (zadd now key ms nx xx gt lt ch ks)) key = Inr sc' \<and>
    dom sc \<subseteq> dom sc' \<and> (xx \<longrightarrow> dom sc' = dom sc) \<and>
    (\<forall>m s s'. sc m = Some s \<longrightarrow> sc' m = Some s' \<longrightarrow>
       (nx \<longrightarrow> s' = s) \<and> (gt \<longrightarrow> f64_le s s') \<and> (lt \<longrightarrow> f64_le s' s))"
proof -
  let ?sc = "fold (zadd_map nx xx gt lt) ms sc"
  have m: "\<exists>s'. ?sc m = Some s' \<and> \<not> f64_nan s' \<and> (nx \<longrightarrow> s' = s) \<and>
      (gt \<longrightarrow> of_rank s \<le> of_rank s') \<and> (lt \<longrightarrow> of_rank s' \<le> of_rank s)" if "sc m = Some s" for m s
    using zadd_map_flags [where ps = ms and sc = sc and m = m and ?o1.0 = s] assms(3,4) that by (auto simp: ran_def)
  have "dom sc \<subseteq> dom ?sc" using m by blast
  moreover have "xx \<longrightarrow> dom ?sc = dom sc"
    using zadd_map_xx [where nx = nx and gt = gt and lt = lt and ps = ms and sc = sc] by (auto simp: dom_def)
  moreover have "(nx \<longrightarrow> s' = s) \<and> (gt \<longrightarrow> f64_le s s') \<and> (lt \<longrightarrow> f64_le s' s)"
    if "sc m = Some s" "?sc m = Some s'" for m s s'
    using m [OF that(1)] that assms(4) by (auto simp: f64_le_rank ran_def)
  ultimately show ?thesis
    using zadd_zset(2) [OF assms(1,2) refl, where nx = nx and xx = xx and gt = gt and lt = lt and ms = ms and ch = ch] by auto
qed

theorem zadd_flags_witness:
  "\<exists>sc'. zset_at 0 (snd (zadd 0 ''z'' [(F64 1, ''a'')] False True True False False
     [(''z'', \<lparr>vdata = SortedSetV (zs_of_list [(F64 5, ''a'')]), expires_at = None\<rparr>)])) ''z'' = Inr sc' \<and>
     dom sc' = {''a''} \<and> (\<forall>s'. sc' ''a'' = Some s' \<longrightarrow> f64_le (F64 5) s')"
proof -
  let ?ks = "[(''z'', \<lparr>vdata = SortedSetV (zs_of_list [(F64 5, ''a'')]), expires_at = None\<rparr>)]"
  have wf: "ks_wf ?ks"
    by (simp add: ks_wf_def ks_all_def hm_wf_def hm_get_def zs_of_list_wf)
  have "zset_at 0 ?ks ''z'' = Inr (zs_score (zs_of_list [(F64 5, ''a'')]))"
    by (simp add: zset_at_def kind_at_def live_def hm_get_def is_expired_def)
  also have "zs_score (zs_of_list [(F64 5, ''a'')]) = [''a'' \<mapsto> F64 5]"
    by (auto simp: zs_score_of_list fun_eq_iff)
  finally have sc: "zset_at 0 ?ks ''z'' = Inr [''a'' \<mapsto> F64 5]" .
  have new: "\<forall>p \<in> set [(F64 1, ''a'')]. \<not> f64_nan (fst p)"
    and old: "\<forall>s \<in> ran [''a'' \<mapsto> F64 5]. \<not> f64_nan s"
    by (simp_all add: f64_nan_def f64_mag_def)
  from zadd_flags [OF wf sc new old, of False True True False False] obtain sc' where
    "zset_at 0 (snd (zadd 0 ''z'' [(F64 1, ''a'')] False True True False False ?ks)) ''z'' = Inr sc'"
    "dom sc' = {''a''}" "\<forall>s'. sc' ''a'' = Some s' \<longrightarrow> f64_le (F64 5) s'"
    by fastforce
  then show ?thesis by blast
qed

section \<open>Ranges\<close>

lemma zs_range_index: "zs_wf z \<Longrightarrow> zs_range start stop z = index_range (zs_list z) start stop"
proof -
  assume wf: "zs_wf z"
  let ?n = "int (length (zs_list z))"
  let ?a = "max 0 (redis_index (length (zs_list z)) start)"
  let ?b = "min (?n - 1) (redis_index (length (zs_list z)) stop)"
  have len: "int (zs_len z) = ?n"
    by (simp add: zs_len_list [OF wf])
  have code: "zs_range start stop z =
      (if ?a > ?b then [] else take (nat (?b - ?a + 1)) (drop (nat ?a) (zs_list z)))"
  proof (cases "zs_list z = []")
    case False
    then have "?n > 0" by simp
    then show ?thesis
      unfolding zs_range_def len Let_def by (auto simp: redis_index_def min_def max_def add.commute [of _ ?n] simp del: length_greater_0_conv)
  qed (simp add: zs_range_def len)
  show ?thesis
  proof (cases "?a > ?b")
    case True
    then show ?thesis
      unfolding code index_range_def by (subst nths_outside) auto
  next
    case False
    have "index_range (zs_list z) start stop = nths (zs_list z) {i. nat ?a \<le> i \<and> i \<le> nat ?b}"
      unfolding index_range_def using False by (intro nths_cong_below) auto
    also have "\<dots> = take (Suc (nat ?b) - nat ?a) (drop (nat ?a) (zs_list z))"
      by (rule nths_interval)
    also have "Suc (nat ?b) - nat ?a = nat (?b - ?a + 1)"
      using False by linarith
    finally show ?thesis
      unfolding code using False by simp
  qed
qed

text \<open>
  C10. The queries answer from one list: the members by score and then by name, which the
  score map determines.  ZRANGE gives the inclusive index range of it with negative indexes
  counting from the end, ZRANGEBYSCORE and ZCOUNT the members whose score lies in the closed
  interval (no member when a bound is a NaN), ZCARD its length.
\<close>

theorem zset_queries:
  assumes "ks_wf ks" and "zset_at now ks key = Inr sc"
  shows "\<exists>ps. ranked sc ps \<and>
    fst (zrange now key start stop ws ks) = Inr (map (with_scores ws) (index_range ps start stop)) \<and>
    fst (zrangebyscore now key lo hi ws ks) =
      Inr (map (with_scores ws) (filter (\<lambda>p. in_score_range lo hi (fst p)) ps)) \<and>
    fst (zcount now key lo hi ks) = Inr (int (length (filter (\<lambda>p. in_score_range lo hi (fst p)) ps))) \<and>
    fst (zcard now key ks) = Inr (int (length ps)) \<and> fst (zscore now key m ks) = Inr (sc m)"
  using assms
proof (cases rule: zset_at_cases)
  case missing
  then have "ranked sc []" by (simp add: ranked_def)
  with missing show ?thesis
    by (intro exI [of _ "[]"])
       (simp add: zrange_def zrangebyscore_def zcount_def zcard_def zscore_def zset_kind.read_typed index_range_def)
next
  case (present z)
  then show ?thesis
    by (intro exI [of _ "zs_list z"])
       (simp add: zrange_def zrangebyscore_def zcount_def zcard_def zscore_def zset_kind.read_typed
         ranked_zs_list zs_range_index zs_scan_filter zs_len_list)
qed

lemma ranked_unique: "ranked sc ps \<Longrightarrow> ranked sc qs \<Longrightarrow> ps = qs"
proof -
  assume ps: "ranked sc ps" and qs: "ranked sc qs"
  have set: "set ps = set qs"
    using ps qs by (auto simp: ranked_def)
  have "map score_key ps = map score_key qs"
    using ps qs set by (intro strict_sorted_equal) (auto simp: ranked_def sorted_wrt_map)
  moreover have "inj_on score_key (set qs)"
    using qs by (auto simp: inj_on_def ranked_def dest!: score_key_inj_member)
  ultimately show ?thesis
    using set by (simp add: inj_on_map_eq_map)
qed

theorem zset_queries_witness:
  "fst (zcard 0 ''z'' [(''z'', \<lparr>vdata = SortedSetV (zs_of_list [(F64 5, ''a'')]), expires_at = None\<rparr>)]) = Inr 1"
proof -
  let ?ks = "[(''z'', \<lparr>vdata = SortedSetV (zs_of_list [(F64 5, ''a'')]), expires_at = None\<rparr>)]"
  have wf: "ks_wf ?ks"
    by (simp add: ks_wf_def ks_all_def hm_wf_def hm_get_def zs_of_list_wf)
  have "zs_score (zs_of_list [(F64 5, ''a'')]) = [''a'' \<mapsto> F64 5]"
    by (auto simp: zs_score_of_list fun_eq_iff)
  then have "zset_at 0 ?ks ''z'' = Inr [''a'' \<mapsto> F64 5]"
    by (simp add: zset_at_def kind_at_def live_def hm_get_def is_expired_def)
  from zset_queries [OF wf this] obtain ps where
    ps: "ranked [''a'' \<mapsto> F64 5] ps" "fst (zcard 0 ''z'' ?ks) = Inr (int (length ps))" by blast
  moreover have "ranked [''a'' \<mapsto> F64 5] [(F64 5, ''a'')]"
    by (auto simp: ranked_def)
  ultimately show ?thesis
    using ranked_unique by fastforce
qed

text \<open>Removing members restricts the score map.\<close>

lemma zrem_zset:
  assumes "ks_wf ks" and "zset_at now ks key = Inr sc"
  shows "fst (zrem now key ms ks) = Inr (int (card (dom sc \<inter> set ms)))"
    and "zset_at now (snd (zrem now key ms ks)) key = Inr (sc |` (- set ms))"
    and "live now (snd (zrem now key ms ks)) key = None \<longleftrightarrow> dom sc \<subseteq> set ms"
proof -
  have restrict: "sc |` (- set ms) = Map.empty \<longleftrightarrow> dom sc \<subseteq> set ms"
    by (auto simp: restrict_map_def fun_eq_iff dom_def)
  have "fst (zrem now key ms ks) = Inr (int (card (dom sc \<inter> set ms))) \<and>
    zset_at now (snd (zrem now key ms ks)) key = Inr (sc |` (- set ms)) \<and>
    (live now (snd (zrem now key ms ks)) key = None \<longleftrightarrow> dom sc \<subseteq> set ms)"
    using assms
  proof (cases rule: zset_at_cases)
    case missing
    then show ?thesis
      by (simp add: zrem_def split_beta Let_def zset_kind.update_typed_result
          zset_kind.update_typed_drop_view zset_at_def kind_at_def)
  next
    case (present z)
    let ?z' = "snd (count_loop zs_remove ms z)"
    have wf': "zs_wf ?z'"
      using present(3) by (rule zrem_loop.loop_inv)
    have sc': "zs_score ?z' = sc |` (- set ms)"
    proof -
      have "zs_score (snd (count_loop zs_remove ms z)) = zs_score z |` (- set ms)" for z
        by (induction ms arbitrary: z) (auto simp: Let_def split_beta fun_eq_iff restrict_map_def)
      with present show ?thesis by simp
    qed
    have "live now (snd (zrem now key ms ks)) = put_or_drop key (SortedSetV ?z') (live now ks)"
      using present(1) by (simp add: zrem_def split_beta Let_def zset_kind.update_typed_drop_view)
    from zset_put_or_drop [OF this wf'] show ?thesis
      using present(1,2) zrem_loop.loop_count [OF present(3)] restrict
      by (simp add: zrem_def split_beta Let_def zset_kind.update_typed_result sc')
  qed
  then show "fst (zrem now key ms ks) = Inr (int (card (dom sc \<inter> set ms)))"
    and "zset_at now (snd (zrem now key ms ks)) key = Inr (sc |` (- set ms))"
    and "live now (snd (zrem now key ms ks)) key = None \<longleftrightarrow> dom sc \<subseteq> set ms" by auto
qed

definition members_in :: "(bytes \<rightharpoonup> f64) \<Rightarrow> f64 \<Rightarrow> f64 \<Rightarrow> bytes set" where
  "members_in sc lo hi = {m. \<exists>s. sc m = Some s \<and> in_score_range lo hi s}"

lemma zs_scan_members:
  assumes "zs_wf z"
  shows "set (map snd (zs_scan lo hi z)) = members_in (zs_score z) lo hi"
    and "distinct (map snd (zs_scan lo hi z))"
proof -
  show "set (map snd (zs_scan lo hi z)) = members_in (zs_score z) lo hi"
  proof -
    have "m \<in> set (map snd (zs_scan lo hi z)) \<longleftrightarrow> (\<exists>s. (s, m) \<in> set (zs_list z) \<and> in_score_range lo hi s)" for m
      unfolding zs_scan_filter [OF assms] by force
    then show ?thesis
      using assms by (auto simp: members_in_def zs_list_iff)
  qed
  show "distinct (map snd (zs_scan lo hi z))"
    using assms by (simp add: zs_scan_filter distinct_map_filter zs_list_members_distinct)
qed

text \<open>ZREMRANGEBYSCORE is ZREM of the members in the range.\<close>

lemma zremrangebyscore_zrem:
  assumes "kind_at zset_of now ks key = Inr (Some z)" and "zs_wf z"
  shows "zremrangebyscore now key lo hi ks = zrem now key (map snd (zs_scan lo hi z)) ks"
proof -
  obtain e where e: "hm_get ks key = Some e" "\<not> is_expired now e" "vdata e = SortedSetV z"
    using assms(1) by (auto simp: zset_kind.kind_at_Some live_Some)
  have "card (dom (zs_score z) \<inter> set (map snd (zs_scan lo hi z))) = length (zs_scan lo hi z)"
  proof -
    have "dom (zs_score z) \<inter> set (map snd (zs_scan lo hi z)) = set (map snd (zs_scan lo hi z))"
      using zs_scan_members(1) [OF assms(2), of lo hi] by (auto simp: members_in_def)
    then show ?thesis
      using distinct_card [OF zs_scan_members(2) [OF assms(2), of lo hi]] by simp
  qed
  then have "fst (count_loop zs_remove (map snd (zs_scan lo hi z)) z) = int (length (zs_scan lo hi z))"
    using zrem_loop.loop_count [OF assms(2)] by simp
  then show ?thesis
    using e by (simp add: zremrangebyscore_def zrem_def update_key_def modify_kind_def zs_fold_remove
        Let_def split_beta)
qed

text \<open>
  ZREMRANGEBYSCORE removes exactly the members whose score is in the closed interval and
  answers their number; the key disappears exactly when no member is left.
\<close>

theorem zremrangebyscore_spec:
  assumes "ks_wf ks" and "zset_at now ks key = Inr sc"
  shows "let (r, ks') = zremrangebyscore now key lo hi ks
    in r = Inr (int (card (members_in sc lo hi))) \<and>
       zset_at now ks' key = Inr (sc |` (- members_in sc lo hi)) \<and>
       (live now ks' key = None \<longleftrightarrow> dom sc \<subseteq> members_in sc lo hi)"
  using assms
proof (cases rule: zset_at_cases)
  case missing
  then show ?thesis
    by (simp add: zremrangebyscore_def split_beta Let_def zset_kind.update_typed_result
        zset_kind.update_typed_drop_view zset_at_def kind_at_def members_in_def)
next
  case (present z)
  let ?ms = "map snd (zs_scan lo hi z)"
  have ms: "set ?ms = members_in sc lo hi"
    using zs_scan_members(1) [OF present(3)] present(2) by simp
  have sub: "dom sc \<inter> members_in sc lo hi = members_in sc lo hi"
    by (auto simp: members_in_def)
  show ?thesis
    using zrem_zset [OF assms, of ?ms]
    unfolding zremrangebyscore_zrem [OF present(1,3)] split_beta Let_def ms sub by simp
qed

theorem zremrangebyscore_spec_witness:
  "live 0 (snd (zremrangebyscore 0 ''z'' f64_NEG_INFINITY f64_INFINITY
     [(''z'', \<lparr>vdata = SortedSetV (zs_of_list [(F64 5, ''a'')]), expires_at = None\<rparr>)])) ''z'' = None"
proof -
  let ?ks = "[(''z'', \<lparr>vdata = SortedSetV (zs_of_list [(F64 5, ''a'')]), expires_at = None\<rparr>)]"
  have wf: "ks_wf ?ks"
    by (simp add: ks_wf_def ks_all_def hm_wf_def hm_get_def zs_of_list_wf)
  have "zs_score (zs_of_list [(F64 5, ''a'')]) = [''a'' \<mapsto> F64 5]"
    by (auto simp: zs_score_of_list fun_eq_iff)
  then have at: "zset_at 0 ?ks ''z'' = Inr [''a'' \<mapsto> F64 5]"
    by (simp add: zset_at_def kind_at_def live_def hm_get_def is_expired_def)
  have "in_score_range f64_NEG_INFINITY f64_INFINITY (F64 5)"
    by (simp add: in_score_range_def f64_le_def f64_nan_def f64_key_def f64_neg_def f64_mag_def
        f64_NEG_INFINITY_def f64_INFINITY_def)
  then have "dom [''a'' \<mapsto> F64 5] \<subseteq> members_in [''a'' \<mapsto> F64 5] f64_NEG_INFINITY f64_INFINITY"
    by (simp add: members_in_def)
  with zremrangebyscore_spec [OF wf at, of f64_NEG_INFINITY f64_INFINITY] show ?thesis
    by (simp add: split_beta Let_def)
qed

text \<open>
  ZRANGESTORE replaces the destination by the members of the source in the range, with
  their scores and without a deadline, whatever the destination held and also when it is the
  source itself; an empty range deletes the destination, and only a source of another type
  is an error.
\<close>

theorem zrangestore_spec:
  assumes "ks_wf ks" and "zset_at now ks src = Inr sc"
  shows "let (r, ks') = zrangestore now dst src lo hi ks
    in r = Inr (int (card (members_in sc lo hi))) \<and>
       zset_at now ks' dst = Inr (sc |` members_in sc lo hi) \<and>
       (live now ks' dst = None \<longleftrightarrow> members_in sc lo hi = {}) \<and>
       (\<forall>e. live now ks' dst = Some e \<longrightarrow> expires_at e = None) \<and>
       (\<forall>j. j \<noteq> dst \<longrightarrow> live now ks' j = live now ks j)"
  using assms
proof (cases rule: zset_at_cases)
  case missing
  then show ?thesis
    by (simp add: zrangestore_def split_beta Let_def zset_kind.read_typed read_key_view live_remove
        zset_at_def kind_at_def members_in_def)
next
  case (present z)
  let ?ps = "zs_scan lo hi z"
  have ms: "set (map snd ?ps) = members_in sc lo hi" and dist: "distinct (map snd ?ps)"
    using zs_scan_members [OF present(3)] present(2) by auto
  have len: "length ?ps = card (members_in sc lo hi)"
    using distinct_card [OF dist] ms by simp
  have score: "zs_score (zs_of_list ?ps) = sc |` members_in sc lo hi"
  proof
    fix m
    have mem: "(m, s) \<in> set (map (\<lambda>(s, m). (m, s)) ?ps) \<longleftrightarrow> sc m = Some s \<and> in_score_range lo hi s" for s
      using present(2,3) by (force simp: zs_scan_filter zs_list_iff)
    have dk: "distinct (map fst (map (\<lambda>(s, m). (m, s)) ?ps))"
      using dist by (simp add: comp_def split_beta)
    have "zs_score (zs_of_list ?ps) m = Some s \<longleftrightarrow> sc m = Some s \<and> in_score_range lo hi s" for s
      by (simp only: zs_score_of_list [OF dist] map_of_eq_Some_iff [OF dk] mem)
    then show "zs_score (zs_of_list ?ps) m = (sc |` members_in sc lo hi) m"
      by (cases "zs_score (zs_of_list ?ps) m") (auto simp: restrict_map_def members_in_def)
  qed
  show ?thesis
  proof (cases "?ps = []")
    case True
    then have "members_in sc lo hi = {}" using ms by simp
    with True present(1) show ?thesis
      by (simp add: zrangestore_def split_beta Let_def zset_kind.read_typed read_key_view live_remove
          zset_at_def kind_at_def)
  next
    case False
    then have ne: "members_in sc lo hi \<noteq> {}" using ms by force
    let ?e = "\<lparr>vdata = SortedSetV (zs_of_list ?ps), expires_at = None\<rparr>"
    have "zrangestore now dst src lo hi ks =
        (Inr (int (card (members_in sc lo hi))),
         hm_insert dst ?e (snd (read_key now src (Inr []) (with_kind zset_of (\<lambda>z. Inr (zs_scan lo hi z))) ks)))"
      using False present(1) len [symmetric]
      by (simp add: zrangestore_def split_beta Let_def zset_kind.read_typed)
    then show ?thesis
      using ne by (simp add: read_key_view live_insert zset_at_def kind_at_def is_expired_def score)
  qed
qed

theorem zrangestore_spec_witness:
  "live 0 (snd (zrangestore 0 ''d'' ''z'' f64_NEG_INFINITY f64_INFINITY [])) ''d'' = None"
  using zrangestore_spec [of "[]" 0 "''z''" Map.empty "''d''" f64_NEG_INFINITY f64_INFINITY]
  by (simp add: ks_wf_def zset_at_def kind_at_def members_in_def split_beta Let_def)

end
