(* ===== verification/List_Ops.thy ===== *)
theory List_Ops
  imports Keyspace "HOL-Library.Multiset"
begin

text \<open>
  The list commands of \<^verbatim>\<open>src/src/store.rs\<close>: LPUSH, RPUSH, LLEN, LINDEX, LRANGE, LPOP,
  RPOP, LREM, LSET, LTRIM, LINSERT, LMOVE, RPOPLPUSH and the polls of BLPOP and BRPOP.

  A \<open>VecDeque\<close> is a list whose head is index 0.  A command that may wake the blocked
  readers also answers whether it called \<open>notify_waiters\<close>.
\<close>

section \<open>Deques and results\<close>

datatype lpop_result = PopNil | PopSingle bytes | PopArray "bytes list"

fun pop_end :: "list_end \<Rightarrow> 'a list \<Rightarrow> 'a option \<times> 'a list" where
  "pop_end e [] = (None, [])"
| "pop_end LeftEnd (x # xs) = (Some x, xs)"
| "pop_end RightEnd (x # xs) = (Some (last (x # xs)), butlast (x # xs))"

fun push_end :: "list_end \<Rightarrow> 'a \<Rightarrow> 'a list \<Rightarrow> 'a list" where
  "push_end LeftEnd x xs = x # xs"
| "push_end RightEnd x xs = xs @ [x]"

text \<open>\<open>(0..n).map(|_| list.pop_front())\<close>, and the same at the tail.\<close>

fun pop_many :: "list_end \<Rightarrow> nat \<Rightarrow> 'a list \<Rightarrow> 'a list \<times> 'a list" where
  "pop_many e 0 xs = ([], xs)"
| "pop_many e (Suc n) xs =
     (case pop_end e xs of
        (None, ys) \<Rightarrow> ([], ys)
      | (Some x, ys) \<Rightarrow> (let (popped, zs) = pop_many e n ys in (x # popped, zs)))"

text \<open>
  The pattern of the commands that change a list in place: an expired entry is removed and
  counts as missing, another type is WRONGTYPE, and the list is stored back or, when the
  operation answers \<open>None\<close>, its key is removed.
\<close>

definition update_list_key :: "instant \<Rightarrow> bytes \<Rightarrow> 'r result \<Rightarrow> (bytes list \<Rightarrow> 'r result \<times> bytes list option) \<Rightarrow>
    keyspace \<Rightarrow> 'r result \<times> keyspace" where
  "update_list_key now key dflt f ks =
     (case hm_get ks key of
        None \<Rightarrow> (dflt, ks)
      | Some e \<Rightarrow>
          if is_expired now e then (dflt, hm_remove key ks)
          else (case vdata e of
                  ListV xs \<Rightarrow>
                    (case f xs of
                       (r, Some ys) \<Rightarrow> (r, hm_insert key (e\<lparr>vdata := ListV ys\<rparr>) ks)
                     | (r, None) \<Rightarrow> (r, hm_remove key ks))
                | _ \<Rightarrow> (Inl WrongType, ks)))"

definition unless_empty :: "'a list \<Rightarrow> 'a list option" where
  "unless_empty xs = (if xs = [] then None else Some xs)"

section \<open>The commands\<close>

definition notified :: "'r result \<Rightarrow> bool" where
  "notified r = (case r of Inl _ \<Rightarrow> False | Inr _ \<Rightarrow> True)"

definition wrong_arity :: "string \<Rightarrow> store_error" where
  "wrong_arity cmd =
     SyntaxErr (''ERR wrong number of arguments for '' @ [CHR 0x27] @ cmd @ [CHR 0x27] @ '' command'')"

definition lpush :: "instant \<Rightarrow> bytes \<Rightarrow> bytes list \<Rightarrow> keyspace \<Rightarrow> i64 result \<times> bool \<times> keyspace" where
  "lpush now key vs ks =
     (if vs = [] then (Inl (wrong_arity ''lpush''), False, ks)
      else
        let (r, ks') =
          create_key now key new_list
            (modify_kind list_of ListV
              (\<lambda>xs. let ys = fold (push_end LeftEnd) vs xs in (Inr (int (length ys)), ys))) ks
        in (r, notified r, ks'))"

definition rpush :: "instant \<Rightarrow> bytes \<Rightarrow> bytes list \<Rightarrow> keyspace \<Rightarrow> i64 result \<times> bool \<times> keyspace" where
  "rpush now key vs ks =
     (if vs = [] then (Inl (wrong_arity ''rpush''), False, ks)
      else
        let (r, ks') =
          create_key now key new_list
            (modify_kind list_of ListV
              (\<lambda>xs. let ys = fold (push_end RightEnd) vs xs in (Inr (int (length ys)), ys))) ks
        in (r, notified r, ks'))"

definition llen :: "instant \<Rightarrow> bytes \<Rightarrow> keyspace \<Rightarrow> i64 result \<times> keyspace" where
  "llen now key = read_key now key (Inr 0) (with_kind list_of (\<lambda>xs. Inr (int (length xs))))"

definition lindex :: "instant \<Rightarrow> bytes \<Rightarrow> i64 \<Rightarrow> keyspace \<Rightarrow> bytes option result \<times> keyspace" where
  "lindex now key index =
     read_key now key (Inr None)
       (with_kind list_of
         (\<lambda>xs. case list_position (length xs) index of None \<Rightarrow> Inr None | Some i \<Rightarrow> Inr (Some (xs ! i))))"

definition lrange :: "instant \<Rightarrow> bytes \<Rightarrow> i64 \<Rightarrow> i64 \<Rightarrow> keyspace \<Rightarrow> bytes list result \<times> keyspace" where
  "lrange now key start stop =
     read_key now key (Inr [])
       (with_kind list_of
         (\<lambda>xs. case normalize_range_indices start stop (length xs) of
                 None \<Rightarrow> Inr []
               | Some (s, e) \<Rightarrow> Inr (take (e - s + 1) (drop s xs))))"

text \<open>LPOP and RPOP; a count of 0 answers after the type check, without touching the list.\<close>

definition pop_list :: "list_end \<Rightarrow> usize option \<Rightarrow> bytes list \<Rightarrow> lpop_result result \<times> bytes list option" where
  "pop_list side cnt xs =
     (if cnt = Some 0 then (Inr (PopArray []), Some xs)
      else
        case cnt of
          None \<Rightarrow>
            (case pop_end side xs of
               (Some v, ys) \<Rightarrow> (Inr (PopSingle v), unless_empty ys)
             | (None, ys) \<Rightarrow> (Inr PopNil, unless_empty ys))
        | Some n \<Rightarrow>
            (let actual = min n (length xs); (popped, ys) = pop_many side actual xs
             in (Inr (PopArray popped), unless_empty ys)))"

definition lpop :: "instant \<Rightarrow> bytes \<Rightarrow> usize option \<Rightarrow> keyspace \<Rightarrow> lpop_result result \<times> keyspace" where
  "lpop now key cnt = update_list_key now key (Inr PopNil) (pop_list LeftEnd cnt)"

definition rpop :: "instant \<Rightarrow> bytes \<Rightarrow> usize option \<Rightarrow> keyspace \<Rightarrow> lpop_result result \<times> keyspace" where
  "rpop now key cnt = update_list_key now key (Inr PopNil) (pop_list RightEnd cnt)"

text \<open>LREM: \<open>retain\<close> with a counter, removal by descending index, and plain \<open>retain\<close>.\<close>

fun retain_upto :: "nat \<Rightarrow> bytes \<Rightarrow> nat \<Rightarrow> bytes list \<Rightarrow> nat \<times> bytes list" where
  "retain_upto target v removed [] = (removed, [])"
| "retain_upto target v removed (x # xs) =
     (if removed < target \<and> x = v then retain_upto target v (removed + 1) xs
      else (let (n, ys) = retain_upto target v removed xs in (n, x # ys)))"

definition remove_at :: "nat \<Rightarrow> 'a list \<Rightarrow> 'a list" where
  "remove_at i xs = take i xs @ drop (Suc i) xs"

definition lrem_tail_indices :: "nat \<Rightarrow> bytes \<Rightarrow> bytes list \<Rightarrow> nat list" where
  "lrem_tail_indices target v xs =
     take target (map fst (filter (\<lambda>p. snd p = v) (rev (enumerate 0 xs))))"

definition lrem_list :: "i64 \<Rightarrow> bytes \<Rightarrow> bytes list \<Rightarrow> nat \<times> bytes list" where
  "lrem_list cnt v xs =
     (case parse_lrem_count cnt of
        HeadDir target \<Rightarrow> retain_upto target v 0 xs
      | TailDir target \<Rightarrow>
          (let indices = lrem_tail_indices target v xs in (length indices, fold remove_at indices xs))
      | AllDir \<Rightarrow> (let ys = filter (\<lambda>x. x \<noteq> v) xs in (length xs - length ys, ys)))"

definition lrem :: "instant \<Rightarrow> bytes \<Rightarrow> i64 \<Rightarrow> bytes \<Rightarrow> keyspace \<Rightarrow> i64 result \<times> keyspace" where
  "lrem now key cnt v =
     update_list_key now key (Inr 0)
       (\<lambda>xs. let (removed, ys) = lrem_list cnt v xs in (Inr (int removed), unless_empty ys))"

definition lset :: "instant \<Rightarrow> bytes \<Rightarrow> i64 \<Rightarrow> bytes \<Rightarrow> keyspace \<Rightarrow> unit result \<times> keyspace" where
  "lset now key index v =
     update_list_key now key (Inl NoSuchKey)
       (\<lambda>xs. case list_position (length xs) index of
               None \<Rightarrow> (Inl (SyntaxErr ''ERR index out of range''), Some xs)
             | Some i \<Rightarrow> (Inr (), Some (xs[i := v])))"

definition ltrim :: "instant \<Rightarrow> bytes \<Rightarrow> i64 \<Rightarrow> i64 \<Rightarrow> keyspace \<Rightarrow> unit result \<times> keyspace" where
  "ltrim now key start stop =
     update_list_key now key (Inr ())
       (\<lambda>xs. case normalize_range_indices start stop (length xs) of
               None \<Rightarrow> (Inr (), None)
             | Some (s, e) \<Rightarrow> (Inr (), unless_empty (take (e - s + 1) (drop s xs))))"

fun find_position :: "('a \<Rightarrow> bool) \<Rightarrow> 'a list \<Rightarrow> nat option" where
  "find_position P [] = None"
| "find_position P (x # xs) = (if P x then Some 0 else map_option Suc (find_position P xs))"

definition insert_at :: "nat \<Rightarrow> 'a \<Rightarrow> 'a list \<Rightarrow> 'a list" where
  "insert_at i x xs = take i xs @ x # drop i xs"

definition linsert :: "instant \<Rightarrow> bytes \<Rightarrow> insert_position \<Rightarrow> bytes \<Rightarrow> bytes \<Rightarrow> keyspace \<Rightarrow> i64 result \<times> keyspace" where
  "linsert now key place pivot v =
     update_list_key now key (Inr 0)
       (\<lambda>xs. case find_position (\<lambda>x. x = pivot) xs of
               None \<Rightarrow> (Inr (- 1), Some xs)
             | Some pos \<Rightarrow>
                 (let i = (case place of Before \<Rightarrow> pos | After \<Rightarrow> pos + 1);
                      ys = insert_at i v xs
                  in (Inr (int (length ys)), Some ys)))"

text \<open>
  LMOVE: the source decides first, then the type of the destination, and only then is an
  element popped; a source that becomes empty is removed unless it is the destination.
\<close>

definition lmove_atomic :: "instant \<Rightarrow> bytes \<Rightarrow> bytes \<Rightarrow> list_end \<Rightarrow> list_end \<Rightarrow> keyspace \<Rightarrow>
    bytes option result \<times> bool \<times> keyspace" where
  "lmove_atomic now src dst src_from dst_to ks =
     (let ks1 = expire_key now src ks;
          ks2 = (if src \<noteq> dst then expire_key now dst ks1 else ks1)
      in (case hm_get ks2 src of
            None \<Rightarrow> (Inr None, False, ks2)
          | Some e \<Rightarrow>
              (case vdata e of
                 ListV xs \<Rightarrow>
                   if xs = [] then (Inr None, False, ks2)
                   else if src \<noteq> dst \<and>
                     (case hm_get ks2 dst of Some d \<Rightarrow> list_of (vdata d) = None | None \<Rightarrow> False)
                   then (Inl WrongType, False, ks2)
                   else
                     (case pop_end src_from xs of
                        (None, ys) \<Rightarrow> (Inr None, False, ks2)
                      | (Some popped, ys) \<Rightarrow>
                          (let ks3 = hm_insert src (e\<lparr>vdata := ListV ys\<rparr>) ks2;
                               ks4 = (if ys = [] \<and> src \<noteq> dst then hm_remove src ks3 else ks3);
                               d = (case hm_get ks4 dst of Some d \<Rightarrow> d | None \<Rightarrow> new_list)
                           in (case vdata d of
                                 ListV zs \<Rightarrow>
                                   (Inr (Some popped), True,
                                    hm_insert dst (d\<lparr>vdata := ListV (push_end dst_to popped zs)\<rparr>) ks4)
                               | _ \<Rightarrow> (Inl WrongType, False, ks4))))
               | _ \<Rightarrow> (Inl WrongType, False, ks2))))"

definition rpoplpush_atomic :: "instant \<Rightarrow> bytes \<Rightarrow> bytes \<Rightarrow> keyspace \<Rightarrow> bytes option result \<times> bool \<times> keyspace" where
  "rpoplpush_atomic now src dst = lmove_atomic now src dst RightEnd LeftEnd"

text \<open>One scan of BLPOP or BRPOP over its keys.\<close>

fun pop_poll :: "list_end \<Rightarrow> instant \<Rightarrow> bytes list \<Rightarrow> keyspace \<Rightarrow> (bytes \<times> bytes) option result \<times> keyspace" where
  "pop_poll side now [] ks = (Inr None, ks)"
| "pop_poll side now (k # keys) ks =
     (let ks1 = expire_key now k ks
      in (case hm_get ks1 k of
            None \<Rightarrow> pop_poll side now keys ks1
          | Some e \<Rightarrow>
              (case vdata e of
                 ListV xs \<Rightarrow>
                   (case pop_end side xs of
                      (Some v, ys) \<Rightarrow>
                        (Inr (Some (k, v)),
                         if ys = [] then hm_remove k ks1 else hm_insert k (e\<lparr>vdata := ListV ys\<rparr>) ks1)
                    | (None, _) \<Rightarrow> pop_poll side now keys ks1)
               | _ \<Rightarrow> (Inl WrongType, ks1))))"

definition blpop_poll :: "instant \<Rightarrow> bytes list \<Rightarrow> keyspace \<Rightarrow> (bytes \<times> bytes) option result \<times> keyspace" where
  "blpop_poll = pop_poll LeftEnd"

definition brpop_poll :: "instant \<Rightarrow> bytes list \<Rightarrow> keyspace \<Rightarrow> (bytes \<times> bytes) option result \<times> keyspace" where
  "brpop_poll = pop_poll RightEnd"

section \<open>The deque operations\<close>

definition from_end :: "list_end \<Rightarrow> 'a list \<Rightarrow> 'a list" where
  "from_end side xs = (case side of LeftEnd \<Rightarrow> xs | RightEnd \<Rightarrow> rev xs)"

lemma from_end_inv [simp]: "from_end side (from_end side xs) = xs"
  by (simp add: from_end_def split: list_end.splits)

lemma from_end_empty [simp]: "from_end side [] = []"
  by (simp add: from_end_def split: list_end.splits)

lemma from_end_Nil [simp]: "from_end side xs = [] \<longleftrightarrow> xs = []"
  by (simp add: from_end_def split: list_end.splits)

lemma length_from_end [simp]: "length (from_end side xs) = length xs"
  by (simp add: from_end_def split: list_end.splits)

lemma mset_from_end [simp]: "mset (from_end side xs) = mset xs"
  by (simp add: from_end_def split: list_end.splits)

lemma pop_end_from_end:
  "pop_end side xs = (case from_end side xs of [] \<Rightarrow> (None, []) | x # ys \<Rightarrow> (Some x, from_end side ys))"
proof (cases xs rule: rev_cases)
  case (snoc ys y)
  then show ?thesis
    by (cases side; cases ys) (auto simp: from_end_def)
qed (auto simp: from_end_def split: list_end.splits)

lemma push_end_from_end: "push_end side x xs = from_end side (x # from_end side xs)"
  by (cases side) (auto simp: from_end_def)

lemma pop_push_end: "pop_end side (push_end side x xs) = (Some x, xs)"
  by (simp add: pop_end_from_end push_end_from_end)

lemma pop_many_from_end:
  "pop_many side n xs = (take n (from_end side xs), from_end side (drop n (from_end side xs)))"
proof (induction n arbitrary: xs)
  case (Suc n)
  then show ?case
    by (cases "from_end side xs") (simp_all add: pop_end_from_end from_end_def split: list_end.splits)
qed simp

lemma fold_push_left: "fold (push_end LeftEnd) vs xs = rev vs @ xs"
  by (induction vs arbitrary: xs) auto

lemma fold_push_right: "fold (push_end RightEnd) vs xs = xs @ vs"
  by (induction vs arbitrary: xs) auto

text \<open>LREM against the removal of the first \<open>n\<close> occurrences.\<close>

fun remove_first :: "nat \<Rightarrow> 'a \<Rightarrow> 'a list \<Rightarrow> 'a list" where
  "remove_first 0 v xs = xs"
| "remove_first (Suc n) v [] = []"
| "remove_first (Suc n) v (x # xs) = (if x = v then remove_first n v xs else x # remove_first (Suc n) v xs)"

lemma remove_first_Nil [simp]: "remove_first n v [] = []"
  by (cases n) auto

lemma retain_upto_spec:
  "r \<le> target \<Longrightarrow>
   retain_upto target v r xs = (r + min (target - r) (count_list xs v), remove_first (target - r) v xs)"
proof (induction xs arbitrary: r)
  case (Cons x xs)
  show ?case
  proof (cases "r < target")
    case True
    then obtain n where n: "target - r = Suc n" "target - Suc r = n"
      by (metis Suc_diff_Suc)
    with Cons True show ?thesis by (simp add: min_def)
  next
    case False
    with Cons show ?thesis by simp
  qed
qed simp

lemma remove_at_append: "i < length ys \<Longrightarrow> remove_at i (ys @ zs) = remove_at i ys @ zs"
  by (simp add: remove_at_def)

lemma length_remove_at: "i < length ys \<Longrightarrow> length (remove_at i ys) = length ys - 1"
  by (simp add: remove_at_def)

lemma fold_remove_at_append:
  "sorted_wrt (>) is \<Longrightarrow> \<forall>i \<in> set is. i < length ys \<Longrightarrow>
   fold remove_at is (ys @ zs) = fold remove_at is ys @ zs"
proof (induction "is" arbitrary: ys)
  case (Cons i "is")
  then have "\<forall>j \<in> set is. j < length (remove_at i ys)"
    by (auto simp: length_remove_at)
  with Cons show ?case by (simp add: remove_at_append)
qed simp

lemma tail_indices_0 [simp]: "lrem_tail_indices 0 v xs = []"
  by (simp add: lrem_tail_indices_def)

lemma tail_indices_Nil [simp]: "lrem_tail_indices t v [] = []"
  by (simp add: lrem_tail_indices_def)

lemma take_tail_indices [simp]: "take t (lrem_tail_indices t v xs) = lrem_tail_indices t v xs"
  by (simp add: lrem_tail_indices_def)

lemma tail_indices_snoc:
  "lrem_tail_indices t v (ys @ [y]) =
     (if y = v then take t (length ys # lrem_tail_indices (t - 1) v ys) else lrem_tail_indices t v ys)"
  by (cases t) (auto simp: lrem_tail_indices_def enumerate_append_eq)

lemma tail_indices_bounds:
  "sorted_wrt (>) (lrem_tail_indices t v xs) \<and> (\<forall>i \<in> set (lrem_tail_indices t v xs). i < length xs)"
proof (induction xs arbitrary: t rule: rev_induct)
  case (snoc x xs)
  show ?case
    using snoc [of t] snoc [of "t - 1"] by (cases t) (auto simp: tail_indices_snoc less_Suc_eq)
qed simp

lemma lrem_tail_spec: "fold remove_at (lrem_tail_indices t v xs) xs = rev (remove_first t v (rev xs))"
proof (induction xs arbitrary: t rule: rev_induct)
  case (snoc x xs)
  have "fold remove_at (lrem_tail_indices n v xs) (xs @ [x]) = rev (remove_first n v (rev xs)) @ [x]" for n
    using fold_remove_at_append [of "lrem_tail_indices n v xs" xs "[x]"] tail_indices_bounds [of n v xs] snoc
    by simp
  moreover have "remove_at (length xs) (xs @ [y]) = xs" for y
    by (simp add: remove_at_def)
  ultimately show ?case
    using snoc by (cases t) (simp_all add: tail_indices_snoc)
qed simp

lemma length_tail_indices: "length (lrem_tail_indices t v xs) = min t (count_list xs v)"
proof (induction xs arbitrary: t rule: rev_induct)
  case (snoc x xs)
  then show ?case by (cases t) (auto simp: tail_indices_snoc)
qed simp

definition lrem_result :: "i64 \<Rightarrow> bytes \<Rightarrow> bytes list \<Rightarrow> bytes list" where
  "lrem_result cnt v xs =
     (if cnt > 0 then remove_first (nat cnt) v xs
      else if cnt < 0 then rev (remove_first (nat (- cnt)) v (rev xs))
      else filter (\<lambda>x. x \<noteq> v) xs)"

lemma count_list_filter: "length xs - length (filter (\<lambda>x. x \<noteq> v) xs) = count_list xs v"
proof -
  have "length xs = count_list xs v + length (filter (\<lambda>x. x \<noteq> v) xs)"
    by (induction xs) auto
  then show ?thesis by simp
qed

lemma lrem_list_spec:
  "lrem_list cnt v xs =
     (if cnt = 0 then count_list xs v else min (nat \<bar>cnt\<bar>) (count_list xs v), lrem_result cnt v xs)"
  by (auto simp: lrem_list_def lrem_result_def parse_lrem_count_def retain_upto_spec lrem_tail_spec
      length_tail_indices Let_def count_list_filter)

lemma find_position_spec:
  "(case find_position P xs of
      None \<Rightarrow> \<forall>x \<in> set xs. \<not> P x
    | Some i \<Rightarrow> i < length xs \<and> P (xs ! i) \<and> (\<forall>j < i. \<not> P (xs ! j)))"
  by (induction xs) (auto simp: nth_Cons less_Suc_eq_0_disj split: option.splits nat.splits)

lemma find_position_first: "x \<notin> set ys \<Longrightarrow> find_position (\<lambda>y. y = x) (ys @ x # zs) = Some (length ys)"
  by (induction ys) auto

lemma find_position_None: "x \<notin> set ys \<Longrightarrow> find_position (\<lambda>y. y = x) ys = None"
  by (induction ys) auto

section \<open>The list under a key\<close>

text \<open>A missing key is the empty list.\<close>

definition list_at :: "instant \<Rightarrow> keyspace \<Rightarrow> bytes \<Rightarrow> bytes list result" where
  "list_at now ks key =
     (case kind_at list_of now ks key of
        Inl e \<Rightarrow> Inl e | Inr None \<Rightarrow> Inr [] | Inr (Some xs) \<Rightarrow> Inr xs)"

text \<open>Storing a list, or removing the key of an empty one.\<close>

definition put_list :: "bytes \<Rightarrow> bytes list \<Rightarrow> (bytes \<rightharpoonup> value_entry) \<Rightarrow> (bytes \<rightharpoonup> value_entry)" where
  "put_list key xs view = (if xs = [] then view(key := None) else put key (ListV xs) view)"

lemma list_key_result:
  "fst (update_list_key now key dflt f ks) =
     (case kind_at list_of now ks key of Inl e \<Rightarrow> Inl e | Inr None \<Rightarrow> dflt | Inr (Some xs) \<Rightarrow> fst (f xs))"
  by (auto simp: update_list_key_def kind_at_def live_def split: option.splits value_data.splits prod.splits)

lemma list_key_view:
  "live now (snd (update_list_key now key dflt f ks)) =
     (case kind_at list_of now ks key of
        Inr (Some xs) \<Rightarrow>
          (case snd (f xs) of
             Some ys \<Rightarrow> put key (ListV ys) (live now ks)
           | None \<Rightarrow> (live now ks)(key := None))
      | _ \<Rightarrow> live now ks)"
proof (cases "live now ks key")
  case None
  then show ?thesis
    by (auto simp: update_list_key_def kind_at_def live_remove live_def fun_eq_iff split: option.splits)
next
  case (Some e)
  then have e: "hm_get ks key = Some e" "\<not> is_expired now e" by (auto simp: live_Some)
  show ?thesis
  proof (cases "vdata e")
    case (ListV xs)
    obtain r d where rd: "f xs = (r, d)" by force
    show ?thesis
      using e Some ListV rd
      by (cases d) (auto simp: update_list_key_def kind_at_def live_insert live_remove put_def)
  qed (use e Some in \<open>auto simp: update_list_key_def kind_at_def\<close>)
qed

lemma list_put: "live now ks' = put key (ListV xs) (live now ks) \<Longrightarrow> list_at now ks' key = Inr xs"
  by (simp add: list_at_def list_kind.kind_at_put)

lemma list_put_list:
  assumes "live now ks' = put_list key xs (live now ks)"
  shows "list_at now ks' key = Inr xs"
  using assms list_put [of now ks' key xs ks]
  by (cases "xs = []") (auto simp: put_list_def list_at_def kind_at_def)

lemma list_atE:
  assumes "list_at now ks key = Inr xs"
  obtains (missing) "kind_at list_of now ks key = Inr None" "xs = []" "live now ks key = None"
  | (present) "kind_at list_of now ks key = Inr (Some xs)" "live now ks key \<noteq> None"
  using assms
  by (auto simp: list_at_def kind_at_def split: option.splits sum.splits)

lemma put_list_Nil: "view key = None \<Longrightarrow> put_list key [] view = view"
  by (auto simp: put_list_def)

lemma unless_empty_view:
  "(case unless_empty ys of
      Some zs \<Rightarrow> put key (ListV zs) view | None \<Rightarrow> view(key := None)) = put_list key ys view"
  by (simp add: unless_empty_def put_list_def)

section \<open>Well-formedness\<close>

lemma ks_wf_list_update [wf_intros]: "ks_wf ks \<Longrightarrow> ks_wf (snd (update_list_key now key dflt f ks))"
  by (auto simp: update_list_key_def ks_wf_remove intro!: ks_wf_insert
      split: option.splits value_data.splits prod.splits)

lemma ks_wf_pop_poll: "ks_wf ks \<Longrightarrow> ks_wf (snd (pop_poll side now keys ks))"
proof (induction keys arbitrary: ks)
  case (Cons k keys)
  then have wf: "ks_wf (expire_key now k ks)" by (simp add: ks_wf_expire)
  with Cons.IH [OF wf] show ?case
    by (auto simp: Let_def ks_wf_remove ks_wf_insert split: option.splits value_data.splits prod.splits)
qed simp

lemma ks_wf_lmove [wf_intros]: "ks_wf ks \<Longrightarrow> ks_wf (snd (snd (lmove_atomic now src dst a b ks)))"
  by (auto simp: lmove_atomic_def Let_def ks_wf_expire ks_wf_remove ks_wf_insert
      split: option.splits value_data.splits prod.splits)

lemma list_commands_wf [wf_intros]:
  "ks_wf ks \<Longrightarrow> ks_wf (snd (snd (lpush now key vs ks)))"
  "ks_wf ks \<Longrightarrow> ks_wf (snd (snd (rpush now key vs ks)))"
  "ks_wf ks \<Longrightarrow> ks_wf (snd (llen now key ks))"
  "ks_wf ks \<Longrightarrow> ks_wf (snd (lindex now key i ks))"
  "ks_wf ks \<Longrightarrow> ks_wf (snd (lrange now key i j ks))"
  "ks_wf ks \<Longrightarrow> ks_wf (snd (lpop now key cnt ks))"
  "ks_wf ks \<Longrightarrow> ks_wf (snd (rpop now key cnt ks))"
  "ks_wf ks \<Longrightarrow> ks_wf (snd (lrem now key n v ks))"
  "ks_wf ks \<Longrightarrow> ks_wf (snd (lset now key i v ks))"
  "ks_wf ks \<Longrightarrow> ks_wf (snd (ltrim now key i j ks))"
  "ks_wf ks \<Longrightarrow> ks_wf (snd (linsert now key place pivot v ks))"
  "ks_wf ks \<Longrightarrow> ks_wf (snd (snd (rpoplpush_atomic now src dst ks)))"
  "ks_wf ks \<Longrightarrow> ks_wf (snd (blpop_poll now keys ks))"
  "ks_wf ks \<Longrightarrow> ks_wf (snd (brpop_poll now keys ks))"
  by (auto simp: lpush_def rpush_def llen_def lindex_def lrange_def lpop_def rpop_def lrem_def lset_def
      ltrim_def linsert_def rpoplpush_atomic_def blpop_poll_def brpop_poll_def split_beta Let_def
      ks_wf_read ks_wf_list_update ks_wf_lmove ks_wf_pop_poll intro!: list_kind.ks_wf_create)

text \<open>No list command leaves an empty list under a key.\<close>

definition no_empty_list :: "keyspace \<Rightarrow> bool" where
  "no_empty_list ks \<longleftrightarrow> ks_all (\<lambda>d. d \<noteq> ListV []) ks"

lemma no_empty_list_insert: "no_empty_list ks \<Longrightarrow> vdata e \<noteq> ListV [] \<Longrightarrow> no_empty_list (hm_insert key e ks)"
  by (simp add: no_empty_list_def ks_all_insert)

lemma no_empty_list_remove: "no_empty_list ks \<Longrightarrow> no_empty_list (hm_remove key ks)"
  by (simp add: no_empty_list_def ks_all_remove)

lemma no_empty_list_expire: "no_empty_list ks \<Longrightarrow> no_empty_list (expire_key now key ks)"
  by (simp add: no_empty_list_def ks_all_expire)

lemma no_empty_list_get: "no_empty_list ks \<Longrightarrow> hm_get ks key = Some e \<Longrightarrow> vdata e \<noteq> ListV []"
  by (auto simp: no_empty_list_def ks_all_def)

lemma no_empty_list_update:
  assumes "no_empty_list ks" and "\<And>xs ys r. xs \<noteq> [] \<Longrightarrow> f xs = (r, Some ys) \<Longrightarrow> ys \<noteq> []"
  shows "no_empty_list (snd (update_list_key now key dflt f ks))"
proof (cases "hm_get ks key")
  case (Some e)
  show ?thesis
  proof (cases "vdata e")
    case (ListV xs)
    have "xs \<noteq> []"
      using no_empty_list_get [OF assms(1) Some] ListV by simp
    obtain r d where rd: "f xs = (r, d)" by force
    show ?thesis
    proof (cases d)
      case None
      with assms(1) Some ListV rd show ?thesis
        by (simp add: update_list_key_def no_empty_list_remove)
    next
      case (Some ys)
      with assms(2) [OF \<open>xs \<noteq> []\<close>] rd have "ys \<noteq> []" by blast
      with assms(1) \<open>hm_get ks key = Some e\<close> ListV rd Some show ?thesis
        by (simp add: update_list_key_def no_empty_list_remove no_empty_list_insert)
    qed
  qed (use assms Some in \<open>simp_all add: update_list_key_def no_empty_list_remove\<close>)
qed (use assms in \<open>simp add: update_list_key_def\<close>)

lemma no_empty_list_create:
  assumes "no_empty_list ks" and "\<And>xs. g xs \<noteq> []"
  shows "no_empty_list (snd (create_key now key new_list (modify_kind list_of ListV (\<lambda>xs. (r xs, g xs))) ks))"
proof -
  let ?ks1 = "expire_key now key ks"
  let ?e = "case hm_get ?ks1 key of Some e \<Rightarrow> e | None \<Rightarrow> new_list"
  have ks1: "no_empty_list ?ks1"
    using assms(1) by (rule no_empty_list_expire)
  have "vdata ?e \<noteq> ListV [] \<or> vdata ?e = ListV []" by simp
  moreover have "snd (modify_kind list_of ListV (\<lambda>xs. (r xs, g xs)) (vdata ?e)) \<noteq> ListV []"
    using assms(2) by (cases "vdata ?e") (auto simp: modify_kind_def)
  ultimately show ?thesis
    using ks1 by (simp add: create_key_def Let_def split_beta no_empty_list_insert)
qed

lemma no_empty_list_pop_poll: "no_empty_list ks \<Longrightarrow> no_empty_list (snd (pop_poll side now keys ks))"
proof (induction keys arbitrary: ks)
  case (Cons k keys)
  then have wf: "no_empty_list (expire_key now k ks)" by (simp add: no_empty_list_expire)
  with Cons.IH [OF wf] show ?case
    by (auto simp: Let_def no_empty_list_remove no_empty_list_insert split: option.splits value_data.splits prod.splits)
qed simp

lemma push_end_neq_Nil [simp]: "push_end side x xs \<noteq> []"
  by (cases side) auto

lemma no_empty_list_overwrite:
  "no_empty_list ks \<Longrightarrow> no_empty_list (hm_remove k (hm_insert k e ks))"
  "no_empty_list ks \<Longrightarrow> vdata e' \<noteq> ListV [] \<Longrightarrow> no_empty_list (hm_insert k e' (hm_insert k e ks))"
  by (auto simp: no_empty_list_def ks_all_def)

lemma no_empty_list_lmove:
  assumes "no_empty_list ks"
  shows "no_empty_list (snd (snd (lmove_atomic now src dst a b ks)))"
proof (cases "src = dst")
  case True
  have "no_empty_list (expire_key now dst ks)"
    using assms by (rule no_empty_list_expire)
  then show ?thesis
    unfolding lmove_atomic_def Let_def True
    by (auto simp: no_empty_list_overwrite split: option.splits value_data.splits prod.splits)
next
  case False
  have "no_empty_list (expire_key now dst (expire_key now src ks))"
    using assms by (simp add: no_empty_list_expire)
  with False show ?thesis
    unfolding lmove_atomic_def Let_def
    by (auto simp: no_empty_list_overwrite no_empty_list_insert split: option.splits value_data.splits prod.splits)
qed

section \<open>Properties\<close>

text \<open>
  C16. No list command leaves an empty list under a key: a list that loses its last element
  takes the key with it, a push never stores nothing, and a rotation of a one-element list
  is empty only between its two halves.
\<close>

theorem list_commands_no_empty:
  assumes "no_empty_list ks"
  shows "no_empty_list (snd (snd (lpush now key vs ks))) \<and> no_empty_list (snd (snd (rpush now key vs ks))) \<and>
    no_empty_list (snd (lpop now key cnt ks)) \<and> no_empty_list (snd (rpop now key cnt ks)) \<and>
    no_empty_list (snd (lrem now key n v ks)) \<and> no_empty_list (snd (lset now key i v ks)) \<and>
    no_empty_list (snd (ltrim now key i j ks)) \<and> no_empty_list (snd (linsert now key place pivot v ks)) \<and>
    no_empty_list (snd (snd (lmove_atomic now src dst a b ks))) \<and>
    no_empty_list (snd (blpop_poll now keys ks)) \<and> no_empty_list (snd (brpop_poll now keys ks))"
proof (intro conjI)
  have ne: "unless_empty ys = Some zs \<Longrightarrow> zs \<noteq> []" for ys zs :: "bytes list"
    by (auto simp: unless_empty_def split: if_splits)
  show "no_empty_list (snd (snd (lpush now key vs ks)))"
    using assms no_empty_list_create [OF assms, of "\<lambda>xs. rev vs @ xs"]
    by (cases "vs = []") (simp_all add: lpush_def split_beta Let_def fold_push_left)
  show "no_empty_list (snd (snd (rpush now key vs ks)))"
    using assms no_empty_list_create [OF assms, of "\<lambda>xs. xs @ vs"]
    by (cases "vs = []") (simp_all add: rpush_def split_beta Let_def fold_push_right)
  show "no_empty_list (snd (lpop now key cnt ks))" "no_empty_list (snd (rpop now key cnt ks))"
    unfolding lpop_def rpop_def
    by (rule no_empty_list_update [OF assms];
        auto simp: pop_list_def Let_def split: if_splits option.splits prod.splits dest: ne)+
  show "no_empty_list (snd (lrem now key n v ks))"
    unfolding lrem_def by (rule no_empty_list_update [OF assms]) (auto simp: split_beta dest: ne)
  show "no_empty_list (snd (lset now key i v ks))"
    unfolding lset_def by (rule no_empty_list_update [OF assms]) (auto split: option.splits)
  show "no_empty_list (snd (ltrim now key i j ks))"
    unfolding ltrim_def by (rule no_empty_list_update [OF assms]) (auto split: option.splits dest: ne)
  show "no_empty_list (snd (linsert now key place pivot v ks))"
    unfolding linsert_def
    by (rule no_empty_list_update [OF assms]) (auto simp: insert_at_def Let_def split: option.splits)
  show "no_empty_list (snd (snd (lmove_atomic now src dst a b ks)))"
    using assms by (rule no_empty_list_lmove)
  show "no_empty_list (snd (blpop_poll now keys ks))" "no_empty_list (snd (brpop_poll now keys ks))"
    unfolding blpop_poll_def brpop_poll_def using assms by (simp_all add: no_empty_list_pop_poll)
qed

theorem list_commands_no_empty_witness:
  "no_empty_list (snd (lpop 0 ''l'' None [(''l'', \<lparr>vdata = ListV [''a''], expires_at = None\<rparr>)]))"
proof -
  have "no_empty_list [(''l'', \<lparr>vdata = ListV [''a''], expires_at = None\<rparr>)]"
    by (simp add: no_empty_list_def ks_all_def hm_wf_def hm_get_def)
  from list_commands_no_empty [OF this] show ?thesis by blast
qed

text \<open>
  LPUSH puts its values at the head one after the other, so that the last one leads,
  RPUSH at the tail in order; both answer the new length, wake the blocked readers and keep
  the deadline; without values both are an arity error that changes nothing, and on another
  type they answer WRONGTYPE, wake nobody and leave the view as it was.
\<close>

theorem push_spec:
  "(vs = [] \<longrightarrow> lpush now key vs ks = (Inl (wrong_arity ''lpush''), False, ks) \<and>
      rpush now key vs ks = (Inl (wrong_arity ''rpush''), False, ks)) \<and>
   (vs \<noteq> [] \<longrightarrow>
      (case list_at now ks key of
         Inl e \<Rightarrow>
           (\<exists>ks'. lpush now key vs ks = (Inl e, False, ks') \<and> live now ks' = live now ks) \<and>
           (\<exists>ks'. rpush now key vs ks = (Inl e, False, ks') \<and> live now ks' = live now ks)
       | Inr xs \<Rightarrow>
           (\<exists>ks'. lpush now key vs ks = (Inr (int (length xs + length vs)), True, ks') \<and>
              live now ks' = put key (ListV (rev vs @ xs)) (live now ks)) \<and>
           (\<exists>ks'. rpush now key vs ks = (Inr (int (length xs + length vs)), True, ks') \<and>
              live now ks' = put key (ListV (xs @ vs)) (live now ks))))"
proof -
  have results: "fst (lpush now key vs ks) = (case list_at now ks key of Inl e \<Rightarrow> Inl e | Inr xs \<Rightarrow> Inr (int (length xs + length vs)))"
      "fst (rpush now key vs ks) = (case list_at now ks key of Inl e \<Rightarrow> Inl e | Inr xs \<Rightarrow> Inr (int (length xs + length vs)))"
    if "vs \<noteq> []"
    using that
    by (auto simp: lpush_def rpush_def split_beta Let_def fold_push_left fold_push_right list_at_def
        list_kind.create_typed_result [OF new_entries_data(5)] split: sum.splits option.splits)
  have flags: "fst (snd (lpush now key vs ks)) = notified (fst (lpush now key vs ks))"
      "fst (snd (rpush now key vs ks)) = notified (fst (rpush now key vs ks))" if "vs \<noteq> []"
    using that by (simp_all add: lpush_def rpush_def split_beta Let_def)
  have views: "live now (snd (snd (lpush now key vs ks))) =
      (case list_at now ks key of Inl e \<Rightarrow> live now ks | Inr xs \<Rightarrow> put key (ListV (rev vs @ xs)) (live now ks))"
      "live now (snd (snd (rpush now key vs ks))) =
      (case list_at now ks key of Inl e \<Rightarrow> live now ks | Inr xs \<Rightarrow> put key (ListV (xs @ vs)) (live now ks))"
    if "vs \<noteq> []"
    using that
    by (auto simp: lpush_def rpush_def split_beta Let_def fold_push_left fold_push_right list_at_def
        list_kind.create_typed_view [OF new_entries_data(5)] split: sum.splits option.splits)
  show ?thesis
  proof (cases "vs = []")
    case False
    have triple: "p = (fst p, fst (snd p), snd (snd p))" for p :: "i64 result \<times> bool \<times> keyspace"
      by simp
    show ?thesis
      using False results flags views triple [of "lpush now key vs ks"] triple [of "rpush now key vs ks"]
      by (cases "list_at now ks key") (auto simp: notified_def)
  qed (simp add: lpush_def rpush_def)
qed

theorem push_spec_witness:
  "\<exists>ks'. lpush 0 ''l'' [''a'', ''b''] [] = (Inr 2, True, ks') \<and>
     live 0 ks' = put ''l'' (ListV [''b'', ''a'']) (live 0 [])"
  using push_spec [of "[''a'', ''b'']" 0 "''l''" "[]"] by (simp add: list_at_def kind_at_def)

text \<open>The effect of a pop, as the list that remains.\<close>

lemma pop_list_spec:
  "pop_list side cnt xs =
     (case cnt of
        None \<Rightarrow> (case from_end side xs of
                   [] \<Rightarrow> (Inr PopNil, None)
                 | v # ys \<Rightarrow> (Inr (PopSingle v), unless_empty (from_end side ys)))
      | Some n \<Rightarrow>
          (Inr (PopArray (take n (from_end side xs))),
           if n = 0 then Some xs else unless_empty (from_end side (drop n (from_end side xs)))))"
  by (auto simp: pop_list_def pop_end_from_end pop_many_from_end Let_def min_def unless_empty_def
      split: option.splits list.splits)

definition popped :: "list_end \<Rightarrow> usize option \<Rightarrow> bytes list \<Rightarrow> lpop_result" where
  "popped side cnt xs =
     (case cnt of
        None \<Rightarrow> PopSingle (hd (from_end side xs))
      | Some n \<Rightarrow> PopArray (take n (from_end side xs)))"

definition pop_rest :: "list_end \<Rightarrow> usize option \<Rightarrow> bytes list \<Rightarrow> bytes list" where
  "pop_rest side cnt xs = from_end side (drop (case cnt of None \<Rightarrow> 1 | Some n \<Rightarrow> n) (from_end side xs))"

lemma pop_update:
  assumes "list_at now ks key = Inr xs" and "xs \<noteq> []"
  shows "fst (update_list_key now key (Inr PopNil) (pop_list side cnt) ks) = Inr (popped side cnt xs)"
    and "live now (snd (update_list_key now key (Inr PopNil) (pop_list side cnt) ks)) =
      put_list key (pop_rest side cnt xs) (live now ks)"
proof -
  have k: "kind_at list_of now ks key = Inr (Some xs)"
    using assms by (cases rule: list_atE) auto
  obtain y ys where y: "from_end side xs = y # ys"
    using assms(2) by (cases "from_end side xs") auto
  have xs: "from_end side (y # ys) = xs"
    using y from_end_inv [of side xs] by simp
  show "fst (update_list_key now key (Inr PopNil) (pop_list side cnt) ks) = Inr (popped side cnt xs)"
    using k y by (simp add: list_key_result pop_list_spec popped_def split: option.splits)
  show "live now (snd (update_list_key now key (Inr PopNil) (pop_list side cnt) ks)) =
      put_list key (pop_rest side cnt xs) (live now ks)"
    using k y xs assms(2)
    by (cases cnt; cases "cnt = Some 0")
       (auto simp: list_key_view pop_list_spec pop_rest_def unless_empty_view put_list_def)
qed

text \<open>
  LPOP and RPOP take elements from their end in order, one without a count and at most
  \<open>n\<close> with one, and leave the rest of the list under the key with its deadline; the last
  element takes the key with it; a missing key answers nil, with or without a count.
\<close>

theorem pop_spec:
  assumes "list_at now ks key = Inr xs"
  shows "(live now ks key = None \<longrightarrow>
      fst (lpop now key cnt ks) = Inr PopNil \<and> fst (rpop now key cnt ks) = Inr PopNil) \<and>
    (xs \<noteq> [] \<longrightarrow>
      fst (lpop now key None ks) = Inr (PopSingle (hd xs)) \<and>
      live now (snd (lpop now key None ks)) = put_list key (tl xs) (live now ks) \<and>
      fst (rpop now key None ks) = Inr (PopSingle (last xs)) \<and>
      live now (snd (rpop now key None ks)) = put_list key (butlast xs) (live now ks) \<and>
      fst (lpop now key (Some n) ks) = Inr (PopArray (take n xs)) \<and>
      live now (snd (lpop now key (Some n) ks)) = put_list key (drop n xs) (live now ks) \<and>
      fst (rpop now key (Some n) ks) = Inr (PopArray (take n (rev xs))) \<and>
      live now (snd (rpop now key (Some n) ks)) = put_list key (take (length xs - n) xs) (live now ks))"
proof (intro conjI impI)
  assume "live now ks key = None"
  then show "fst (lpop now key cnt ks) = Inr PopNil" "fst (rpop now key cnt ks) = Inr PopNil"
    by (simp_all add: lpop_def rpop_def list_key_result kind_at_def)
next
  assume ne: "xs \<noteq> []"
  have but: "rev (tl (rev xs)) = butlast xs"
    by (cases xs rule: rev_cases) auto
  note pops = pop_update [OF assms ne]
  show "fst (lpop now key None ks) = Inr (PopSingle (hd xs))"
      "live now (snd (lpop now key None ks)) = put_list key (tl xs) (live now ks)"
      "fst (rpop now key None ks) = Inr (PopSingle (last xs))"
      "live now (snd (rpop now key None ks)) = put_list key (butlast xs) (live now ks)"
      "fst (lpop now key (Some n) ks) = Inr (PopArray (take n xs))"
      "live now (snd (lpop now key (Some n) ks)) = put_list key (drop n xs) (live now ks)"
      "fst (rpop now key (Some n) ks) = Inr (PopArray (take n (rev xs)))"
      "live now (snd (rpop now key (Some n) ks)) = put_list key (take (length xs - n) xs) (live now ks)"
    using ne pops [of LeftEnd None] pops [of LeftEnd "Some n"] pops [of RightEnd None] pops [of RightEnd "Some n"]
    by (simp_all add: lpop_def rpop_def popped_def pop_rest_def from_end_def hd_rev drop_Suc rev_drop but)
qed

theorem pop_spec_witness:
  "fst (rpop 0 ''l'' (Some 2) [(''l'', \<lparr>vdata = ListV [''a'', ''b'', ''c''], expires_at = None\<rparr>)]) =
     Inr (PopArray [''c'', ''b''])"
proof -
  have "list_at 0 [(''l'', \<lparr>vdata = ListV [''a'', ''b'', ''c''], expires_at = None\<rparr>)] ''l'' =
      Inr [''a'', ''b'', ''c'']"
    by (simp add: list_at_def kind_at_def live_def hm_get_def is_expired_def)
  from pop_spec [OF this, of None 2] show ?thesis by simp
qed

lemma list_position_index: "list_position n i = None \<longleftrightarrow> \<not> (0 \<le> redis_index n i \<and> redis_index n i < int n)"
  by (auto simp: list_position_def redis_index_def Let_def)

text \<open>
  LLEN, LINDEX and LRANGE read the list as Redis documents their indexes: negative ones
  count from the end, LINDEX of a position outside the list is nothing, LRANGE gives the
  elements whose position lies between its ends, both inclusive; LTRIM keeps exactly what
  LRANGE would answer, and LSET writes the one position LINDEX reads.
\<close>

theorem list_index_spec:
  assumes "list_at now ks key = Inr xs"
  shows "fst (llen now key ks) = Inr (int (length xs)) \<and>
    fst (lindex now key i ks) =
      Inr (let k = redis_index (length xs) i
           in if 0 \<le> k \<and> k < int (length xs) then Some (xs ! nat k) else None) \<and>
    fst (lrange now key i j ks) = Inr (index_range xs i j) \<and>
    live now (snd (ltrim now key i j ks)) = put_list key (index_range xs i j) (live now ks) \<and>
    (xs \<noteq> [] \<longrightarrow> 0 \<le> redis_index (length xs) i \<longrightarrow> redis_index (length xs) i < int (length xs) \<longrightarrow>
       fst (lset now key i v ks) = Inr () \<and>
       live now (snd (lset now key i v ks)) =
         put key (ListV (xs[nat (redis_index (length xs) i) := v])) (live now ks))"
proof (intro conjI impI)
  show "fst (llen now key ks) = Inr (int (length xs))"
    using assms by (cases rule: list_atE) (simp_all add: llen_def list_kind.read_typed)
  show "fst (lindex now key i ks) =
      Inr (let k = redis_index (length xs) i
           in if 0 \<le> k \<and> k < int (length xs) then Some (xs ! nat k) else None)"
    using assms
  proof (cases rule: list_atE)
    case missing
    then show ?thesis by (simp add: lindex_def list_kind.read_typed Let_def)
  next
    case present
    show ?thesis
    proof (cases "list_position (length xs) i")
      case None
      with present list_position_index [of "length xs" i] show ?thesis
        by (auto simp: lindex_def list_kind.read_typed Let_def)
    next
      case (Some k)
      then have "redis_index (length xs) i = int k" "k < length xs"
        by (auto simp: list_position_Some)
      with present Some show ?thesis
        by (simp add: lindex_def list_kind.read_typed Let_def)
    qed
  qed
  have slice: "(case normalize_range_indices i j (length xs) of
        None \<Rightarrow> [] | Some (s, e) \<Rightarrow> take (e - s + 1) (drop s xs)) = index_range xs i j"
    using normalize_range_slice [where start = i and stop = j and xs = xs] normalize_range_Some(1) [of i j "length xs"]
    by (auto split: option.splits simp: Suc_diff_le)
  show "fst (lrange now key i j ks) = Inr (index_range xs i j)"
    using assms slice
    by (cases rule: list_atE)
       (auto simp: lrange_def list_kind.read_typed index_range_def split: option.splits)
  show "live now (snd (ltrim now key i j ks)) = put_list key (index_range xs i j) (live now ks)"
    using assms
  proof (cases rule: list_atE)
    case missing
    then show ?thesis
      by (simp add: ltrim_def list_key_view put_list_Nil index_range_def)
  next
    case present
    have "snd (case normalize_range_indices i j (length xs) of
               None \<Rightarrow> (Inr () :: unit result, None)
             | Some (s, e) \<Rightarrow> (Inr (), unless_empty (take (e - s + 1) (drop s xs)))) =
        unless_empty (index_range xs i j)"
      using slice by (auto simp: unless_empty_def split: option.splits)
    with present show ?thesis
      unfolding ltrim_def list_key_view by (simp add: unless_empty_view del: One_nat_def)
  qed
next
  assume *: "xs \<noteq> []" "0 \<le> redis_index (length xs) i" "redis_index (length xs) i < int (length xs)"
  have k: "kind_at list_of now ks key = Inr (Some xs)"
    using assms *(1) by (cases rule: list_atE) auto
  have "list_position (length xs) i = Some (nat (redis_index (length xs) i))"
    using * by (simp add: list_position_Some)
  with k show "fst (lset now key i v ks) = Inr ()"
    "live now (snd (lset now key i v ks)) = put key (ListV (xs[nat (redis_index (length xs) i) := v])) (live now ks)"
    by (simp_all add: lset_def list_key_result list_key_view)
qed

theorem list_index_spec_witness:
  "fst (lrange 0 ''l'' (- 2) 5 [(''l'', \<lparr>vdata = ListV [''a'', ''b'', ''c''], expires_at = None\<rparr>)]) =
     Inr [''b'', ''c'']"
proof -
  have "list_at 0 [(''l'', \<lparr>vdata = ListV [''a'', ''b'', ''c''], expires_at = None\<rparr>)] ''l'' =
      Inr [''a'', ''b'', ''c'']"
    by (simp add: list_at_def kind_at_def live_def hm_get_def is_expired_def)
  moreover have "index_range [''a'', ''b'', ''c''] (- 2) 5 = [''b'', ''c'']"
    by (simp add: index_range_def redis_index_def nths_Cons)
  ultimately show ?thesis
    using list_index_spec [of 0 _ "''l''" "[''a'', ''b'', ''c'']" "- 2" 5] by simp
qed

text \<open>
  C18. LREM removes the first \<open>count\<close> occurrences from the head, the first \<open>-count\<close> from
  the tail (as if the list were reversed), or all of them, keeps the order of the rest and
  answers how many it removed.
\<close>

theorem lrem_spec:
  assumes "list_at now ks key = Inr xs"
  shows "fst (lrem now key cnt v ks) =
      Inr (int (if cnt = 0 then count_list xs v else min (nat \<bar>cnt\<bar>) (count_list xs v))) \<and>
    live now (snd (lrem now key cnt v ks)) = put_list key (lrem_result cnt v xs) (live now ks)"
  using assms
proof (cases rule: list_atE)
  case missing
  then show ?thesis
    by (simp add: lrem_def list_key_result list_key_view put_list_Nil lrem_result_def)
next
  case present
  then show ?thesis
    by (simp add: lrem_def list_key_result list_key_view lrem_list_spec split_beta unless_empty_view)
qed

theorem lrem_spec_witness:
  "live 0 (snd (lrem 0 ''l'' (- 1) ''a'' [(''l'', \<lparr>vdata = ListV [''a'', ''b'', ''a''], expires_at = None\<rparr>)])) =
     [''l'' \<mapsto> \<lparr>vdata = ListV [''a'', ''b''], expires_at = None\<rparr>]"
proof -
  let ?ks = "[(''l'', \<lparr>vdata = ListV [''a'', ''b'', ''a''], expires_at = None\<rparr>)]"
  have "list_at 0 ?ks ''l'' = Inr [''a'', ''b'', ''a'']"
    by (simp add: list_at_def kind_at_def live_def hm_get_def is_expired_def)
  moreover have "lrem_result (- 1) ''a'' [''a'', ''b'', ''a''] = [''a'', ''b'']"
    by code_simp
  moreover have "live 0 ?ks = [''l'' \<mapsto> \<lparr>vdata = ListV [''a'', ''b'', ''a''], expires_at = None\<rparr>]"
    by (auto simp: live_def hm_get_def is_expired_def fun_eq_iff)
  ultimately show ?thesis
    using lrem_spec [of 0 ?ks "''l''" "[''a'', ''b'', ''a'']" "- 1" "''a''"]
    by (simp add: put_list_def put_def)
qed

text \<open>
  LINSERT puts the value next to the first occurrence of the pivot and answers the new
  length; without the pivot it answers -1 and without the key 0, and nothing changes.
\<close>

theorem linsert_spec:
  "(live now ks key = None \<longrightarrow>
      fst (linsert now key place pivot v ks) = Inr 0 \<and>
      live now (snd (linsert now key place pivot v ks)) = live now ks) \<and>
   (\<forall>ys zs. list_at now ks key = Inr (ys @ pivot # zs) \<longrightarrow> pivot \<notin> set ys \<longrightarrow>
      fst (linsert now key place pivot v ks) = Inr (int (length ys + length zs) + 2) \<and>
      live now (snd (linsert now key place pivot v ks)) =
        put key (ListV (ys @ (if place = Before then [v, pivot] else [pivot, v]) @ zs)) (live now ks)) \<and>
   (\<forall>xs. live now ks key \<noteq> None \<longrightarrow> list_at now ks key = Inr xs \<longrightarrow> pivot \<notin> set xs \<longrightarrow>
      fst (linsert now key place pivot v ks) = Inr (- 1) \<and>
      live now (snd (linsert now key place pivot v ks)) = live now ks)"
proof (intro conjI allI impI)
  assume "live now ks key = None"
  then show "fst (linsert now key place pivot v ks) = Inr 0"
    "live now (snd (linsert now key place pivot v ks)) = live now ks"
    by (simp_all add: linsert_def list_key_result list_key_view kind_at_def)
next
  fix ys zs
  assume at: "list_at now ks key = Inr (ys @ pivot # zs)" and first: "pivot \<notin> set ys"
  have k: "kind_at list_of now ks key = Inr (Some (ys @ pivot # zs))"
    using at by (cases rule: list_atE) auto
  show "fst (linsert now key place pivot v ks) = Inr (int (length ys + length zs) + 2)"
    using k by (simp add: linsert_def list_key_result find_position_first [OF first] insert_at_def Let_def)
  show "live now (snd (linsert now key place pivot v ks)) =
        put key (ListV (ys @ (if place = Before then [v, pivot] else [pivot, v]) @ zs)) (live now ks)"
    using k by (cases place) (simp_all add: linsert_def list_key_view find_position_first [OF first] insert_at_def)
next
  fix xs
  assume *: "live now ks key \<noteq> None" "list_at now ks key = Inr xs" "pivot \<notin> set xs"
  from *(2) have k: "kind_at list_of now ks key = Inr (Some xs)"
    using *(1) by (cases rule: list_atE) auto
  then obtain e where e: "live now ks key = Some e" "vdata e = ListV xs"
    by (auto simp: list_kind.kind_at_Some)
  show "fst (linsert now key place pivot v ks) = Inr (- 1)"
    using k *(3) by (simp add: linsert_def list_key_result find_position_None)
  show "live now (snd (linsert now key place pivot v ks)) = live now ks"
    using k *(3) put_same [of "live now ks" key e] e
    by (simp add: linsert_def list_key_view find_position_None)
qed

theorem linsert_spec_witness:
  "fst (linsert 0 ''l'' After ''a'' ''b'' [(''l'', \<lparr>vdata = ListV [''a'', ''c''], expires_at = None\<rparr>)]) = Inr 3"
proof -
  have "list_at 0 [(''l'', \<lparr>vdata = ListV [''a'', ''c''], expires_at = None\<rparr>)] ''l'' = Inr ([] @ ''a'' # [''c''])"
    by (simp add: list_at_def kind_at_def live_def hm_get_def is_expired_def)
  with linsert_spec [of 0 "[(''l'', \<lparr>vdata = ListV [''a'', ''c''], expires_at = None\<rparr>)]" "''l''" After "''a''" "''b''"]
  show ?thesis by fastforce
qed

section \<open>LMOVE and the polls\<close>

lemma expire_key_idem: "live now ks key = None \<Longrightarrow> hm_get (expire_key now key ks) key = None"
  by simp



text \<open>
  LMOVE from a list to itself is a rotation: the key keeps its deadline even when the
  list has one element and is empty between the pop and the push.
\<close>

theorem lmove_rotation:
  assumes "live now ks key = Some e" and "vdata e = ListV xs" and "from_end from_side xs = v # rest"
  shows "case lmove_atomic now key key from_side to_side ks of (r, woke, ks') \<Rightarrow>
    r = Inr (Some v) \<and> woke \<and>
    live now ks' = (live now ks)
      (key \<mapsto> \<lparr>vdata = ListV (push_end to_side v (from_end from_side rest)), expires_at = expires_at e\<rparr>)"
proof -
  have pop: "pop_end from_side xs = (Some v, from_end from_side rest)"
    using assms(3) by (simp add: pop_end_from_end)
  have ne: "xs \<noteq> []" using assms(3) by auto
  have "\<not> is_expired now e" using assms(1) by (rule live_not_expired)
  then show ?thesis
    using assms(1,2) ne pop
    by (auto simp: lmove_atomic_def Let_def live_insert is_expired_def)
qed

theorem lmove_rotation_witness:
  "case lmove_atomic 0 ''k'' ''k'' LeftEnd RightEnd [(''k'', \<lparr>vdata = ListV [''x''], expires_at = Some 9\<rparr>)] of
     (r, woke, ks') \<Rightarrow> r = Inr (Some ''x'') \<and> woke \<and>
       live 0 ks' ''k'' = Some \<lparr>vdata = ListV [''x''], expires_at = Some 9\<rparr>"
proof -
  have "live 0 [(''k'', \<lparr>vdata = ListV [''x''], expires_at = Some 9\<rparr>)] ''k'' =
      Some \<lparr>vdata = ListV [''x''], expires_at = Some 9\<rparr>"
    by (simp add: live_def hm_get_def is_expired_def)
  from lmove_rotation [OF this, of "[''x'']" LeftEnd "''x''" "[]" RightEnd] show ?thesis
    by (auto simp: from_end_def)
qed

lemma list_at_live: "live now ks1 = live now ks2 \<Longrightarrow> list_at now ks1 = list_at now ks2"
  by (simp add: list_at_def kind_at_def fun_eq_iff)

text \<open>What a poll answers: the first of its keys that is not an empty list decides.\<close>

definition poll_answer :: "list_end \<Rightarrow> instant \<Rightarrow> bytes list \<Rightarrow> keyspace \<Rightarrow>
    (bytes \<times> bytes) option result \<times> (bytes \<rightharpoonup> value_entry)" where
  "poll_answer side now keys ks =
     (case find (\<lambda>k. list_at now ks k \<noteq> Inr []) keys of
        None \<Rightarrow> (Inr None, live now ks)
      | Some k \<Rightarrow>
          (case list_at now ks k of
             Inl e \<Rightarrow> (Inl e, live now ks)
           | Inr xs \<Rightarrow>
               (Inr (Some (k, hd (from_end side xs))),
                put_list k (from_end side (tl (from_end side xs))) (live now ks))))"

lemma poll_answer_live: "live now ks1 = live now ks2 \<Longrightarrow> poll_answer side now keys ks1 = poll_answer side now keys ks2"
proof -
  assume l: "live now ks1 = live now ks2"
  show ?thesis
    unfolding poll_answer_def list_at_live [OF l] l ..
qed

lemma pop_poll_answer:
  "(fst (pop_poll side now keys ks), live now (snd (pop_poll side now keys ks))) = poll_answer side now keys ks"
proof (induction keys arbitrary: ks)
  case Nil
  then show ?case by (simp add: poll_answer_def)
next
  case (Cons k keys)
  let ?ks1 = "expire_key now k ks"
  have live1: "live now ?ks1 = live now ks" by simp
  note IH = Cons.IH [of ?ks1, unfolded poll_answer_live [OF live1]]
  have skip: "poll_answer side now (k # keys) ks = poll_answer side now keys ks" if "list_at now ks k = Inr []"
    using that by (simp add: poll_answer_def)
  show ?case
  proof (cases "live now ks k")
    case None
    then have "list_at now ks k = Inr []" by (simp add: list_at_def kind_at_def)
    with None IH skip show ?thesis by simp
  next
    case (Some e)
    have exp: "\<not> is_expired now e" using Some by (rule live_not_expired)
    show ?thesis
    proof (cases "list_of (vdata e)")
      case None
      then have at: "list_at now ks k = Inl WrongType"
        using Some by (simp add: list_at_def kind_at_def)
      moreover have "pop_poll side now (k # keys) ks = (Inl WrongType, ?ks1)"
        using Some None by (cases "vdata e") auto
      ultimately show ?thesis by (simp add: poll_answer_def)
    next
      case (Some xs)
      then have d: "vdata e = ListV xs" by (rule list_kind.wrap_proj)
      with \<open>live now ks k = Some e\<close> have at: "list_at now ks k = Inr xs"
        by (simp add: list_at_def kind_at_def)
      show ?thesis
      proof (cases "from_end side xs")
        case Nil
        then have "xs = []" by simp
        with IH skip at d \<open>live now ks k = Some e\<close> show ?thesis by simp
      next
        case (Cons v rest)
        then have "xs \<noteq> []" by auto
        with at d exp Cons \<open>live now ks k = Some e\<close> show ?thesis
          by (simp add: poll_answer_def pop_end_from_end live_remove live_insert put_list_def put_def)
      qed
    qed
  qed
qed

text \<open>
  One scan of BLPOP or BRPOP pops from the first of its keys, in the order given, that
  holds a non-empty list, and reports that key; missing keys are skipped, a key of another
  type that comes first aborts the scan with WRONGTYPE and nothing is popped.
\<close>

theorem poll_spec:
  "(fst (blpop_poll now keys ks), live now (snd (blpop_poll now keys ks))) = poll_answer LeftEnd now keys ks \<and>
   (fst (brpop_poll now keys ks), live now (snd (brpop_poll now keys ks))) = poll_answer RightEnd now keys ks"
  unfolding blpop_poll_def brpop_poll_def by (simp only: pop_poll_answer simp_thms)

end
