(* ===== verification/Stream_Ops.thy ===== *)
theory Stream_Ops
  imports Keyspace
begin

text \<open>
  The stream commands of \<^verbatim>\<open>src/src/store.rs\<close>: XADD, XREAD, XLEN, the last ID, XTRIM,
  XDEL and XRANGE.

  The wall clock of XADD is the argument \<open>ms\<close>, the milliseconds since the Unix epoch cut to
  64 bits.  The sequence number is a 64-bit word, so its increment wraps around.
\<close>

section \<open>The commands\<close>

definition next_stream_id :: "u64 \<Rightarrow> stream_id \<Rightarrow> stream_id" where
  "next_stream_id ms prev = (if ms > fst prev then (ms, 0) else (fst prev, snd prev + 1))"

definition xadd_stream :: "u64 \<Rightarrow> fields \<Rightarrow> stream_id option \<Rightarrow> stream \<Rightarrow> stream_id result \<times> stream" where
  "xadd_stream ms flds sid s =
     (let new_id =
        (case sid of
           Some explicit_id \<Rightarrow> if explicit_id \<le> last_id s then Inl WrongType else Inr explicit_id
         | None \<Rightarrow> Inr (next_stream_id ms (last_id s)))
      in (case new_id of
            Inl e \<Rightarrow> (Inl e, s)
          | Inr i \<Rightarrow> (Inr i, s\<lparr>entries := btree_insert i flds (entries s), last_id := i\<rparr>)))"

text \<open>The answer, whether the blocked readers were woken, and the map.\<close>

definition xadd :: "instant \<Rightarrow> u64 \<Rightarrow> bytes \<Rightarrow> fields \<Rightarrow> stream_id option \<Rightarrow> keyspace \<Rightarrow>
    stream_id result \<times> bool \<times> keyspace" where
  "xadd now ms key flds sid ks =
     (let (r, ks') = create_key now key new_stream
            (modify_kind stream_of StreamV (xadd_stream ms flds sid)) ks
      in (r, (case r of Inl _ \<Rightarrow> False | Inr _ \<Rightarrow> True), ks'))"

definition entries_after :: "stream_id \<Rightarrow> usize option \<Rightarrow> stream \<Rightarrow> (stream_id \<times> fields) list" where
  "entries_after start cnt s = take_opt cnt (bt_after (\<lambda>k. k) start (entries s))"

fun xread_loop :: "instant \<Rightarrow> usize option \<Rightarrow> (bytes \<times> stream_id) list \<Rightarrow> keyspace \<Rightarrow>
    (bytes \<times> (stream_id \<times> fields) list) list result \<times> keyspace" where
  "xread_loop now cnt [] ks = (Inr [], ks)"
| "xread_loop now cnt ((key, start_id) # rest) ks =
     (case hm_get ks key of
        None \<Rightarrow> xread_loop now cnt rest ks
      | Some e \<Rightarrow>
          if is_expired now e then xread_loop now cnt rest (hm_remove key ks)
          else (case vdata e of
                  StreamV s \<Rightarrow>
                    (let es = entries_after start_id cnt s;
                         (r, ks') = xread_loop now cnt rest ks
                     in (case r of
                           Inl err \<Rightarrow> (Inl err, ks')
                         | Inr res \<Rightarrow> (Inr (if es \<noteq> [] then (key, es) # res else res), ks')))
                | _ \<Rightarrow> (Inl WrongType, ks)))"

definition xread :: "instant \<Rightarrow> bytes list \<Rightarrow> stream_id list \<Rightarrow> usize option \<Rightarrow> keyspace \<Rightarrow>
    (bytes \<times> (stream_id \<times> fields) list) list result \<times> keyspace" where
  "xread now keys ids cnt ks = xread_loop now cnt (zip keys ids) ks"

definition xlen :: "instant \<Rightarrow> bytes \<Rightarrow> keyspace \<Rightarrow> usize result \<times> keyspace" where
  "xlen now key = read_key now key (Inr 0) (with_kind stream_of (\<lambda>s. Inr (length (entries s))))"

definition stream_last_id :: "instant \<Rightarrow> bytes \<Rightarrow> keyspace \<Rightarrow> stream_id option \<times> keyspace" where
  "stream_last_id now key =
     read_key now key None (\<lambda>d. case d of StreamV s \<Rightarrow> Some (last_id s) | _ \<Rightarrow> None)"

text \<open>XTRIM MAXLEN: while the stream is too long, remove its first entry.\<close>

function trim_maxlen :: "usize \<Rightarrow> (stream_id, fields) btreemap \<Rightarrow> usize \<times> (stream_id, fields) btreemap" where
  "trim_maxlen mx m =
     (if length m > mx then
        (case m of
           [] \<Rightarrow> (0, m)
         | p # ps \<Rightarrow>
             (let (removed, m') = trim_maxlen mx (btree_remove (fst p) (p # ps)) in (removed + 1, m')))
      else (0, m))"
  by pat_completeness auto

termination
proof (relation "measure (\<lambda>(mx, m). length m)")
  fix mx :: usize and m p and ps :: "(stream_id, fields) btreemap"
  assume "m = p # ps"
  then show "((mx, btree_remove (fst p) (p # ps)), (mx, m)) \<in> measure (\<lambda>(mx, m). length m)"
    by (simp add: bt_remove_def less_Suc_eq_le)
qed simp

declare trim_maxlen.simps [simp del]

definition trim_minid :: "stream_id \<Rightarrow> (stream_id, fields) btreemap \<Rightarrow> usize \<times> (stream_id, fields) btreemap" where
  "trim_minid lo m =
     (let to_remove = map fst (bt_below (\<lambda>k. k) lo m)
      in (length to_remove, fold btree_remove to_remove m))"

definition xtrim_stream :: "usize option \<Rightarrow> stream_id option \<Rightarrow> stream \<Rightarrow> usize result \<times> stream" where
  "xtrim_stream maxlen minid s =
     (let (r1, m1) = (case maxlen of Some mx \<Rightarrow> trim_maxlen mx (entries s) | None \<Rightarrow> (0, entries s));
          (r2, m2) = (case minid of Some lo \<Rightarrow> trim_minid lo m1 | None \<Rightarrow> (0, m1))
      in (Inr (r1 + r2), s\<lparr>entries := m2\<rparr>))"

definition xtrim :: "instant \<Rightarrow> bytes \<Rightarrow> usize option \<Rightarrow> stream_id option \<Rightarrow> keyspace \<Rightarrow> usize result \<times> keyspace" where
  "xtrim now key maxlen minid =
     update_key now key (Inr 0) (modify_kind stream_of StreamV (xtrim_stream maxlen minid))"

definition xdel_step :: "stream_id \<Rightarrow> (stream_id, fields) btreemap \<Rightarrow> bool \<times> (stream_id, fields) btreemap" where
  "xdel_step i m = (bt_get m i \<noteq> None, btree_remove i m)"

definition xdel :: "instant \<Rightarrow> bytes \<Rightarrow> stream_id list \<Rightarrow> keyspace \<Rightarrow> i64 result \<times> keyspace" where
  "xdel now key ids =
     update_key now key (Inr 0)
       (modify_kind stream_of StreamV
         (\<lambda>s. let (cnt, m) = count_loop xdel_step ids (entries s) in (Inr cnt, s\<lparr>entries := m\<rparr>)))"

definition xrange :: "instant \<Rightarrow> bytes \<Rightarrow> stream_id \<Rightarrow> stream_id \<Rightarrow> usize option \<Rightarrow> keyspace \<Rightarrow>
    (stream_id \<times> fields) list result \<times> keyspace" where
  "xrange now key lo hi cnt =
     read_key now key (Inr [])
       (with_kind stream_of
         (\<lambda>s. if lo > hi then Inr []
              else Inr (take_opt cnt (bt_between (\<lambda>k. k) lo hi (entries s)))))"

section \<open>Well-formedness\<close>

lemma trim_maxlen_drop: "btree_wf m \<Longrightarrow> trim_maxlen mx m = (length m - mx, drop (length m - mx) m)"
proof (induction mx m rule: trim_maxlen.induct)
  case (1 mx m)
  show ?case
  proof (cases "length m > mx")
    case True
    then obtain p ps where m: "m = p # ps" by (cases m) auto
    have "btree_remove (fst p) (p # ps) = ps"
      using "1.prems" by (auto simp: m bt_remove_def bt_wf_Cons filter_id_conv)
    with 1 True m show ?thesis
      by (subst trim_maxlen.simps) (simp add: bt_wf_Cons Suc_diff_le)
  qed (subst trim_maxlen.simps, simp)
qed

lemma fold_btree_remove: "fold btree_remove ids m = filter (\<lambda>p. fst p \<notin> set ids) m"
  by (induction ids arbitrary: m) (auto simp: bt_remove_def intro: filter_cong)

lemma trim_minid_filter:
  "trim_minid lo m = (length (filter (\<lambda>p. fst p < lo) m), filter (\<lambda>p. lo \<le> fst p) m)"
proof -
  have "filter (\<lambda>p. fst p \<notin> set (map fst (bt_below (\<lambda>k. k) lo m))) m = filter (\<lambda>p. lo \<le> fst p) m"
    by (rule filter_cong [OF refl]) (force simp: bt_below_def)
  then show ?thesis
    by (simp add: trim_minid_def fold_btree_remove bt_below_def)
qed

interpretation xdel_loop: removing_loop xdel_step "\<lambda>m. dom (bt_get m)" btree_wf
  by unfold_locales (auto simp: xdel_step_def bt.finite_dom split: if_splits)

lemma xdel_loop_filter: "snd (count_loop xdel_step ids m) = filter (\<lambda>p. fst p \<notin> set ids) m"
  by (induction ids arbitrary: m) (auto simp: xdel_step_def split_beta Let_def bt_remove_def intro: filter_cong)

text \<open>Well-formedness of a stream whose entries change.\<close>

lemma stream_wf_entries:
  "stream_wf s \<Longrightarrow> btree_wf m \<Longrightarrow> set m \<subseteq> set (entries s) \<Longrightarrow> stream_wf (s\<lparr>entries := m\<rparr>)"
  by (auto simp: stream_wf_def)

lemma stream_wf_insert:
  assumes "stream_wf s" and "hm_wf flds"
  shows "stream_wf (s\<lparr>entries := btree_insert i flds (entries s), last_id := j\<rparr>)"
proof -
  have "hm_wf f" if "(k, f) \<in> set (btree_insert i flds (entries s))" for k f
    using set_bt_insert_subset [of "\<lambda>k. k" i flds "entries s"] that assms
    by (auto simp: stream_wf_def)
  with assms show ?thesis
    by (auto simp: stream_wf_def)
qed

lemma stream_wf_xadd:
  "stream_wf s \<Longrightarrow> hm_wf flds \<Longrightarrow> stream_wf (snd (xadd_stream ms flds sid s))"
  by (simp add: xadd_stream_def Let_def stream_wf_insert split: option.splits)

lemma stream_wf_xtrim: "stream_wf s \<Longrightarrow> stream_wf (snd (xtrim_stream maxlen minid s))"
proof -
  assume wf: "stream_wf s"
  then have "btree_wf (entries s)" by (simp add: stream_wf_def)
  then show ?thesis
    using wf
    by (auto simp: xtrim_stream_def trim_maxlen_drop trim_minid_filter split: option.splits
        intro!: stream_wf_entries dest: in_set_dropD)
qed

lemma new_stream_wf [simp]: "stream_wf new_stream_value"
  by (simp add: stream_wf_def new_stream_value_def)

lemma xadd_wf [wf_intros]: "hm_wf flds \<Longrightarrow> ks_wf ks \<Longrightarrow> ks_wf (snd (snd (xadd now ms key flds sid ks)))"
  unfolding xadd_def Let_def split_beta snd_conv
  by (rule stream_kind.ks_wf_create) (auto simp: stream_wf_xadd)

lemma xread_loop_wf [wf_intros]: "ks_wf ks \<Longrightarrow> ks_wf (snd (xread_loop now cnt ps ks))"
proof (induction now cnt ps ks rule: xread_loop.induct)
  case (2 now cnt key start_id rest ks)
  then show ?case
    by (auto simp: Let_def split_beta ks_wf_remove split: option.splits value_data.splits sum.splits)
qed simp

lemma stream_commands_wf [wf_intros]:
  "ks_wf ks \<Longrightarrow> ks_wf (snd (xread now keys ids cnt ks))"
  "ks_wf ks \<Longrightarrow> ks_wf (snd (xlen now key ks))"
  "ks_wf ks \<Longrightarrow> ks_wf (snd (stream_last_id now key ks))"
  "ks_wf ks \<Longrightarrow> ks_wf (snd (xrange now key lo hi cnt ks))"
  by (simp_all add: xread_def xlen_def stream_last_id_def xrange_def xread_loop_wf ks_wf_read)

lemma xtrim_wf [wf_intros]: "ks_wf ks \<Longrightarrow> ks_wf (snd (xtrim now key maxlen minid ks))"
  unfolding xtrim_def by (rule stream_kind.ks_wf_update) (auto simp: stream_wf_xtrim)

lemma xdel_wf [wf_intros]: "ks_wf ks \<Longrightarrow> ks_wf (snd (xdel now key ids ks))"
  unfolding xdel_def
  by (rule stream_kind.ks_wf_update)
     (auto simp: split_beta Let_def xdel_loop_filter stream_wf_def)

section \<open>XADD\<close>

text \<open>Every entry was added at or before the last ID.\<close>

definition stream_ids_ok :: "stream \<Rightarrow> bool" where
  "stream_ids_ok s \<longleftrightarrow> (\<forall>(i, f) \<in> set (entries s). i \<le> last_id s)"

text \<open>The automatic ID would need a sequence number past the largest \<open>u64\<close>.\<close>

definition seq_exhausted :: "u64 \<Rightarrow> stream_id \<Rightarrow> bool" where
  "seq_exhausted ms prev \<longleftrightarrow> ms \<le> fst prev \<and> snd prev = u64_MAX"

lemma u64_inc_greater: "x \<noteq> u64_MAX \<Longrightarrow> x < x + 1" for x :: u64
proof -
  assume "x \<noteq> u64_MAX"
  moreover have "uint (- 1 :: u64) = 2 ^ 64 - 1"
    by (simp add: unsigned_minus_1_eq_mask mask_eq_exp_minus_1)
  ultimately have "uint x \<noteq> 2 ^ 64 - 1"
    by (metis u64_MAX_def word_uint_eqI)
  moreover have "0 \<le> uint x \<and> uint x < 2 ^ 64"
    using uint_bounded [of x] by simp
  ultimately have "uint (x + 1) = uint x + 1"
    by (simp add: uint_word_ariths)
  then show ?thesis by (simp add: word_less_def)
qed

lemma u64_le_MAX: "x \<le> u64_MAX"
  by (simp add: u64_MAX_def)

lemma u64_MAX_pos [simp]: "0 < u64_MAX"
  by (simp add: u64_MAX_def word_gt_0)

lemma next_stream_id_greater: "\<not> seq_exhausted ms prev \<Longrightarrow> prev < next_stream_id ms prev"
  by (cases prev) (auto simp: next_stream_id_def seq_exhausted_def less_prod_def u64_inc_greater)

lemma next_stream_id_wraps: "seq_exhausted ms prev \<Longrightarrow> next_stream_id ms prev = (fst prev, 0)"
  by (auto simp: next_stream_id_def seq_exhausted_def u64_MAX_def)

definition stream_or_new :: "stream option \<Rightarrow> stream" where
  "stream_or_new v = (case v of None \<Rightarrow> new_stream_value | Some s \<Rightarrow> s)"

lemma xadd_result:
  assumes "kind_at stream_of now ks key = Inr v"
  shows "xadd now ms key flds sid ks =
      (fst (xadd_stream ms flds sid (stream_or_new v)),
       (case fst (xadd_stream ms flds sid (stream_or_new v)) of Inl _ \<Rightarrow> False | Inr _ \<Rightarrow> True),
       snd (snd (xadd now ms key flds sid ks)))"
    and "live now (snd (snd (xadd now ms key flds sid ks))) =
      put key (StreamV (snd (xadd_stream ms flds sid (stream_or_new v)))) (live now ks)"
  using assms
  by (simp_all add: xadd_def split_beta Let_def stream_or_new_def
      stream_kind.create_typed_result [OF new_entries_data(4)]
      stream_kind.create_typed_view [OF new_entries_data(4)])

lemma stream_or_new_wf:
  "ks_wf ks \<Longrightarrow> kind_at stream_of now ks key = Inr v \<Longrightarrow> stream_wf (stream_or_new v)"
  using kind_at_wf [OF _ stream_kind.value_kind_axioms, of ks now key]
  by (auto simp: stream_or_new_def split: option.splits)



text \<open>
  C28. The exception: when the clock has not moved past the last ID's time and its sequence
  number is the largest \<open>u64\<close>, the increment wraps to 0.  The new ID is below the last
  one, the answer is still a success, and if the stream has an entry with that ID, XADD
  overwrites it instead of appending.
\<close>

theorem xadd_auto_wraps:
  assumes "kind_at stream_of now ks key = Inr (Some s)" and "seq_exhausted ms (last_id s)"
  shows "\<exists>ks' s'. xadd now ms key flds None ks = (Inr (fst (last_id s), 0), True, ks') \<and>
    (fst (last_id s), 0) < last_id s \<and>
    live now ks' = put key (StreamV s') (live now ks) \<and> bt_get (entries s') (fst (last_id s), 0) = Some flds \<and>
    (bt_get (entries s) (fst (last_id s), 0) \<noteq> None \<longrightarrow> btree_wf (entries s) \<longrightarrow>
       length (entries s') = length (entries s))"
proof -
  let ?i = "(fst (last_id s), 0) :: stream_id"
  let ?s' = "s\<lparr>entries := btree_insert ?i flds (entries s), last_id := ?i\<rparr>"
  have "xadd_stream ms flds None s = (Inr ?i, ?s')"
    by (simp add: xadd_stream_def next_stream_id_wraps [OF assms(2)])
  moreover have "?i < last_id s"
    using assms(2) by (cases "last_id s") (simp add: seq_exhausted_def less_prod_def)
  moreover have "length (entries ?s') = length (entries s)"
    if "bt_get (entries s) ?i \<noteq> None" "btree_wf (entries s)"
    using bt.length_ins [OF that(2), of ?i flds] that(1) by simp
  ultimately show ?thesis
    using xadd_result [OF assms(1), of ms flds None]
    by (intro exI [of _ "snd (snd (xadd now ms key flds None ks))"] exI [of _ ?s'] conjI)
       (simp_all add: stream_or_new_def)
qed

theorem xadd_auto_wraps_witness:
  "\<exists>ks'. xadd 0 3 ''s'' [] None
     [(''s'', \<lparr>vdata = StreamV \<lparr>entries = [((5, 0), [(''f'', ''v'')])], last_id = (5, u64_MAX), groups = []\<rparr>, expires_at = None\<rparr>)] =
     (Inr (5, 0), True, ks')"
proof -
  let ?s = "\<lparr>entries = [((5, 0), [(''f'', ''v'')])], last_id = (5, u64_MAX), groups = []\<rparr>"
  have "kind_at stream_of 0 [(''s'', \<lparr>vdata = StreamV ?s, expires_at = None\<rparr>)] ''s'' = Inr (Some ?s)"
    by (simp add: kind_at_def live_def hm_get_def is_expired_def)
  from xadd_auto_wraps [OF this, of 3 "[]"] show ?thesis
    by (auto simp: seq_exhausted_def)
qed

text \<open>
  An explicit ID is accepted exactly when it is greater than the last ID; otherwise the
  answer is the WRONGTYPE error, nobody is woken and an existing stream is unchanged, but on
  a missing key the rejected ID (0-0) leaves an empty stream behind.
\<close>

theorem xadd_explicit:
  assumes "kind_at stream_of now ks key = Inr v"
  shows "if last_id (stream_or_new v) < i
    then \<exists>ks'. xadd now ms key flds (Some i) ks = (Inr i, True, ks') \<and>
      live now ks' = put key (StreamV ((stream_or_new v)\<lparr>entries := btree_insert i flds (entries (stream_or_new v)), last_id := i\<rparr>)) (live now ks)
    else \<exists>ks'. xadd now ms key flds (Some i) ks = (Inl WrongType, False, ks') \<and>
      live now ks' = (case v of Some s \<Rightarrow> live now ks
                       | None \<Rightarrow> (live now ks)(key \<mapsto> \<lparr>vdata = StreamV new_stream_value, expires_at = None\<rparr>))"
proof (cases "last_id (stream_or_new v) < i")
  case True
  then have "xadd_stream ms flds (Some i) (stream_or_new v) =
      (Inr i, (stream_or_new v)\<lparr>entries := btree_insert i flds (entries (stream_or_new v)), last_id := i\<rparr>)"
    by (simp add: xadd_stream_def)
  with True show ?thesis
    using xadd_result [OF assms, of ms flds "Some i"] by auto
next
  case False
  then have "xadd_stream ms flds (Some i) (stream_or_new v) = (Inl WrongType, stream_or_new v)"
    by (simp add: xadd_stream_def)
  then have x: "xadd now ms key flds (Some i) ks = (Inl WrongType, False, snd (snd (xadd now ms key flds (Some i) ks)))"
    and l: "live now (snd (snd (xadd now ms key flds (Some i) ks))) = put key (StreamV (stream_or_new v)) (live now ks)"
    using xadd_result [OF assms, of ms flds "Some i"] by simp_all
  have "put key (StreamV (stream_or_new v)) (live now ks) =
      (case v of Some s \<Rightarrow> live now ks
       | None \<Rightarrow> (live now ks)(key \<mapsto> \<lparr>vdata = StreamV new_stream_value, expires_at = None\<rparr>))"
  proof (cases v)
    case None
    then have "live now ks key = None"
      using assms by (auto simp: kind_at_def split: option.splits)
    with None show ?thesis by (simp add: put_def stream_or_new_def)
  next
    case (Some s)
    then obtain e where "live now ks key = Some e" "vdata e = StreamV s"
      using assms by (auto simp: stream_kind.kind_at_Some)
    with Some put_same [of "live now ks" key e] show ?thesis by (simp add: stream_or_new_def)
  qed
  with False x l show ?thesis by auto
qed

theorem xadd_explicit_witness:
  "\<exists>ks'. xadd 0 3 ''s'' [] (Some (0, 0)) [] = (Inl WrongType, False, ks') \<and> live 0 ks' ''s'' \<noteq> None"
proof -
  have "kind_at stream_of 0 [] ''s'' = Inr None" by (simp add: kind_at_def)
  from xadd_explicit [OF this, of "(0, 0)" 3 "[]"] show ?thesis
    by (auto simp: stream_or_new_def new_stream_value_def)
qed

section \<open>Reading\<close>

lemma xread_loop_view: "live now (snd (xread_loop now cnt ps ks)) = live now ks"
proof (induction now cnt ps ks rule: xread_loop.induct)
  case (2 now cnt key start_id rest ks)
  show ?case
  proof (cases "hm_get ks key")
    case None
    with 2 show ?thesis by simp
  next
    case (Some e)
    then show ?thesis
    proof (cases "is_expired now e")
      case True
      with Some 2 show ?thesis by (simp add: live_remove_expired)
    next
      case False
      with Some 2 show ?thesis
        by (auto simp: Let_def split_beta split: value_data.splits sum.splits)
    qed
  qed
qed simp

definition read_stream :: "instant \<Rightarrow> usize option \<Rightarrow> keyspace \<Rightarrow> bytes \<times> stream_id \<Rightarrow>
    bytes \<times> (stream_id \<times> fields) list" where
  "read_stream now cnt ks p =
     (fst p, case kind_at stream_of now ks (fst p) of
               Inr (Some s) \<Rightarrow> entries_after (snd p) cnt s
             | _ \<Rightarrow> [])"

lemma read_stream_live: "live now ks1 = live now ks2 \<Longrightarrow> read_stream now cnt ks1 = read_stream now cnt ks2"
  by (simp add: read_stream_def kind_at_def fun_eq_iff)

definition wrong_kind :: "instant \<Rightarrow> keyspace \<Rightarrow> bytes \<Rightarrow> bool" where
  "wrong_kind now ks key \<longleftrightarrow> kind_at stream_of now ks key = Inl WrongType"

lemma wrong_kind_live: "live now ks1 = live now ks2 \<Longrightarrow> wrong_kind now ks1 = wrong_kind now ks2"
  by (simp add: wrong_kind_def kind_at_def fun_eq_iff)

lemma xread_loop_result:
  "fst (xread_loop now cnt ps ks) =
     (if \<exists>p \<in> set ps. wrong_kind now ks (fst p) then Inl WrongType
      else Inr (filter (\<lambda>q. snd q \<noteq> []) (map (read_stream now cnt ks) ps)))"
proof (induction now cnt ps ks rule: xread_loop.induct)
  case (2 now cnt key start_id rest ks)
  show ?case
  proof (cases "hm_get ks key")
    case None
    then have "live now ks key = None" by (simp add: live_def)
    with None 2 show ?thesis by (simp add: read_stream_def wrong_kind_def kind_at_def)
  next
    case (Some e)
    show ?thesis
    proof (cases "is_expired now e")
      case True
      note l = live_remove_expired [OF Some True]
      from Some True have "live now ks key = None" by (simp add: live_def)
      with Some True 2 show ?thesis
        by (simp add: read_stream_live [OF l] wrong_kind_live [OF l] read_stream_def wrong_kind_def kind_at_def)
    next
      case False
      with Some have live: "live now ks key = Some e" by (simp add: live_def)
      show ?thesis
      proof (cases "vdata e")
        case (StreamV s)
        with Some False 2 live show ?thesis
          by (auto simp: Let_def split_beta read_stream_def wrong_kind_def kind_at_def)
      qed (use Some False live in \<open>simp_all add: wrong_kind_def kind_at_def\<close>)
    qed
  qed
qed simp

text \<open>
  XREAD answers, in the order of its keys, the entries after the given ID of each stream
  that has any, at most \<open>count\<close> per stream; missing keys are left out, a key of another type
  anywhere makes it WRONGTYPE, and it changes nothing a client can see.
\<close>

theorem xread_spec:
  "fst (xread now keys ids cnt ks) =
     (if \<exists>p \<in> set (zip keys ids). wrong_kind now ks (fst p) then Inl WrongType
      else Inr (filter (\<lambda>q. snd q \<noteq> []) (map (read_stream now cnt ks) (zip keys ids)))) \<and>
   live now (snd (xread now keys ids cnt ks)) = live now ks"
  by (simp add: xread_def xread_loop_result xread_loop_view)

lemma filter_after_prefix:
  assumes "sorted_wrt (<) (map fst (a @ b))" and "a \<noteq> []"
  shows "filter (\<lambda>p. fst (last a) < (fst p :: 'k::linorder)) (a @ b) = b"
proof -
  have mono: "fst p \<le> fst (last a)" if "p \<in> set a" for p
  proof -
    from assms(2) obtain c x where a: "a = c @ [x]" by (metis rev_exhaust)
    with assms(1) that show ?thesis by (force simp: sorted_wrt_append)
  qed
  have "fst (last a) < fst q" if "q \<in> set b" for q
    using assms that by (auto simp: sorted_wrt_append)
  with mono show ?thesis
    by (auto simp: filter_empty_conv filter_id_conv not_less)
qed

lemma bt_after_sorted: "btree_wf m \<Longrightarrow> sorted_wrt (<) (map fst (bt_after (\<lambda>k. k) lo m))"
  by (simp add: bt_wf_def bt_after_def sorted_wrt_map sorted_wrt_filter)

lemma bt_after_after: "lo \<le> hi \<Longrightarrow> bt_after (\<lambda>k. k) hi (bt_after (\<lambda>k. k) lo m) = bt_after (\<lambda>k. k) hi m"
  by (auto simp: bt_after_def intro!: filter_cong)

text \<open>
  C15. Paging: reading with a count and continuing after the last ID of the page reaches every
  entry exactly once, in order.
\<close>

theorem xread_pages:
  assumes "ks_wf ks" and "fst (xread now [key] [start] (Some n) ks) = Inr [(key, page)]"
  shows "\<exists>rest. fst (xread now [key] [start] None ks) = Inr [(key, page @ rest)] \<and> length page \<le> n \<and>
    fst (xread now [key] [fst (last page)] None ks) = Inr (if rest = [] then [] else [(key, rest)])"
proof -
  from assms(2) have "\<not> wrong_kind now ks key" and page: "page = snd (read_stream now (Some n) ks (key, start))"
    and ne: "page \<noteq> []"
    by (auto simp: xread_spec split: if_splits)
  then obtain s where s: "kind_at stream_of now ks key = Inr (Some s)"
    by (auto simp: read_stream_def split: sum.splits option.splits)
  have wf: "btree_wf (entries s)"
    using kind_at_wf [OF assms(1) stream_kind.value_kind_axioms s] by (simp add: stream_wf_def)
  let ?xs = "bt_after (\<lambda>k. k) start (entries s)"
  have p: "page = take n ?xs"
    using page s by (simp add: read_stream_def entries_after_def)
  let ?rest = "drop n ?xs"
  have split: "?xs = page @ ?rest" by (simp add: p)
  have sorted: "sorted_wrt (<) (map fst (page @ ?rest))"
    using bt_after_sorted [OF wf, of start] split by simp
  have "last page \<in> set ?xs"
    using ne split by (metis Un_iff last_in_set set_append)
  then have "start \<le> fst (last page)"
    by (auto simp: bt_after_def)
  then have "bt_after (\<lambda>k. k) (fst (last page)) (entries s) = filter (\<lambda>p. fst (last page) < fst p) (page @ ?rest)"
    using bt_after_after [of start "fst (last page)" "entries s"] split by (simp add: bt_after_def)
  also have "\<dots> = ?rest"
    using filter_after_prefix [OF sorted ne] .
  finally have after: "bt_after (\<lambda>k. k) (fst (last page)) (entries s) = ?rest" .
  show ?thesis
    using s ne split after \<open>\<not> wrong_kind now ks key\<close>
    by (intro exI [of _ ?rest]) (auto simp: xread_spec read_stream_def entries_after_def p)
qed

theorem xread_pages_witness:
  "\<exists>rest. fst (xread 0 [''s''] [(0, 0)] None
     [(''s'', \<lparr>vdata = StreamV \<lparr>entries = [((1, 0), []), ((2, 0), [])], last_id = (2, 0), groups = []\<rparr>, expires_at = None\<rparr>)]) =
     Inr [(''s'', [((1, 0), [])] @ rest)]"
proof -
  let ?s = "\<lparr>entries = [((1, 0), []), ((2, 0), [])], last_id = (2, 0), groups = []\<rparr>"
  let ?ks = "[(''s'', \<lparr>vdata = StreamV ?s, expires_at = None\<rparr>)]"
  have "ks_wf ?ks"
    by (simp add: ks_wf_def ks_all_def hm_wf_def hm_get_def stream_wf_def bt_wf_def)
  moreover have "fst (xread 0 [''s''] [(0, 0)] (Some 1) ?ks) = Inr [(''s'', [((1, 0), [])])]"
    by (simp add: xread_spec read_stream_def wrong_kind_def kind_at_def live_def hm_get_def is_expired_def
        entries_after_def bt_after_def)
  ultimately show ?thesis
    using xread_pages by blast
qed

lemma stream_id_bounds: "(0, 0) \<le> i \<and> i \<le> (u64_MAX, u64_MAX)" for i :: stream_id
  using u64_le_MAX [of "fst i"] u64_le_MAX [of "snd i"]
  by (cases i) (auto simp: less_eq_prod_def word_gt_0)

text \<open>
  XRANGE answers the entries between two IDs, both included, in order and at most
  \<open>count\<close>; an inverted range is empty, and the range from the least to the greatest ID is
  the whole stream.
\<close>

theorem xrange_spec:
  assumes "kind_at stream_of now ks key = Inr (Some s)"
  shows "fst (xrange now key lo hi cnt ks) =
      Inr (take_opt cnt (filter (\<lambda>p. lo \<le> fst p \<and> fst p \<le> hi) (entries s))) \<and>
    fst (xrange now key (0, 0) (u64_MAX, u64_MAX) None ks) = Inr (entries s) \<and>
    fst (xlen now key ks) = Inr (length (entries s))"
proof -
  have empty: "take_opt cnt (filter (\<lambda>p. lo \<le> fst p \<and> fst p \<le> hi) (entries s)) = []" if "hi < lo"
  proof -
    have "filter (\<lambda>p. lo \<le> fst p \<and> fst p \<le> hi) (entries s) = []"
      using that by (auto simp: filter_empty_conv)
    then show ?thesis by (cases cnt) simp_all
  qed
  show ?thesis
    using assms empty stream_id_bounds
    by (simp add: xrange_def xlen_def stream_kind.read_typed bt_between_def)
qed

theorem xrange_spec_witness:
  "fst (xrange 0 ''s'' (2, 0) (9, 0) None
     [(''s'', \<lparr>vdata = StreamV \<lparr>entries = [((1, 0), []), ((2, 0), [])], last_id = (2, 0), groups = []\<rparr>, expires_at = None\<rparr>)]) =
     Inr [((2, 0), [])]"
proof -
  let ?s = "\<lparr>entries = [((1, 0), []), ((2, 0), [])], last_id = (2, 0), groups = []\<rparr>"
  have "kind_at stream_of 0 [(''s'', \<lparr>vdata = StreamV ?s, expires_at = None\<rparr>)] ''s'' = Inr (Some ?s)"
    by (simp add: kind_at_def live_def hm_get_def is_expired_def)
  from xrange_spec [OF this, of "(2, 0)" "(9, 0)" None] show ?thesis by (simp add: word_le_def)
qed

section \<open>Removing entries\<close>

text \<open>
  XTRIM keeps the newest \<open>maxlen\<close> entries and of those the ones from \<open>minid\<close> on, answers
  how many it removed, and never changes the last ID or the groups, so a removed ID is not
  given out again; a stream trimmed to nothing stays under its key.
\<close>

theorem xtrim_spec:
  assumes "ks_wf ks" and "kind_at stream_of now ks key = Inr (Some s)"
  shows "\<exists>m. fst (xtrim now key maxlen minid ks) = Inr (length (entries s) - length m) \<and>
    live now (snd (xtrim now key maxlen minid ks)) = put key (StreamV (s\<lparr>entries := m\<rparr>)) (live now ks) \<and>
    m = filter (\<lambda>p. case minid of Some lo \<Rightarrow> lo \<le> fst p | None \<Rightarrow> True)
          (case maxlen of Some mx \<Rightarrow> drop (length (entries s) - mx) (entries s) | None \<Rightarrow> entries s)"
proof -
  have wf: "btree_wf (entries s)"
    using kind_at_wf [OF assms(1) stream_kind.value_kind_axioms assms(2)] by (simp add: stream_wf_def)
  let ?m1 = "case maxlen of Some mx \<Rightarrow> drop (length (entries s) - mx) (entries s) | None \<Rightarrow> entries s"
  let ?m2 = "filter (\<lambda>p. case minid of Some lo \<Rightarrow> lo \<le> fst p | None \<Rightarrow> True) ?m1"
  have len1: "length ?m1 \<le> length (entries s)" by (simp split: option.splits)
  have split: "length (filter (\<lambda>p. fst p < lo) m) = length m - length (filter (\<lambda>p. lo \<le> fst p) m)"
    for lo :: stream_id and m :: "(stream_id, fields) btreemap"
    using sum_length_filter_compl [of "\<lambda>p. lo \<le> fst p" m] by (simp add: not_le)
  have fil: "length (filter P m) \<le> length m" for P and m :: "(stream_id, fields) btreemap"
    by (rule length_filter_le)
  have "xtrim_stream maxlen minid s = (Inr (length (entries s) - length ?m2), s\<lparr>entries := ?m2\<rparr>)"
    using len1 split fil [of _ ?m1] fil [of _ "entries s"]
    by (cases maxlen; cases minid)
       (auto simp: xtrim_stream_def trim_maxlen_drop [OF wf] trim_minid_filter)
  then show ?thesis
    using assms(2)
    by (intro exI [of _ ?m2]) (simp add: xtrim_def stream_kind.update_typed_result stream_kind.update_typed_view)
qed

theorem xtrim_spec_witness:
  "fst (xtrim 0 ''s'' (Some 1) None
     [(''s'', \<lparr>vdata = StreamV \<lparr>entries = [((1, 0), []), ((2, 0), [])], last_id = (2, 0), groups = []\<rparr>, expires_at = None\<rparr>)]) =
     Inr 1"
proof -
  let ?s = "\<lparr>entries = [((1, 0), []), ((2, 0), [])], last_id = (2, 0), groups = []\<rparr>"
  let ?ks = "[(''s'', \<lparr>vdata = StreamV ?s, expires_at = None\<rparr>)]"
  have "ks_wf ?ks"
    by (simp add: ks_wf_def ks_all_def hm_wf_def hm_get_def stream_wf_def bt_wf_def)
  moreover have "kind_at stream_of 0 ?ks ''s'' = Inr (Some ?s)"
    by (simp add: kind_at_def live_def hm_get_def is_expired_def)
  ultimately show ?thesis
    using xtrim_spec [of ?ks 0 "''s''" ?s "Some 1" None] by auto
qed

text \<open>
  XDEL answers the number of distinct IDs it found, takes exactly these entries out, and
  leaves the last ID, so a later XADD still continues after a deleted top entry.
\<close>

theorem xdel_spec:
  assumes "ks_wf ks" and "kind_at stream_of now ks key = Inr (Some s)"
  shows "fst (xdel now key ids ks) = Inr (int (card (fst ` set (entries s) \<inter> set ids))) \<and>
    live now (snd (xdel now key ids ks)) =
      put key (StreamV (s\<lparr>entries := filter (\<lambda>p. fst p \<notin> set ids) (entries s)\<rparr>)) (live now ks)"
proof -
  have wf: "btree_wf (entries s)"
    using kind_at_wf [OF assms(1) stream_kind.value_kind_axioms assms(2)] by (simp add: stream_wf_def)
  show ?thesis
    using assms(2) xdel_loop.loop_count [OF wf] bt.dom_get [OF wf]
    by (simp add: xdel_def stream_kind.update_typed_result stream_kind.update_typed_view split_beta Let_def
        xdel_loop_filter)
qed

theorem xdel_spec_witness:
  "fst (xdel 0 ''s'' [(2, 0), (7, 0)]
     [(''s'', \<lparr>vdata = StreamV \<lparr>entries = [((1, 0), []), ((2, 0), [])], last_id = (2, 0), groups = []\<rparr>, expires_at = None\<rparr>)]) =
     Inr 1"
proof -
  let ?s = "\<lparr>entries = [((1, 0), []), ((2, 0), [])], last_id = (2, 0), groups = []\<rparr>"
  let ?ks = "[(''s'', \<lparr>vdata = StreamV ?s, expires_at = None\<rparr>)]"
  have "ks_wf ?ks"
    by (simp add: ks_wf_def ks_all_def hm_wf_def hm_get_def stream_wf_def bt_wf_def)
  moreover have "kind_at stream_of 0 ?ks ''s'' = Inr (Some ?s)"
    by (simp add: kind_at_def live_def hm_get_def is_expired_def)
  ultimately show ?thesis
    using xdel_spec [of ?ks 0 "''s''" ?s "[(2, 0), (7, 0)]"] by simp
qed

end
