(* ===== verification/Group_Ops.thy ===== *)
theory Group_Ops
  imports Stream_Ops
begin

text \<open>
  The consumer-group commands of \<^verbatim>\<open>src/src/store.rs\<close>: XGROUP CREATE and DESTROY,
  XREADGROUP, XACK, XAUTOCLAIM, XCLAIM, XINFO and XPENDING.

  A delivery (XREADGROUP) and a claim (XAUTOCLAIM) read the clock again for each entry; the
  model gives them all the one reading of the command.
\<close>

section \<open>Groups and pending entries\<close>

definition no_group :: "bytes \<Rightarrow> bytes \<Rightarrow> store_error" where
  "no_group grp key = NoGroup (utf8_lossy grp) (utf8_lossy key)"

text \<open>Removing an ID from one consumer's pending entries, and adding one to a consumer's.\<close>

definition pel_remove :: "bytes \<Rightarrow> stream_id \<Rightarrow> consumer_group \<Rightarrow> consumer_group" where
  "pel_remove cname i g =
     (case hm_get (consumers g) cname of
        Some c \<Rightarrow> g\<lparr>consumers := hm_insert cname (c\<lparr>pending := hm_remove i (pending c)\<rparr>) (consumers g)\<rparr>
      | None \<Rightarrow> g)"

definition pel_insert :: "bytes \<Rightarrow> stream_id \<Rightarrow> pending_entry \<Rightarrow> consumer_group \<Rightarrow> consumer_group" where
  "pel_insert cname i p g =
     (let c = (case hm_get (consumers g) cname of Some c \<Rightarrow> c | None \<Rightarrow> new_consumer)
      in g\<lparr>consumers := hm_insert cname (c\<lparr>pending := hm_insert i p (pending c)\<rparr>) (consumers g)\<rparr>)"

text \<open>The pending entry of a consumer under an ID.\<close>

definition pel_get :: "consumer_group \<Rightarrow> bytes \<Rightarrow> stream_id \<Rightarrow> pending_entry option" where
  "pel_get g cname i =
     (case hm_get (consumers g) cname of Some c \<Rightarrow> hm_get (pending c) i | None \<Rightarrow> None)"

text \<open>
  The pattern of the commands on one group of one stream: what they answer for a missing key
  and for a missing group, and the operation on the stream and the group.
\<close>

definition update_group :: "instant \<Rightarrow> bytes \<Rightarrow> bytes \<Rightarrow> 'r result \<Rightarrow>
    (stream \<Rightarrow> consumer_group \<Rightarrow> 'r \<times> consumer_group) \<Rightarrow> keyspace \<Rightarrow> 'r result \<times> keyspace" where
  "update_group now key grp missing f =
     update_key now key missing
       (modify_kind stream_of StreamV
         (\<lambda>s. case hm_get (groups s) grp of
                None \<Rightarrow> (missing, s)
              | Some g \<Rightarrow> (let (r, g') = f s g in (Inr r, s\<lparr>groups := hm_insert grp g' (groups s)\<rparr>))))"

definition read_group :: "instant \<Rightarrow> bytes \<Rightarrow> bytes \<Rightarrow> (stream \<Rightarrow> consumer_group \<Rightarrow> 'r) \<Rightarrow> keyspace \<Rightarrow>
    'r result \<times> keyspace" where
  "read_group now key grp f =
     read_key now key (Inl (no_group grp key))
       (with_kind stream_of
         (\<lambda>s. case hm_get (groups s) grp of None \<Rightarrow> Inl (no_group grp key) | Some g \<Rightarrow> Inr (f s g)))"

section \<open>The commands\<close>

definition xgroup_create_stream :: "bytes \<Rightarrow> stream_id \<Rightarrow> stream \<Rightarrow> unit result \<times> stream" where
  "xgroup_create_stream grp sid s =
     (if hm_contains (groups s) grp then (Inl BusyGroup, s)
      else
        let resolved_id = (if sid = (u64_MAX, u64_MAX) then last_id s else sid)
        in (Inr (), s\<lparr>groups := hm_insert grp \<lparr>last_delivered_id = resolved_id, consumers = []\<rparr> (groups s)\<rparr>))"

definition xgroup_create :: "instant \<Rightarrow> bytes \<Rightarrow> bytes \<Rightarrow> stream_id \<Rightarrow> bool \<Rightarrow> keyspace \<Rightarrow> unit result \<times> keyspace" where
  "xgroup_create now key grp sid mkstream ks =
     (if hm_get (expire_key now key ks) key = None \<and> \<not> mkstream
      then (Inl KeyNotFound, expire_key now key ks)
      else create_key now key new_stream
             (modify_kind stream_of StreamV (xgroup_create_stream grp sid)) ks)"

definition xgroup_destroy :: "instant \<Rightarrow> bytes \<Rightarrow> bytes \<Rightarrow> keyspace \<Rightarrow> bool result \<times> keyspace" where
  "xgroup_destroy now key grp =
     update_key now key (Inr False)
       (modify_kind stream_of StreamV
         (\<lambda>s. (Inr (hm_contains (groups s) grp), s\<lparr>groups := hm_remove grp (groups s)\<rparr>)))"

text \<open>Delivery of new entries: each becomes the last delivered one and pending for the consumer.\<close>

definition deliver :: "instant \<Rightarrow> bytes \<Rightarrow> (stream_id \<times> fields) list \<Rightarrow> consumer_group \<Rightarrow> consumer_group" where
  "deliver now cname es g =
     fold (\<lambda>(i, _) g. pel_insert cname i \<lparr>delivery_time = now, delivery_count = 1\<rparr>
                        (g\<lparr>last_delivered_id := i\<rparr>)) es g"

definition pending_from :: "stream_id \<Rightarrow> usize option \<Rightarrow> stream \<Rightarrow> consumer \<Rightarrow> (stream_id \<times> fields) list" where
  "pending_from start cnt s c =
     (let pending_ids = take_opt cnt (sort (filter (\<lambda>i. i \<ge> start) (map fst (pending c))))
      in List.map_filter (\<lambda>i. map_option (Pair i) (bt_get (entries s) i)) pending_ids)"

text \<open>What XREADGROUP does on one group: the entries it answers, and the group.\<close>

definition read_group_step :: "instant \<Rightarrow> bytes \<Rightarrow> string \<Rightarrow> usize option \<Rightarrow> stream \<Rightarrow> consumer_group \<Rightarrow>
    (stream_id \<times> fields) list \<times> consumer_group" where
  "read_group_step now cname id_str cnt s g =
     (if id_str = ''>'' then
        (let es = entries_after (last_delivered_id g) cnt s in (es, deliver now cname es g))
      else
        (let start_id =
           (if id_str = ''0'' \<or> id_str = ''0-0'' then (0, 0)
            else (case parse_stream_id id_str of Some i \<Rightarrow> i | None \<Rightarrow> (0, 0)))
         in (case hm_get (consumers g) cname of
               Some c \<Rightarrow> (pending_from start_id cnt s c, g)
             | None \<Rightarrow> ([], g))))"

fun xreadgroup_loop :: "instant \<Rightarrow> bytes \<Rightarrow> bytes \<Rightarrow> usize option \<Rightarrow> (bytes \<times> string) list \<Rightarrow> keyspace \<Rightarrow>
    (bytes \<times> (stream_id \<times> fields) list) list result \<times> keyspace" where
  "xreadgroup_loop now grp cname cnt [] ks = (Inr [], ks)"
| "xreadgroup_loop now grp cname cnt ((key, id_str) # rest) ks =
     (let ks1 = expire_key now key ks
      in (case hm_get ks1 key of
            None \<Rightarrow> (Inl (no_group grp key), ks1)
          | Some e \<Rightarrow>
              (case vdata e of
                 StreamV s \<Rightarrow>
                   (case hm_get (groups s) grp of
                      None \<Rightarrow> (Inl (no_group grp key), ks1)
                    | Some g \<Rightarrow>
                        (let (es, g') = read_group_step now cname id_str cnt s g;
                             ks2 = hm_insert key (e\<lparr>vdata := StreamV (s\<lparr>groups := hm_insert grp g' (groups s)\<rparr>)\<rparr>) ks1;
                             (r, ks') = xreadgroup_loop now grp cname cnt rest ks2
                         in (case r of
                               Inl err \<Rightarrow> (Inl err, ks')
                             | Inr res \<Rightarrow> (Inr (if es \<noteq> [] then (key, es) # res else res), ks'))))
               | _ \<Rightarrow> (Inl WrongType, ks1))))"

definition xreadgroup :: "instant \<Rightarrow> bytes \<Rightarrow> bytes \<Rightarrow> bytes list \<Rightarrow> string list \<Rightarrow> usize option \<Rightarrow> keyspace \<Rightarrow>
    (bytes \<times> (stream_id \<times> fields) list) list result \<times> keyspace" where
  "xreadgroup now grp cname keys ids cnt ks = xreadgroup_loop now grp cname cnt (zip keys ids) ks"

text \<open>XACK stops at the first consumer that has the ID pending.\<close>

fun ack_consumers :: "stream_id \<Rightarrow> (bytes, consumer) hashmap \<Rightarrow> bool \<times> (bytes, consumer) hashmap" where
  "ack_consumers i [] = (False, [])"
| "ack_consumers i ((n, c) # cs) =
     (if hm_contains (pending c) i then (True, (n, c\<lparr>pending := hm_remove i (pending c)\<rparr>) # cs)
      else (let (b, cs') = ack_consumers i cs in (b, (n, c) # cs')))"

definition ack_step :: "stream_id \<Rightarrow> consumer_group \<Rightarrow> bool \<times> consumer_group" where
  "ack_step i g = (let (b, cs) = ack_consumers i (consumers g) in (b, g\<lparr>consumers := cs\<rparr>))"

definition xack :: "instant \<Rightarrow> bytes \<Rightarrow> bytes \<Rightarrow> stream_id list \<Rightarrow> keyspace \<Rightarrow> i64 result \<times> keyspace" where
  "xack now key grp ids = update_group now key grp (Inr 0) (\<lambda>s g. count_loop ack_step ids g)"

definition idle_at_least :: "instant \<Rightarrow> u64 \<Rightarrow> pending_entry \<Rightarrow> bool" where
  "idle_at_least now ms p \<longleftrightarrow> duration_since now (delivery_time p) \<ge> from_millis (unat ms)"

definition qualifying :: "instant \<Rightarrow> u64 \<Rightarrow> stream_id \<Rightarrow> consumer_group \<Rightarrow> (stream_id \<times> u64 \<times> bytes) list" where
  "qualifying now min_idle start g =
     sort_key fst
       (concat (map (\<lambda>(n, c). map (\<lambda>(i, p). (i, delivery_count p, n))
                     (filter (\<lambda>(i, p). i \<ge> start \<and> idle_at_least now min_idle p) (pending c)))
                (consumers g)))"

definition autoclaim_step :: "instant \<Rightarrow> bytes \<Rightarrow> stream \<Rightarrow> stream_id \<times> u64 \<times> bytes \<Rightarrow>
    (stream_id \<times> fields) list \<times> stream_id list \<times> consumer_group \<Rightarrow>
    (stream_id \<times> fields) list \<times> stream_id list \<times> consumer_group" where
  "autoclaim_step now cname s q st =
     (case q of (i, old_count, orig) \<Rightarrow>
      case st of (claimed, deleted, g) \<Rightarrow>
      (let g1 = pel_remove orig i g;
           (claimed', deleted') =
             (case bt_get (entries s) i of
                Some f \<Rightarrow> (claimed @ [(i, f)], deleted)
              | None \<Rightarrow> (claimed, deleted @ [i]));
           g2 = pel_insert cname i \<lparr>delivery_time = now, delivery_count = old_count + 1\<rparr> g1
       in (claimed', deleted', g2)))"

definition autoclaim_group :: "instant \<Rightarrow> bytes \<Rightarrow> u64 \<Rightarrow> stream_id \<Rightarrow> usize option \<Rightarrow> stream \<Rightarrow> consumer_group \<Rightarrow>
    (stream_id \<times> (stream_id \<times> fields) list \<times> stream_id list) \<times> consumer_group" where
  "autoclaim_group now cname min_idle start cnt s g =
     (let qs = qualifying now min_idle start g;
          to_process = take_opt cnt qs;
          next_start_id = (case drop (length to_process) qs of [] \<Rightarrow> (0, 0) | q # _ \<Rightarrow> fst q);
          (claimed, deleted, g') = fold (autoclaim_step now cname s) to_process ([], [], g)
      in ((next_start_id, claimed, deleted), g'))"

definition xautoclaim :: "instant \<Rightarrow> bytes \<Rightarrow> bytes \<Rightarrow> bytes \<Rightarrow> u64 \<Rightarrow> stream_id \<Rightarrow> usize option \<Rightarrow> keyspace \<Rightarrow>
    (stream_id \<times> (stream_id \<times> fields) list \<times> stream_id list) result \<times> keyspace" where
  "xautoclaim now key grp cname min_idle start cnt =
     update_group now key grp (Inl (no_group grp key)) (autoclaim_group now cname min_idle start cnt)"

text \<open>
  XCLAIM.  The scan stops at the first consumer that has the ID pending; the entry counts as
  found if it has been idle long enough or FORCE is given.  \<open>None\<close> is the panic of a
  delivery time before the range of the clock.
\<close>

fun find_pending :: "stream_id \<Rightarrow> (bytes, consumer) hashmap \<Rightarrow> (bytes \<times> pending_entry) option" where
  "find_pending i [] = None"
| "find_pending i ((n, c) # cs) =
     (case hm_get (pending c) i of Some p \<Rightarrow> Some (n, p) | None \<Rightarrow> find_pending i cs)"

definition claimed_entry :: "bool \<Rightarrow> stream_id \<Rightarrow> stream \<Rightarrow> (stream_id \<times> fields option) list" where
  "claimed_entry justid i s =
     (if justid then [(i, None)]
      else (case bt_get (entries s) i of Some f \<Rightarrow> [(i, Some f)] | None \<Rightarrow> []))"

definition xclaim_step :: "instant \<Rightarrow> bytes \<Rightarrow> u64 \<Rightarrow> u64 option \<Rightarrow> u64 option \<Rightarrow> bool \<Rightarrow> bool \<Rightarrow> stream \<Rightarrow>
    stream_id \<Rightarrow> consumer_group \<Rightarrow> ((stream_id \<times> fields option) list \<times> consumer_group) option" where
  "xclaim_step now cname min_idle idle retrycount force justid s i g =
     (let found =
        (case find_pending i (consumers g) of
           Some (n, p) \<Rightarrow> if idle_at_least now min_idle p \<or> force then Some (n, p) else None
         | None \<Rightarrow> None)
      in (case found of
            None \<Rightarrow>
              if force \<and> bt_get (entries s) i \<noteq> None then
                (case (case idle of Some ms \<Rightarrow> instant_checked_sub now (from_millis (unat ms)) | None \<Rightarrow> Some now) of
                   None \<Rightarrow> None
                 | Some t \<Rightarrow>
                     Some (claimed_entry justid i s,
                           pel_insert cname i
                             \<lparr>delivery_time = t,
                              delivery_count = (case retrycount of Some n \<Rightarrow> n | None \<Rightarrow> 1)\<rparr> g))
              else Some ([], g)
          | Some (from, p) \<Rightarrow>
              (case (case idle of Some ms \<Rightarrow> instant_checked_sub now (from_millis (unat ms))
                     | None \<Rightarrow> Some (delivery_time p)) of
                 None \<Rightarrow> None
               | Some t \<Rightarrow>
                   Some (claimed_entry justid i s,
                         pel_insert cname i
                           \<lparr>delivery_time = t,
                            delivery_count = (case retrycount of Some n \<Rightarrow> n | None \<Rightarrow> delivery_count p + 1)\<rparr>
                           (pel_remove from i g)))))"

fun xclaim_loop :: "(stream_id \<Rightarrow> consumer_group \<Rightarrow> ((stream_id \<times> fields option) list \<times> consumer_group) option) \<Rightarrow>
    stream_id list \<Rightarrow> consumer_group \<Rightarrow> ((stream_id \<times> fields option) list \<times> consumer_group) option" where
  "xclaim_loop step [] g = Some ([], g)"
| "xclaim_loop step (i # ids) g =
     (case step i g of
        None \<Rightarrow> None
      | Some (c1, g1) \<Rightarrow>
          (case xclaim_loop step ids g1 of None \<Rightarrow> None | Some (c2, g2) \<Rightarrow> Some (c1 @ c2, g2)))"

text \<open>\<open>Inr None\<close> is the panic; \<open>xclaim_total\<close> shows that no clock reading produces it.\<close>

definition xclaim :: "instant \<Rightarrow> bytes \<Rightarrow> bytes \<Rightarrow> bytes \<Rightarrow> u64 \<Rightarrow> stream_id list \<Rightarrow> u64 option \<Rightarrow> u64 option \<Rightarrow>
    bool \<Rightarrow> bool \<Rightarrow> keyspace \<Rightarrow> (stream_id \<times> fields option) list option result \<times> keyspace" where
  "xclaim now key grp cname min_idle ids idle retrycount force justid =
     update_group now key grp (Inl (no_group grp key))
       (\<lambda>s g. case xclaim_loop (xclaim_step now cname min_idle idle retrycount force justid s) ids g of
                None \<Rightarrow> (None, g)
              | Some (r, g') \<Rightarrow> (Some r, g'))"

definition group_info :: "bytes \<times> consumer_group \<Rightarrow> (string, string) hashmap" where
  "group_info p =
     (case p of (name, g) \<Rightarrow>
        [(''name'', utf8_lossy name),
         (''consumers'', nat_str (length (consumers g))),
         (''pending'', nat_str (sum_list (map (\<lambda>(n, c). length (pending c)) (consumers g)))),
         (''last-delivered-id'', format_stream_id (last_delivered_id g))])"

definition xinfo_groups :: "instant \<Rightarrow> bytes \<Rightarrow> keyspace \<Rightarrow> (string, string) hashmap list result \<times> keyspace" where
  "xinfo_groups now key =
     read_key now key (Inr []) (with_kind stream_of (\<lambda>s. Inr (map group_info (groups s))))"

definition xinfo_stream :: "instant \<Rightarrow> bytes \<Rightarrow> keyspace \<Rightarrow> xinfo_stream_snapshot option result \<times> keyspace" where
  "xinfo_stream now key =
     read_key now key (Inr None)
       (with_kind stream_of
         (\<lambda>s. Inr (Some
            \<lparr>snap_length = length (entries s), snap_last_id = last_id s, snap_groups_count = length (groups s),
             snap_first_entry = (case entries s of [] \<Rightarrow> None | p # _ \<Rightarrow> Some p),
             snap_last_entry = (case rev (entries s) of [] \<Rightarrow> None | p # _ \<Rightarrow> Some p)\<rparr>)))"

definition idle_ms :: "instant \<Rightarrow> pending_entry \<Rightarrow> nat" where
  "idle_ms now p = as_millis (duration_since now (delivery_time p))"

definition consumer_info :: "instant \<Rightarrow> bytes \<times> consumer \<Rightarrow> (string, string) hashmap" where
  "consumer_info now p =
     (case p of (name, c) \<Rightarrow>
        [(''name'', utf8_lossy name),
         (''pending'', nat_str (length (pending c))),
         (''idle'', nat_str (case map (\<lambda>(i, pe). idle_ms now pe) (pending c) of
                               [] \<Rightarrow> 0 | m # ms \<Rightarrow> fold min ms m))])"

definition xinfo_consumers :: "instant \<Rightarrow> bytes \<Rightarrow> bytes \<Rightarrow> keyspace \<Rightarrow>
    (string, string) hashmap list result \<times> keyspace" where
  "xinfo_consumers now key grp = read_group now key grp (\<lambda>s g. map (consumer_info now) (consumers g))"

definition pending_rows :: "instant \<Rightarrow> stream_id \<Rightarrow> stream_id \<Rightarrow> u64 option \<Rightarrow> bytes \<times> consumer \<Rightarrow>
    (stream_id \<times> bytes \<times> nat \<times> u64) list" where
  "pending_rows now min_id max_id min_idle p =
     (case p of (name, c) \<Rightarrow>
        map (\<lambda>(i, pe). (i, name, idle_ms now pe, delivery_count pe))
          (filter (\<lambda>(i, pe). \<not> (i < min_id \<or> i > max_id) \<and>
                     \<not> (case min_idle of Some ms \<Rightarrow> idle_ms now pe < unat ms | None \<Rightarrow> False)) (pending c)))"

definition xpending_range :: "instant \<Rightarrow> bytes \<Rightarrow> bytes \<Rightarrow> stream_id \<Rightarrow> stream_id \<Rightarrow> usize \<Rightarrow> bytes option \<Rightarrow>
    u64 option \<Rightarrow> keyspace \<Rightarrow> (stream_id \<times> bytes \<times> nat \<times> u64) list result \<times> keyspace" where
  "xpending_range now key grp min_id max_id cnt consumer_filter min_idle =
     read_group now key grp
       (\<lambda>s g.
          (let consumers_to_check =
             (case consumer_filter of
                Some name \<Rightarrow> (case hm_get (consumers g) name of Some c \<Rightarrow> [(name, c)] | None \<Rightarrow> [])
              | None \<Rightarrow> consumers g)
           in take cnt (sort_key fst (concat (map (pending_rows now min_id max_id min_idle) consumers_to_check)))))"

text \<open>The running minimum and maximum of XPENDING's summary.\<close>

definition min_step :: "stream_id \<Rightarrow> stream_id option \<Rightarrow> stream_id option" where
  "min_step i m = (case m of None \<Rightarrow> Some i | Some x \<Rightarrow> if i < x then Some i else Some x)"

definition max_step :: "stream_id \<Rightarrow> stream_id option \<Rightarrow> stream_id option" where
  "max_step i m = (case m of None \<Rightarrow> Some i | Some x \<Rightarrow> if i > x then Some i else Some x)"

definition summary_step :: "bytes \<times> consumer \<Rightarrow>
    usize \<times> stream_id option \<times> stream_id option \<times> (bytes \<times> usize) list \<Rightarrow>
    usize \<times> stream_id option \<times> stream_id option \<times> (bytes \<times> usize) list" where
  "summary_step p st =
     (case p of (name, c) \<Rightarrow>
      case st of (tot, lo, hi, counts) \<Rightarrow>
        (let cnt = length (pending c)
         in if cnt > 0 then
              (tot + cnt, fold (\<lambda>(i, _). min_step i) (pending c) lo,
               fold (\<lambda>(i, _). max_step i) (pending c) hi, counts @ [(name, cnt)])
            else st))"

definition xpending_summary :: "instant \<Rightarrow> bytes \<Rightarrow> bytes \<Rightarrow> keyspace \<Rightarrow>
    (usize \<times> stream_id option \<times> stream_id option \<times> (bytes \<times> usize) list) result \<times> keyspace" where
  "xpending_summary now key grp =
     read_group now key grp (\<lambda>s g. fold summary_step (consumers g) (0, None, None, []))"

section \<open>Pending entries as a function\<close>

lemma pel_get_insert [map_simps]:
  "pel_get (pel_insert n i p g) = (pel_get g)(n := (pel_get g n)(i \<mapsto> p))"
  by (auto simp: pel_get_def pel_insert_def Let_def new_consumer_def fun_eq_iff split: option.splits)

lemma pel_get_remove [map_simps]:
  "pel_get (pel_remove n i g) = (pel_get g)(n := (pel_get g n)(i := None))"
  by (auto simp: pel_get_def pel_remove_def fun_eq_iff split: option.splits)

lemma pel_insert_last [simp]: "last_delivered_id (pel_insert n i p g) = last_delivered_id g"
  by (simp add: pel_insert_def Let_def)

lemma pel_remove_last [simp]: "last_delivered_id (pel_remove n i g) = last_delivered_id g"
  by (simp add: pel_remove_def split: option.splits)

lemma pel_get_last [simp]: "pel_get (g\<lparr>last_delivered_id := i\<rparr>) = pel_get g"
  by (simp add: pel_get_def fun_eq_iff)

lemma group_wf_consumers:
  "group_wf g \<longleftrightarrow> hm_wf (consumers g) \<and> (\<forall>n c. hm_get (consumers g) n = Some c \<longrightarrow> hm_wf (pending c))"
  by (auto simp: group_wf_def consumer_wf_def hm.elems_iff dest: hm_get_Some_in)

lemma group_wf_insert [simp, wf_intros]: "group_wf g \<Longrightarrow> group_wf (pel_insert n i p g)"
  by (auto simp: group_wf_consumers pel_insert_def Let_def new_consumer_def split: option.splits if_splits)

lemma group_wf_remove [simp, wf_intros]: "group_wf g \<Longrightarrow> group_wf (pel_remove n i g)"
  by (auto simp: group_wf_consumers pel_remove_def split: option.splits if_splits)

lemma group_wf_last [simp]: "group_wf (g\<lparr>last_delivered_id := i\<rparr>) = group_wf g"
  by (simp add: group_wf_def)

text \<open>The IDs some consumer has pending.\<close>

definition pel_ids :: "consumer_group \<Rightarrow> stream_id set" where
  "pel_ids g = {i. \<exists>n. pel_get g n i \<noteq> None}"

text \<open>
  The two invariants of a group: an ID is pending for at most one consumer, and only
  delivered IDs are pending.
\<close>

definition pel_unique :: "consumer_group \<Rightarrow> bool" where
  "pel_unique g \<longleftrightarrow> (\<forall>i n m p q. pel_get g n i = Some p \<longrightarrow> pel_get g m i = Some q \<longrightarrow> n = m)"

lemma pel_uniqueD: "pel_unique g \<Longrightarrow> pel_get g n i = Some p \<Longrightarrow> pel_get g m i = Some q \<Longrightarrow> n = m"
  unfolding pel_unique_def by blast

lemma pel_uniqueI:
  "(\<And>i n m p q. pel_get g n i = Some p \<Longrightarrow> pel_get g m i = Some q \<Longrightarrow> n = m) \<Longrightarrow> pel_unique g"
  unfolding pel_unique_def by blast

definition pel_delivered :: "consumer_group \<Rightarrow> bool" where
  "pel_delivered g \<longleftrightarrow> (\<forall>i \<in> pel_ids g. i \<le> last_delivered_id g)"

lemma pel_ids_insert: "pel_ids (pel_insert n i p g) = insert i (pel_ids g)"
  by (auto simp: pel_ids_def pel_get_insert split: if_splits)

lemma pel_ids_iff: "i \<in> pel_ids g \<longleftrightarrow> (\<exists>n p. pel_get g n i = Some p)"
  by (auto simp: pel_ids_def)

lemma pel_ids_remove:
  assumes "pel_unique g" and "pel_get g n i = Some p"
  shows "pel_ids (pel_remove n i g) = pel_ids g - {i}"
proof (rule set_eqI)
  fix j
  have "pel_get g m i = None" if "m \<noteq> n" for m
    using pel_uniqueD [OF assms(1) _ assms(2)] that by (cases "pel_get g m i") auto
  then have "pel_get (pel_remove n i g) m j = (if j = i then None else pel_get g m j)" for m
    by (simp add: pel_get_remove)
  then show "j \<in> pel_ids (pel_remove n i g) \<longleftrightarrow> j \<in> pel_ids g - {i}"
    by (auto simp: pel_ids_iff)
qed

lemma pel_unique_remove: "pel_unique g \<Longrightarrow> pel_unique (pel_remove n i g)"
  by (rule pel_uniqueI) (auto simp: pel_get_remove dest: pel_uniqueD split: if_splits)

text \<open>Adding an ID keeps uniqueness when no other consumer has it.\<close>

lemma pel_unique_insert:
  assumes "pel_unique g" and "\<And>m. m \<noteq> n \<Longrightarrow> pel_get g m i = None"
  shows "pel_unique (pel_insert n i p g)"
proof (rule pel_uniqueI)
  fix j m m' q q'
  assume "pel_get (pel_insert n i p g) m j = Some q" "pel_get (pel_insert n i p g) m' j = Some q'"
  then show "m = m'"
    using assms(2) [of m] assms(2) [of m'] pel_uniqueD [OF assms(1), of m j q m' q']
    by (cases "j = i") (auto simp: pel_get_insert dest: pel_uniqueD [OF assms(1)] split: if_splits)
qed

lemma finite_pel_ids: "finite (pel_ids g)"
proof -
  have "pel_ids g \<subseteq> (\<Union>(n, c) \<in> set (consumers g). fst ` set (pending c))"
  proof
    fix i
    assume "i \<in> pel_ids g"
    then obtain n p where "pel_get g n i = Some p"
      by (auto simp: pel_ids_iff)
    then obtain c where "hm_get (consumers g) n = Some c" "hm_get (pending c) i = Some p"
      by (auto simp: pel_get_def split: option.splits)
    then have "(n, c) \<in> set (consumers g)" "(i, p) \<in> set (pending c)"
      by (auto dest: hm_get_Some_in)
    then show "i \<in> (\<Union>(n, c) \<in> set (consumers g). fst ` set (pending c))" by force
  qed
  then show ?thesis
    by (rule finite_subset) auto
qed

text \<open>XACK's scan is a removal from the first owner.\<close>

lemma find_pending_owner:
  "hm_wf cs \<Longrightarrow> find_pending i cs = Some (n, p) \<Longrightarrow> \<exists>c. hm_get cs n = Some c \<and> hm_get (pending c) i = Some p"
proof (induction i cs rule: find_pending.induct)
  case (2 i m c cs)
  then show ?case
    by (auto simp: hm_get_def hm_wf_def split: option.splits)
       (metis fst_conv image_eqI map_of_SomeD option.inject)+
qed simp

lemma find_pending_None: "find_pending i cs = None \<Longrightarrow> hm_get cs n = Some c \<Longrightarrow> hm_get (pending c) i = None"
  by (induction i cs rule: find_pending.induct) (auto simp: hm_get_def split: option.splits if_splits)

lemma find_pending_get:
  assumes "group_wf g"
  shows "(case find_pending i (consumers g) of
      None \<Rightarrow> i \<notin> pel_ids g
    | Some (n, p) \<Rightarrow> pel_get g n i = Some p)"
proof (cases "find_pending i (consumers g)")
  case None
  then show ?thesis
    by (auto simp: pel_ids_def pel_get_def find_pending_None split: option.splits)
next
  case (Some q)
  with find_pending_owner [of "consumers g" i "fst q" "snd q"] assms show ?thesis
    by (auto simp: pel_get_def group_wf_def)
qed

lemma ack_consumers_owner:
  "hm_wf cs \<Longrightarrow>
   ack_consumers i cs =
     (case find_pending i cs of
        None \<Rightarrow> (False, cs)
      | Some (n, p) \<Rightarrow>
          (True, case hm_get cs n of
                   Some c \<Rightarrow> hm_insert n (c\<lparr>pending := hm_remove i (pending c)\<rparr>) cs
                 | None \<Rightarrow> cs))"
proof (induction i cs rule: ack_consumers.induct)
  case (2 i m c cs)
  show ?case
  proof (cases "hm_get (pending c) i")
    case None
    have wf: "hm_wf cs" "m \<notin> fst ` set cs"
      using "2.prems" by (auto simp: hm_wf_def)
    show ?thesis
    proof (cases "find_pending i cs")
      case None': (Some q)
      then obtain n p where q: "find_pending i cs = Some (n, p)" by (cases q) auto
      with find_pending_owner [OF wf(1)] obtain d where d: "hm_get cs n = Some d" by blast
      then have "n \<noteq> m"
        using wf(2) by (force dest: hm_get_Some_in)
      with None 2 wf q d show ?thesis
        by (auto simp: hm_contains_def hm_get_def hm_insert_def)
    qed (use None 2 wf in \<open>simp add: hm_contains_def\<close>)
  qed (simp add: hm_contains_def hm_get_def hm_insert_def)
qed simp

lemma ack_step_owner:
  assumes "group_wf g"
  shows "ack_step i g =
    (case find_pending i (consumers g) of None \<Rightarrow> (False, g) | Some (n, p) \<Rightarrow> (True, pel_remove n i g))"
proof (cases "find_pending i (consumers g)")
  case None
  with assms show ?thesis
    by (simp add: ack_step_def ack_consumers_owner group_wf_def)
next
  case (Some q)
  then obtain n p where q: "find_pending i (consumers g) = Some (n, p)" by (cases q) auto
  with find_pending_owner [of "consumers g" i n p] assms obtain c where "hm_get (consumers g) n = Some c"
    by (auto simp: group_wf_def)
  with q assms show ?thesis
    by (simp add: ack_step_def ack_consumers_owner group_wf_def pel_remove_def)
qed

interpretation ack_loop: removing_loop ack_step pel_ids "\<lambda>g. group_wf g \<and> pel_unique g"
proof
  fix i g
  assume inv: "group_wf g \<and> pel_unique g"
  note owner = find_pending_get [of g i] ack_step_owner [of g i]
  show "fst (ack_step i g) \<longleftrightarrow> i \<in> pel_ids g"
    using inv owner by (cases "find_pending i (consumers g)") (auto simp: pel_ids_def)
  show "pel_ids (snd (ack_step i g)) = pel_ids g - {i}"
    using inv owner pel_ids_remove [of g _ i] by (cases "find_pending i (consumers g)") auto
  show "group_wf (snd (ack_step i g)) \<and> pel_unique (snd (ack_step i g))"
    using inv owner by (cases "find_pending i (consumers g)") (auto simp: pel_unique_remove)
qed (rule finite_pel_ids)

end
