(* ===== verification/Group_Facts.thy ===== *)
theory Group_Facts
  imports Group_Ops "HOL-Library.Multiset"
begin

text \<open>
  What the consumer-group commands guarantee: the invariant of the pending entries, delivery
  exactly once, acknowledgement, claiming, and the agreement of the two forms of XPENDING.
\<close>

section \<open>One group of one stream\<close>

text \<open>The stream under a key together with one of its groups.\<close>

definition group_at :: "instant \<Rightarrow> keyspace \<Rightarrow> bytes \<Rightarrow> bytes \<Rightarrow> (stream \<times> consumer_group) option" where
  "group_at now ks key grp =
     (case kind_at stream_of now ks key of
        Inr (Some s) \<Rightarrow> map_option (Pair s) (hm_get (groups s) grp)
      | _ \<Rightarrow> None)"

definition put_group :: "bytes \<Rightarrow> bytes \<Rightarrow> stream \<Rightarrow> consumer_group \<Rightarrow> (bytes \<rightharpoonup> value_entry) \<Rightarrow> (bytes \<rightharpoonup> value_entry)" where
  "put_group key grp s g = put key (StreamV (s\<lparr>groups := hm_insert grp g (groups s)\<rparr>))"

lemma group_at_Some:
  "group_at now ks key grp = Some (s, g) \<longleftrightarrow>
     kind_at stream_of now ks key = Inr (Some s) \<and> hm_get (groups s) grp = Some g"
  by (auto simp: group_at_def split: sum.splits option.splits)

lemma group_at_put:
  "live now ks' = put_group key grp s g (live now ks) \<Longrightarrow>
   group_at now ks' key grp = Some (s\<lparr>groups := hm_insert grp g (groups s)\<rparr>, g)"
  by (simp add: group_at_Some put_group_def stream_kind.kind_at_put)

lemma update_group_at:
  assumes "group_at now ks key grp = Some (s, g)"
  shows "fst (update_group now key grp missing f ks) = Inr (fst (f s g))"
    and "live now (snd (update_group now key grp missing f ks)) = put_group key grp s (snd (f s g)) (live now ks)"
  using assms
  by (auto simp: update_group_def group_at_Some put_group_def stream_kind.update_typed_view
      update_key_result kind_at_def modify_kind_def split_beta Let_def split: option.splits)

lemma read_group_at:
  assumes "group_at now ks key grp = Some (s, g)"
  shows "fst (read_group now key grp f ks) = Inr (f s g)"
    and "live now (snd (read_group now key grp f ks)) = live now ks"
  using assms
  by (auto simp: read_group_def group_at_Some read_key_result kind_at_def with_kind_def read_key_view
      split: option.splits)

lemma group_at_wf:
  assumes "ks_wf ks" and "group_at now ks key grp = Some (s, g)"
  shows "stream_wf s" and "group_wf g"
proof -
  from assms show wf: "stream_wf s"
    using kind_at_wf [OF assms(1) stream_kind.value_kind_axioms] by (fastforce simp: group_at_Some)
  with assms(2) show "group_wf g"
    by (auto simp: group_at_Some stream_wf_def dest: hm_get_Some_in)
qed

section \<open>Delivery\<close>

lemma pel_get_deliver:
  "pel_get (deliver now cname es g) n i =
     (if n = cname \<and> i \<in> fst ` set es then Some \<lparr>delivery_time = now, delivery_count = 1\<rparr>
      else pel_get g n i)"
proof -
  have "pel_get (fold (\<lambda>(i, _) g. pel_insert cname i \<lparr>delivery_time = now, delivery_count = 1\<rparr>
                        (g\<lparr>last_delivered_id := i\<rparr>)) es g) n i =
      (if n = cname \<and> i \<in> fst ` set es then Some \<lparr>delivery_time = now, delivery_count = 1\<rparr>
       else pel_get g n i)"
    by (induction es arbitrary: g) (auto simp: pel_get_insert split: if_splits)
  then show ?thesis by (simp add: deliver_def)
qed

lemma deliver_last: "last_delivered_id (deliver now cname es g) = (if es = [] then last_delivered_id g else fst (last es))"
proof -
  have "last_delivered_id (fold (\<lambda>(i, _) g. pel_insert cname i \<lparr>delivery_time = now, delivery_count = 1\<rparr>
                        (g\<lparr>last_delivered_id := i\<rparr>)) es g) =
      (if es = [] then last_delivered_id g else fst (last es))"
    by (induction es arbitrary: g) (auto split: prod.splits)
  then show ?thesis by (simp add: deliver_def)
qed

lemma deliver_wf [wf_intros]: "group_wf g \<Longrightarrow> group_wf (deliver now cname es g)"
proof -
  have "group_wf g \<Longrightarrow> group_wf (fold (\<lambda>(i, _) g. pel_insert cname i \<lparr>delivery_time = now, delivery_count = 1\<rparr>
                        (g\<lparr>last_delivered_id := i\<rparr>)) es g)" for g
    by (induction es arbitrary: g) (auto split: prod.splits)
  then show "group_wf g \<Longrightarrow> group_wf (deliver now cname es g)" by (simp add: deliver_def)
qed

lemma pel_ids_deliver: "pel_ids (deliver now cname es g) = pel_ids g \<union> fst ` set es"
proof (rule set_eqI)
  fix i
  show "i \<in> pel_ids (deliver now cname es g) \<longleftrightarrow> i \<in> pel_ids g \<union> fst ` set es"
    unfolding Un_iff pel_ids_iff pel_get_deliver by (cases "i \<in> fst ` set es") auto
qed

definition group_inv :: "consumer_group \<Rightarrow> bool" where
  "group_inv g \<longleftrightarrow> group_wf g \<and> pel_unique g \<and> pel_delivered g"

lemma group_inv_new: "group_inv \<lparr>last_delivered_id = i, consumers = []\<rparr>"
  by (simp add: group_inv_def group_wf_def pel_unique_def pel_delivered_def pel_ids_def pel_get_def)

text \<open>Entries after the last delivered ID, in order: the shape of what is delivered.\<close>

lemma sorted_last_max:
  assumes "sorted_wrt (<) (map fst es)" and "p \<in> set es"
  shows "fst p \<le> (fst (last es) :: 'k::linorder)"
proof -
  from assms(2) obtain c x where es: "es = c @ [x]" by (metis empty_iff empty_set rev_exhaust)
  with assms show ?thesis by (force simp: sorted_wrt_append)
qed

lemma entries_after_sorted:
  assumes "btree_wf (entries s)"
  shows "sorted_wrt (<) (map fst (entries_after start cnt s))"
proof (cases cnt)
  case None
  with bt_after_sorted [OF assms] show ?thesis by (simp add: entries_after_def)
next
  case (Some n)
  with sorted_wrt_take [OF bt_after_sorted [OF assms], of n start] show ?thesis
    by (simp add: entries_after_def take_map)
qed

lemma entries_after_gt: "p \<in> set (entries_after start cnt s) \<Longrightarrow> start < fst p"
  using set_take_opt_subset [of cnt "bt_after (\<lambda>k. k) start (entries s)"]
  by (auto simp: entries_after_def bt_after_def)

lemma deliver_inv:
  assumes "group_inv g" and "sorted_wrt (<) (map fst es)" and "\<And>p. p \<in> set es \<Longrightarrow> last_delivered_id g < fst p"
  shows "group_inv (deliver now cname es g)"
proof -
  have fresh: "pel_get g n i = None" if "i \<in> fst ` set es" for n i
  proof (rule ccontr)
    assume "pel_get g n i \<noteq> None"
    then have "i \<in> pel_ids g" by (auto simp: pel_ids_iff)
    with assms(1) have "i \<le> last_delivered_id g" by (simp add: group_inv_def pel_delivered_def)
    moreover have "last_delivered_id g < i" using that assms(3) by auto
    ultimately show False by simp
  qed
  have "pel_unique (deliver now cname es g)"
  proof (rule pel_uniqueI)
    fix i n m p q
    assume "pel_get (deliver now cname es g) n i = Some p" "pel_get (deliver now cname es g) m i = Some q"
    then show "n = m"
      using fresh [of i n] fresh [of i m] assms(1)
      by (auto simp: pel_get_deliver group_inv_def dest: pel_uniqueD split: if_splits)
  qed
  moreover have "pel_delivered (deliver now cname es g)"
  proof (cases "es = []")
    case True
    with assms(1) show ?thesis by (simp add: group_inv_def deliver_def)
  next
    case False
    then have "last es \<in> set es" by simp
    then have "last_delivered_id g < fst (last es)" by (rule assms(3))
    with assms(1) sorted_last_max [OF assms(2)] False show ?thesis
      by (fastforce simp: pel_delivered_def pel_ids_deliver deliver_last group_inv_def)
  qed
  ultimately show ?thesis
    using assms(1) by (simp add: group_inv_def deliver_wf)
qed

lemma read_group_step_inv:
  assumes "btree_wf (entries s)" and "group_inv g"
  shows "group_inv (snd (read_group_step now cname id_str cnt s g))"
proof (cases "id_str = ''>''")
  case True
  have "group_inv (deliver now cname (entries_after (last_delivered_id g) cnt s) g)"
    using assms by (intro deliver_inv entries_after_sorted) (auto dest: entries_after_gt)
  with True show ?thesis
    by (simp add: read_group_step_def Let_def)
next
  case False
  with assms(2) show ?thesis
    by (simp add: read_group_step_def Let_def split: option.splits)
qed

section \<open>Acknowledging\<close>

lemma ack_loop_group:
  assumes "group_inv g"
  shows "group_inv (snd (count_loop ack_step ids g))"
    and "fst (count_loop ack_step ids g) = int (card (pel_ids g \<inter> set ids))"
    and "pel_ids (snd (count_loop ack_step ids g)) = pel_ids g - set ids"
    and "last_delivered_id (snd (count_loop ack_step ids g)) = last_delivered_id g"
proof -
  have inv: "group_wf g \<and> pel_unique g"
    using assms by (simp add: group_inv_def)
  show ids: "pel_ids (snd (count_loop ack_step ids g)) = pel_ids g - set ids"
    using inv by (rule ack_loop.loop_mem)
  show "fst (count_loop ack_step ids g) = int (card (pel_ids g \<inter> set ids))"
    using inv by (rule ack_loop.loop_count)
  have "last_delivered_id (snd (ack_step i g)) = last_delivered_id g" for i g
    by (simp add: ack_step_def split_beta Let_def)
  then show last: "last_delivered_id (snd (count_loop ack_step ids g)) = last_delivered_id g"
    by (induction ids arbitrary: g) (simp_all add: split_beta Let_def)
  show "group_inv (snd (count_loop ack_step ids g))"
    using ack_loop.loop_inv [OF inv, of ids] assms ids last
    by (auto simp: group_inv_def pel_delivered_def)
qed

section \<open>Claiming\<close>

lemma pel_transfer:
  assumes "pel_unique g" and "pel_get g orig i = Some p"
  shows "pel_get (pel_insert c i q (pel_remove orig i g)) n j =
    (if j = i then (if n = c then Some q else None) else pel_get g n j)"
proof -
  have "pel_get g m i = None" if "m \<noteq> orig" for m
    using pel_uniqueD [OF assms(1) _ assms(2)] that by (cases "pel_get g m i") auto
  then show ?thesis by (simp add: pel_get_insert pel_get_remove)
qed

lemma pel_transfer_inv:
  assumes "group_inv g" and "pel_get g orig i = Some p"
  shows "group_inv (pel_insert c i q (pel_remove orig i g))"
    and "pel_ids (pel_insert c i q (pel_remove orig i g)) = pel_ids g"
proof -
  let ?g = "pel_insert c i q (pel_remove orig i g)"
  have u: "pel_unique g" using assms(1) by (simp add: group_inv_def)
  note get = pel_transfer [OF u assms(2), of c q]
  show ids: "pel_ids ?g = pel_ids g"
  proof (rule set_eqI)
    fix j
    show "j \<in> pel_ids ?g \<longleftrightarrow> j \<in> pel_ids g"
      using assms(2) by (cases "j = i") (auto simp: pel_ids_iff get)
  qed
  have "pel_unique ?g"
    by (rule pel_uniqueI) (auto simp: get dest: pel_uniqueD [OF u] split: if_splits)
  with ids assms(1) show "group_inv ?g"
    by (simp add: group_inv_def pel_delivered_def)
qed

text \<open>The qualifying entries, each with its owner, sorted by ID.\<close>

lemma set_qualifying:
  assumes "group_wf g"
  shows "(i, c, n) \<in> set (qualifying now ms start g) \<longleftrightarrow>
    (\<exists>p. pel_get g n i = Some p \<and> c = delivery_count p \<and> start \<le> i \<and> idle_at_least now ms p)"
proof -
  have "(i, c, n) \<in> set (qualifying now ms start g) \<longleftrightarrow>
      (\<exists>d p. (n, d) \<in> set (consumers g) \<and> (i, p) \<in> set (pending d) \<and> c = delivery_count p \<and>
         start \<le> i \<and> idle_at_least now ms p)"
    by (force simp: qualifying_def)
  also have "\<dots> \<longleftrightarrow> (\<exists>p. pel_get g n i = Some p \<and> c = delivery_count p \<and> start \<le> i \<and> idle_at_least now ms p)"
  proof -
    have "(n, d) \<in> set (consumers g) \<and> (i, p) \<in> set (pending d) \<longleftrightarrow>
        hm_get (consumers g) n = Some d \<and> hm_get (pending d) i = Some p" for d p
      using assms by (auto simp: group_wf_consumers hm.elems_iff)
    then show ?thesis
      by (auto simp: pel_get_def split: option.splits) metis+
  qed
  finally show ?thesis .
qed

lemma distinct_rows:
  assumes "distinct (map fst cs)" and "\<And>n c. (n, c) \<in> set cs \<Longrightarrow> distinct (map fst (pending c))"
    and "\<And>n c m d i. (n, c) \<in> set cs \<Longrightarrow> (m, d) \<in> set cs \<Longrightarrow> i \<in> fst ` set (pending c) \<Longrightarrow>
      i \<in> fst ` set (pending d) \<Longrightarrow> n = m"
  shows "distinct (concat (map (\<lambda>(n, c). map fst (filter P (pending c))) cs))"
  using assms
proof (induction cs)
  case (Cons p cs)
  obtain n c where p: "p = (n, c)" by force
  have "distinct (concat (map (\<lambda>(n, c). map fst (filter P (pending c))) cs))"
  proof (rule Cons.IH)
    show "distinct (map fst cs)" using Cons.prems(1) by simp
    show "distinct (map fst (pending d))" if "(m, d) \<in> set cs" for m d
      using Cons.prems(2) [of m d] that by simp
    show "m = m'" if "(m, d) \<in> set cs" "(m', d') \<in> set cs" "i \<in> fst ` set (pending d)" "i \<in> fst ` set (pending d')"
      for m d m' d' i
      using Cons.prems(3) [of m d m' d' i] that by simp
  qed
  moreover have "distinct (map fst (filter P (pending c)))"
    using Cons.prems(2) [of n c] by (simp add: p distinct_map_filter)
  moreover have "set (map fst (filter P (pending c))) \<inter>
      set (concat (map (\<lambda>(n, c). map fst (filter P (pending c))) cs)) = {}"
  proof (rule ccontr)
    assume "\<not> ?thesis"
    then obtain i m d where "i \<in> fst ` set (pending c)" "(m, d) \<in> set cs" "i \<in> fst ` set (pending d)"
      by auto (metis fst_conv imageI)
    with Cons.prems(3) [of n c m d i] have "n = m" by (auto simp: p)
    with Cons.prems(1) \<open>(m, d) \<in> set cs\<close> show False by (force simp: p)
  qed
  ultimately show ?case by (simp add: p)
qed simp

lemma owners_unique:
  assumes "group_wf g" and "pel_unique g" and "(n, c) \<in> set (consumers g)" "(m, d) \<in> set (consumers g)"
    and "i \<in> fst ` set (pending c)" "i \<in> fst ` set (pending d)"
  shows "n = m"
proof -
  from assms(1,3,4) have "hm_get (consumers g) n = Some c" "hm_get (consumers g) m = Some d"
    by (auto simp: group_wf_def hm.elems_iff)
  moreover obtain p q where "hm_get (pending c) i = Some p" "hm_get (pending d) i = Some q"
    using assms(5,6) hm_get_None_iff [of "pending c" i] hm_get_None_iff [of "pending d" i] by auto
  ultimately show ?thesis
    using pel_uniqueD [OF assms(2), of n i p m q] by (simp add: pel_get_def)
qed

lemma distinct_qualifying:
  assumes "group_wf g" and "pel_unique g"
  shows "distinct (map fst (qualifying now ms start g))"
proof -
  let ?rows = "concat (map (\<lambda>(n, c). map (\<lambda>(i, p). (i, delivery_count p, n))
                     (filter (\<lambda>(i, p). i \<ge> start \<and> idle_at_least now ms p) (pending c))) (consumers g))"
  have "map fst ?rows = concat (map (\<lambda>(n, c). map fst
      (filter (\<lambda>(i, p). i \<ge> start \<and> idle_at_least now ms p) (pending c))) (consumers g))"
    by (auto simp: map_concat intro!: arg_cong [of _ _ concat] map_cong)
  moreover have "distinct \<dots>"
    using assms owners_unique [OF assms]
    by (intro distinct_rows) (auto simp: group_wf_def consumer_wf_def hm_wf_def)
  ultimately have "distinct (map fst ?rows)" by simp
  moreover have "mset (map fst (sort_key fst ?rows)) = mset (map fst ?rows)"
    by (simp only: mset_map mset_sort)
  note mset_eq_imp_distinct_iff [OF this]
  ultimately show ?thesis
    unfolding qualifying_def by blast
qed

lemma sorted_qualifying: "sorted (map fst (qualifying now ms start g))"
  by (simp add: qualifying_def)

text \<open>The claiming loop: every processed ID moves to the claimer, the others stay.\<close>

definition autoclaim_pending :: "instant \<Rightarrow> bytes \<Rightarrow> (stream_id \<times> u64 \<times> bytes) list \<Rightarrow> consumer_group \<Rightarrow>
    bytes \<Rightarrow> stream_id \<Rightarrow> pending_entry option" where
  "autoclaim_pending now cname qs g n i =
     (case map_of qs i of
        Some (c, orig) \<Rightarrow>
          if n = cname then Some \<lparr>delivery_time = now, delivery_count = c + 1\<rparr> else None
      | None \<Rightarrow> pel_get g n i)"

definition still_there :: "stream \<Rightarrow> stream_id \<times> 'a \<Rightarrow> (stream_id \<times> fields) option" where
  "still_there s q = map_option (Pair (fst q)) (bt_get (entries s) (fst q))"

lemma autoclaim_fold:
  assumes "group_inv g" and "distinct (map fst qs)"
    and "\<And>i c n. (i, c, n) \<in> set qs \<Longrightarrow> \<exists>p. pel_get g n i = Some p"
  shows "\<exists>g'. fold (autoclaim_step now cname s) qs (claimed, deleted, g) =
      (claimed @ List.map_filter (still_there s) qs,
       deleted @ map fst (filter (\<lambda>q. bt_get (entries s) (fst q) = None) qs), g') \<and>
    group_inv g' \<and> pel_ids g' = pel_ids g \<and> last_delivered_id g' = last_delivered_id g \<and>
    (\<forall>n i. pel_get g' n i = autoclaim_pending now cname qs g n i)"
  using assms
proof (induction qs arbitrary: g claimed deleted)
  case Nil
  then show ?case by (simp add: autoclaim_pending_def map_filter_simps)
next
  case (Cons q qs)
  obtain i c orig where q: "q = (i, c, orig)" by (metis prod_cases3)
  obtain p where p: "pel_get g orig i = Some p"
    using Cons.prems(3) [of i c orig] q by auto
  let ?e = "\<lparr>delivery_time = now, delivery_count = c + 1\<rparr>"
  let ?g = "pel_insert cname i ?e (pel_remove orig i g)"
  have u: "pel_unique g" using Cons.prems(1) by (simp add: group_inv_def)
  note get = pel_transfer [OF u p, of cname ?e]
  have step: "autoclaim_step now cname s q (claimed, deleted, g) =
      (claimed @ List.map_filter (still_there s) [q],
       deleted @ map fst (filter (\<lambda>q. bt_get (entries s) (fst q) = None) [q]), ?g)"
    by (simp add: autoclaim_step_def q still_there_def map_filter_simps split: option.splits)
  have inv: "group_inv ?g" "pel_ids ?g = pel_ids g"
    using pel_transfer_inv [OF Cons.prems(1) p] by blast+
  have notin: "i \<notin> fst ` set qs"
    using Cons.prems(2) by (simp add: q)
  let ?c = "claimed @ List.map_filter (still_there s) [q]"
  let ?d = "deleted @ map fst (filter (\<lambda>q. bt_get (entries s) (fst q) = None) [q])"
  have "\<exists>g'. fold (autoclaim_step now cname s) qs (?c, ?d, ?g) =
      (?c @ List.map_filter (still_there s) qs,
       ?d @ map fst (filter (\<lambda>q. bt_get (entries s) (fst q) = None) qs), g') \<and>
    group_inv g' \<and> pel_ids g' = pel_ids ?g \<and> last_delivered_id g' = last_delivered_id ?g \<and>
    (\<forall>n i. pel_get g' n i = autoclaim_pending now cname qs ?g n i)"
  proof (rule Cons.IH)
    show "group_inv ?g" by (rule inv(1))
    show "distinct (map fst qs)" using Cons.prems(2) by simp
    show "\<exists>p. pel_get ?g n j = Some p" if "(j, d, n) \<in> set qs" for j d n
    proof -
      have "j \<noteq> i" using notin that by force
      with Cons.prems(3) [of j d n] that show ?thesis by (simp add: get)
    qed
  qed
  then obtain g' where g': "fold (autoclaim_step now cname s) qs (?c, ?d, ?g) =
      (?c @ List.map_filter (still_there s) qs,
       ?d @ map fst (filter (\<lambda>q. bt_get (entries s) (fst q) = None) qs), g')"
    "group_inv g'" "pel_ids g' = pel_ids ?g" "last_delivered_id g' = last_delivered_id ?g"
    "\<forall>n i. pel_get g' n i = autoclaim_pending now cname qs ?g n i"
    by blast
  have "pel_get g' n j = autoclaim_pending now cname (q # qs) g n j" for n j
  proof (cases "j = i")
    case True
    with notin have "map_of qs j = None" by (simp add: map_of_eq_None_iff)
    with True show ?thesis by (simp add: g'(5) [rule_format] autoclaim_pending_def get q)
  next
    case False
    then show ?thesis by (simp add: g'(5) [rule_format] autoclaim_pending_def get q split: option.splits)
  qed
  moreover have "List.map_filter (still_there s) (q # qs) =
      List.map_filter (still_there s) [q] @ List.map_filter (still_there s) qs"
    by (simp add: map_filter_simps split: option.splits)
  ultimately show ?case
    using g'(1-4) inv(2) step by (intro exI [of _ g']) simp
qed

lemma set_take_opt: "set (take_opt cnt xs) \<subseteq> set xs"
  by (rule set_take_opt_subset)

lemma distinct_take_opt: "distinct (map f xs) \<Longrightarrow> distinct (map f (take_opt cnt xs))"
  by (cases cnt) (simp_all add: take_map [symmetric])

lemma autoclaim_group_result:
  assumes "group_inv g" and qs_def: "qs = take_opt cnt (qualifying now min_idle start g)"
  shows "\<exists>g'. autoclaim_group now cname min_idle start cnt s g =
      (((case drop (length qs) (qualifying now min_idle start g) of [] \<Rightarrow> (0, 0) | q # _ \<Rightarrow> fst q),
        List.map_filter (still_there s) qs, map fst (filter (\<lambda>q. bt_get (entries s) (fst q) = None) qs)), g') \<and>
    group_inv g' \<and> pel_ids g' = pel_ids g \<and> last_delivered_id g' = last_delivered_id g \<and>
    (\<forall>n i. pel_get g' n i = autoclaim_pending now cname qs g n i)"
proof -
  have wf: "group_wf g" "pel_unique g" using assms(1) by (auto simp: group_inv_def)
  have "distinct (map fst qs)"
    unfolding qs_def by (rule distinct_take_opt [OF distinct_qualifying [OF wf]])
  moreover have "\<exists>p. pel_get g n i = Some p" if "(i, c, n) \<in> set qs" for i c n
    using that set_take_opt [of cnt "qualifying now min_idle start g"] set_qualifying [OF wf(1), of i c n]
    unfolding qs_def by blast
  ultimately obtain g' where "fold (autoclaim_step now cname s) qs ([], [], g) =
      (List.map_filter (still_there s) qs, map fst (filter (\<lambda>q. bt_get (entries s) (fst q) = None) qs), g')"
    "group_inv g'" "pel_ids g' = pel_ids g" "last_delivered_id g' = last_delivered_id g"
    "\<forall>n i. pel_get g' n i = autoclaim_pending now cname qs g n i"
    using autoclaim_fold [OF assms(1), of qs now cname s "[]" "[]"] by auto
  then show ?thesis
    by (simp add: autoclaim_group_def Let_def qs_def)
qed

text \<open>One claim, without FORCE: an idle entry moves, anything else is left alone.\<close>

lemma xclaim_step_noforce:
  assumes "group_inv g"
    and "xclaim_step now cname min_idle idle retry False justid s i g = Some (out, g')"
  shows "group_inv g' \<and> pel_ids g' = pel_ids g \<and> last_delivered_id g' = last_delivered_id g \<and>
    (\<forall>j n. j \<noteq> i \<longrightarrow> pel_get g' n j = pel_get g n j) \<and>
    ((\<exists>n p. pel_get g n i = Some p \<and> idle_at_least now min_idle p) \<longrightarrow>
       (\<forall>n. pel_get g' n i \<noteq> None \<longleftrightarrow> n = cname)) \<and>
    (\<not> (\<exists>n p. pel_get g n i = Some p \<and> idle_at_least now min_idle p) \<longrightarrow> g' = g \<and> out = [])"
proof -
  have wf: "group_wf g" "pel_unique g" using assms(1) by (auto simp: group_inv_def)
  show ?thesis
  proof (cases "\<exists>n p. find_pending i (consumers g) = Some (n, p) \<and> idle_at_least now min_idle p")
    case True
    then obtain n p where f: "find_pending i (consumers g) = Some (n, p)" "idle_at_least now min_idle p" by blast
    have p: "pel_get g n i = Some p"
      using find_pending_get [OF wf(1), of i] f by simp
    from assms(2) f obtain e where g': "g' = pel_insert cname i e (pel_remove n i g)"
      by (auto simp: xclaim_step_def split: option.splits)
    show ?thesis
      unfolding g' using pel_transfer_inv [OF assms(1) p, of cname e] pel_transfer [OF wf(2) p, of cname e] p f(2)
      by auto
  next
    case False
    then have *: "g' = g" "out = []"
      using assms(2) by (auto simp: xclaim_step_def split: option.splits)
    have "\<not> (\<exists>n p. pel_get g n i = Some p \<and> idle_at_least now min_idle p)"
    proof
      assume "\<exists>n p. pel_get g n i = Some p \<and> idle_at_least now min_idle p"
      then obtain n p where np: "pel_get g n i = Some p" "idle_at_least now min_idle p" by blast
      then have "i \<in> pel_ids g" by (auto simp: pel_ids_iff)
      then obtain m q where "find_pending i (consumers g) = Some (m, q)"
        using find_pending_get [OF wf(1), of i] by (auto split: option.splits)
      moreover have "pel_get g m i = Some q"
        using find_pending_get [OF wf(1), of i] calculation by simp
      ultimately show False
        using False np pel_uniqueD [OF wf(2) np(1), of m q] by simp
    qed
    with * assms(1) show ?thesis by auto
  qed
qed

lemma xclaim_loop_noforce:
  assumes "group_inv g"
    and "xclaim_loop (xclaim_step now cname min_idle idle retry False justid s) ids g = Some (out, g')"
  shows "group_inv g' \<and> pel_ids g' = pel_ids g \<and> last_delivered_id g' = last_delivered_id g"
  using assms
proof (induction ids arbitrary: g out)
  case (Cons i ids)
  from Cons.prems(2) obtain c1 g1 c2 where
    1: "xclaim_step now cname min_idle idle retry False justid s i g = Some (c1, g1)"
    and 2: "xclaim_loop (xclaim_step now cname min_idle idle retry False justid s) ids g1 = Some (c2, g')"
    by (auto split: option.splits prod.splits)
  from xclaim_step_noforce [OF Cons.prems(1) 1] Cons.IH [OF _ 2] show ?case by simp
qed simp

text \<open>No clock reading makes XCLAIM panic.\<close>

lemma xclaim_loop_total:
  assumes "0 \<le> now"
  shows "xclaim_loop (xclaim_step now cname min_idle idle retry force justid s) ids g \<noteq> None"
proof (induction ids arbitrary: g)
  case (Cons i ids)
  have "xclaim_step now cname min_idle idle retry force justid s i g \<noteq> None" for g
    using instant_sub_millis_total [OF assms]
    by (auto simp: xclaim_step_def split: option.splits)
  then obtain c1 g1 where "xclaim_step now cname min_idle idle retry force justid s i g = Some (c1, g1)" by fastforce
  with Cons.IH [of g1] show ?case by (auto split: option.splits)
qed simp

section \<open>The invariant of the stored groups\<close>

definition stream_ok :: "stream \<Rightarrow> bool" where
  "stream_ok s \<longleftrightarrow> stream_wf s \<and> (\<forall>(n, g) \<in> set (groups s). group_inv g)"

definition value_ok :: "value_data \<Rightarrow> bool" where
  "value_ok d \<longleftrightarrow> value_wf d \<and> (\<forall>s. d = StreamV s \<longrightarrow> stream_ok s)"

definition groups_ok :: "keyspace \<Rightarrow> bool" where
  "groups_ok ks \<longleftrightarrow> ks_all value_ok ks"

lemma groups_ok_wf: "groups_ok ks \<Longrightarrow> ks_wf ks"
  by (auto simp: groups_ok_def ks_wf_def ks_all_def value_ok_def)

lemma value_ok_StreamV: "value_ok (StreamV s) \<longleftrightarrow> stream_ok s"
  by (auto simp: value_ok_def stream_ok_def)

lemma stream_ok_group: "stream_ok s \<Longrightarrow> hm_get (groups s) grp = Some g \<Longrightarrow> group_inv g"
  by (auto simp: stream_ok_def dest!: hm_get_Some_in)

lemma stream_ok_entries_wf: "stream_ok s \<Longrightarrow> btree_wf (entries s)"
  by (simp add: stream_ok_def stream_wf_def)

lemma stream_ok_insert_group:
  assumes "stream_ok s" and "group_inv g"
  shows "stream_ok (s\<lparr>groups := hm_insert grp g (groups s)\<rparr>)"
proof -
  have "group_inv h" if "(n, h) \<in> set (hm_insert grp g (groups s))" for n h
    using set_hm_insert_subset [of grp g "groups s"] that assms by (auto simp: stream_ok_def)
  with assms show ?thesis
    by (auto simp: stream_ok_def stream_wf_def group_inv_def)
qed

lemma stream_ok_remove_group: "stream_ok s \<Longrightarrow> stream_ok (s\<lparr>groups := hm_remove grp (groups s)\<rparr>)"
  by (auto simp: stream_ok_def stream_wf_def set_hm_remove)

lemma stream_ok_new [simp]: "stream_ok new_stream_value"
  by (simp add: stream_ok_def) (simp add: new_stream_value_def)

lemma stream_ok_same_groups: "stream_ok s \<Longrightarrow> stream_wf s' \<Longrightarrow> groups s' = groups s \<Longrightarrow> stream_ok s'"
  by (simp add: stream_ok_def)

lemma groups_ok_update:
  "groups_ok ks \<Longrightarrow> (\<And>s. stream_ok s \<Longrightarrow> stream_ok (snd (f s))) \<Longrightarrow>
   groups_ok (snd (update_key now key dflt (modify_kind stream_of StreamV f) ks))"
  unfolding groups_ok_def
  by (rule ks_all_update, assumption, rule stream_kind.modify_keeps [where P = value_ok])
     (simp_all add: value_ok_StreamV)

lemma groups_ok_create:
  "groups_ok ks \<Longrightarrow> (\<And>s. stream_ok s \<Longrightarrow> stream_ok (snd (f s))) \<Longrightarrow>
   groups_ok (snd (create_key now key new_stream (modify_kind stream_of StreamV f) ks))"
  unfolding groups_ok_def
  by (rule ks_all_create, assumption, simp add: value_ok_StreamV,
      rule stream_kind.modify_keeps [where P = value_ok])
     (simp_all add: value_ok_StreamV)

lemma groups_ok_update_group:
  assumes "groups_ok ks" and "\<And>s g. btree_wf (entries s) \<Longrightarrow> group_inv g \<Longrightarrow> group_inv (snd (f s g))"
  shows "groups_ok (snd (update_group now key grp missing f ks))"
  unfolding update_group_def
  using assms(1)
proof (rule groups_ok_update)
  fix s
  assume ok: "stream_ok s"
  show "stream_ok (snd (case hm_get (groups s) grp of
       None \<Rightarrow> (missing, s)
     | Some g \<Rightarrow> (let (r, g') = f s g in (Inr r, s\<lparr>groups := hm_insert grp g' (groups s)\<rparr>))))"
  proof (cases "hm_get (groups s) grp")
    case (Some g)
    have "group_inv (snd (f s g))"
      using ok by (intro assms(2) stream_ok_entries_wf stream_ok_group [OF _ Some])
    with Some ok show ?thesis by (simp add: split_beta Let_def stream_ok_insert_group)
  qed (use ok in simp)
qed

lemma groups_ok_xreadgroup: "groups_ok ks \<Longrightarrow> groups_ok (snd (xreadgroup_loop now grp cname cnt ps ks))"
proof (induction now grp cname cnt ps ks rule: xreadgroup_loop.induct)
  case (2 now grp cname cnt key id_str rest ks)
  let ?ks1 = "expire_key now key ks"
  have ok1: "groups_ok ?ks1"
    using "2.prems" by (simp add: groups_ok_def ks_all_expire)
  show ?case
  proof (cases "\<exists>e s g. hm_get ?ks1 key = Some e \<and> vdata e = StreamV s \<and> hm_get (groups s) grp = Some g")
    case True
    then obtain e s g where e: "hm_get ?ks1 key = Some e" "vdata e = StreamV s" "hm_get (groups s) grp = Some g"
      by blast
    obtain es g' where step: "read_group_step now cname id_str cnt s g = (es, g')" by force
    have ok: "stream_ok s"
      using ok1 e ks_all_get [of value_ok ?ks1 key e] by (simp add: groups_ok_def value_ok_StreamV)
    have "group_inv (snd (read_group_step now cname id_str cnt s g))"
      by (rule read_group_step_inv [OF stream_ok_entries_wf [OF ok] stream_ok_group [OF ok e(3)]])
    then have "stream_ok (s\<lparr>groups := hm_insert grp g' (groups s)\<rparr>)"
      using step ok by (simp add: stream_ok_insert_group)
    then have ok2: "groups_ok (hm_insert key (e\<lparr>vdata := StreamV (s\<lparr>groups := hm_insert grp g' (groups s)\<rparr>)\<rparr>) ?ks1)"
      using ok1 by (simp add: groups_ok_def ks_all_insert value_ok_StreamV)
    note IH = "2.IH" [OF refl e step [symmetric] refl refl ok2]
    show ?thesis
      using IH e step by (simp add: Let_def split_beta split: sum.splits)
  next
    case False
    with ok1 show ?thesis
      by (auto simp: Let_def split: option.splits value_data.splits)
  qed
qed simp

lemma stream_ok_wf: "stream_ok s \<Longrightarrow> stream_wf s"
  by (simp add: stream_ok_def)

lemma stream_ok_xadd: "stream_ok s \<Longrightarrow> hm_wf flds \<Longrightarrow> stream_ok (snd (xadd_stream ms flds eid s))"
proof (rule stream_ok_same_groups)
  show "groups (snd (xadd_stream ms flds eid s)) = groups s"
    by (cases eid) (simp_all add: xadd_stream_def Let_def)
qed (auto intro: stream_wf_xadd stream_ok_wf)

lemma stream_ok_xtrim: "stream_ok s \<Longrightarrow> stream_ok (snd (xtrim_stream maxlen minid s))"
proof (rule stream_ok_same_groups)
  show "groups (snd (xtrim_stream maxlen minid s)) = groups s"
    by (simp add: xtrim_stream_def split_beta Let_def)
qed (auto intro: stream_wf_xtrim stream_ok_wf)



lemma groups_ok_at: "groups_ok ks \<Longrightarrow> group_at now ks key grp = Some (s, g) \<Longrightarrow> stream_ok s \<and> group_inv g"
proof -
  assume ok: "groups_ok ks" and at: "group_at now ks key grp = Some (s, g)"
  then obtain e where "live now ks key = Some e" "vdata e = StreamV s" "hm_get (groups s) grp = Some g"
    by (auto simp: group_at_Some stream_kind.kind_at_Some)
  with ok show ?thesis
    using ks_all_live [of value_ok ks now key e] stream_ok_group [of s grp g]
    by (simp add: groups_ok_def value_ok_StreamV)
qed

text \<open>A stream of three entries whose group has delivered the first; used to instantiate the properties.\<close>

definition sample_group :: consumer_group where
  "sample_group =
     \<lparr>last_delivered_id = (1, 0),
      consumers = [(''c'', \<lparr>pending = [((1, 0), \<lparr>delivery_time = 0, delivery_count = 1\<rparr>)]\<rparr>)]\<rparr>"

definition sample_stream :: stream where
  "sample_stream =
     \<lparr>entries = [((1, 0), []), ((2, 0), []), ((3, 0), [])], last_id = (3, 0),
      groups = [(''g'', sample_group)]\<rparr>"

definition sample_ks :: keyspace where
  "sample_ks = [(''s'', \<lparr>vdata = StreamV sample_stream, expires_at = None\<rparr>)]"

lemma pel_get_sample:
  "pel_get sample_group n i =
     (if n = ''c'' \<and> i = (1, 0) then Some \<lparr>delivery_time = 0, delivery_count = 1\<rparr> else None)"
  by (simp add: pel_get_def sample_group_def hm_get_def)

lemma sample_ids: "pel_ids sample_group = {(1, 0)}"
  by (auto simp: pel_ids_iff pel_get_sample split: if_splits)

lemma sample_group_inv: "group_inv sample_group"
proof -
  have "group_wf sample_group"
    by (simp add: sample_group_def group_wf_def consumer_wf_def hm_wf_def)
  moreover have "pel_unique sample_group"
    by (rule pel_uniqueI) (auto simp: pel_get_sample split: if_splits)
  moreover have "pel_delivered sample_group"
    by (simp add: pel_delivered_def sample_ids) (simp add: sample_group_def)
  ultimately show ?thesis by (simp add: group_inv_def)
qed

lemma sample_ok: "groups_ok sample_ks"
proof -
  have "stream_ok sample_stream"
    using sample_group_inv
    by (simp add: stream_ok_def stream_wf_def sample_stream_def bt_wf_def hm_wf_def group_inv_def)
  then show ?thesis
    by (simp add: groups_ok_def sample_ks_def ks_all_def hm_wf_def hm_get_def value_ok_StreamV)
qed

lemma sample_at: "group_at now sample_ks ''s'' ''g'' = Some (sample_stream, sample_group)"
  by (simp add: group_at_def kind_at_def live_def sample_ks_def hm_get_def is_expired_def sample_stream_def)

lemma sample_undelivered: "undelivered_of = [((2, 0), []), ((3, 0), [])] \<Longrightarrow>
    entries_after (last_delivered_id sample_group) None sample_stream = undelivered_of"
  by (simp add: entries_after_def bt_after_def sample_stream_def sample_group_def word_less_def)

section \<open>Properties of the commands\<close>

definition reply_for :: "bytes \<Rightarrow> (stream_id \<times> fields) list \<Rightarrow> (bytes \<times> (stream_id \<times> fields) list) list" where
  "reply_for key es = (if es = [] then [] else [(key, es)])"

lemma xreadgroup_one:
  assumes "group_at now ks key grp = Some (s, g)"
  shows "fst (xreadgroup now grp cname [key] [id_str] cnt ks) =
      Inr (reply_for key (fst (read_group_step now cname id_str cnt s g)))"
    and "live now (snd (xreadgroup now grp cname [key] [id_str] cnt ks)) =
      put_group key grp s (snd (read_group_step now cname id_str cnt s g)) (live now ks)"
proof -
  obtain e where e: "live now ks key = Some e" "vdata e = StreamV s" "hm_get (groups s) grp = Some g"
    using assms by (auto simp: group_at_Some stream_kind.kind_at_Some)
  then show "fst (xreadgroup now grp cname [key] [id_str] cnt ks) =
      Inr (reply_for key (fst (read_group_step now cname id_str cnt s g)))"
    by (simp add: xreadgroup_def Let_def split_beta reply_for_def)
  show "live now (snd (xreadgroup now grp cname [key] [id_str] cnt ks)) =
      put_group key grp s (snd (read_group_step now cname id_str cnt s g)) (live now ks)"
    using e live_not_expired [OF e(1)]
    by (simp add: xreadgroup_def Let_def split_beta live_insert put_group_def put_def)
qed

text \<open>What a group has not delivered yet.\<close>

definition undelivered :: "stream \<Rightarrow> consumer_group \<Rightarrow> (stream_id \<times> fields) list" where
  "undelivered s g = entries_after (last_delivered_id g) None s"

lemma deliver_step:
  "read_group_step now cname ''>'' cnt s g =
     (take_opt cnt (undelivered s g), deliver now cname (take_opt cnt (undelivered s g)) g)"
  by (simp add: read_group_step_def undelivered_def entries_after_def Let_def)

text \<open>Delivering a prefix leaves the rest undelivered.\<close>

lemma undelivered_after:
  assumes "btree_wf (entries s)"
  shows "undelivered (s\<lparr>groups := gs\<rparr>) (deliver now cname (take n (undelivered s g)) g) = drop n (undelivered s g)"
proof (cases "take n (undelivered s g) = []")
  case True
  then have "n = 0 \<or> undelivered s g = []" by simp
  then show ?thesis
    by (auto simp: deliver_def undelivered_def entries_after_def)
next
  case False
  let ?U = "undelivered s g" and ?page = "take n (undelivered s g)"
  have sorted: "sorted_wrt (<) (map fst (?page @ drop n ?U))"
    using entries_after_sorted [OF assms, of "last_delivered_id g" None] by (simp add: undelivered_def)
  have "last ?page \<in> set ?U"
    using last_in_set [OF False] set_take_subset [of n ?U] by blast
  then have le: "last_delivered_id g \<le> fst (last ?page)"
    using entries_after_gt [of "last ?page" "last_delivered_id g" None s] by (auto simp: undelivered_def)
  have "undelivered (s\<lparr>groups := gs\<rparr>) (deliver now cname ?page g) =
      bt_after (\<lambda>k. k) (fst (last ?page)) (entries s)"
    using False by (simp add: undelivered_def entries_after_def deliver_last)
  also have "\<dots> = bt_after (\<lambda>k. k) (fst (last ?page)) ?U"
    using bt_after_after [OF le, of "entries s"] by (simp add: undelivered_def entries_after_def)
  also have "\<dots> = filter (\<lambda>p. fst (last ?page) < fst p) (?page @ drop n ?U)"
    by (simp add: bt_after_def)
  also have "\<dots> = drop n ?U"
    by (rule filter_after_prefix [OF sorted False])
  finally show ?thesis .
qed

text \<open>
  C21. A group delivers every entry once: two reads of new entries, by any two consumers, get
  consecutive pieces of what the group has not delivered yet, in order, with nothing skipped
  or repeated, and each piece is then pending, with delivery count 1, for the consumer that
  got it.
\<close>

theorem xreadgroup_exactly_once:
  assumes "groups_ok ks" and "group_at now ks key grp = Some (s, g)"
  shows "\<exists>ks1 ks2 s2 g2.
    xreadgroup now grp c1 [key] [''>''] (Some n) ks = (Inr (reply_for key (take n (undelivered s g))), ks1) \<and>
    xreadgroup now grp c2 [key] [''>''] (Some m) ks1 = (Inr (reply_for key (take m (drop n (undelivered s g)))), ks2) \<and>
    group_at now ks2 key grp = Some (s2, g2) \<and> undelivered s2 g2 = drop (n + m) (undelivered s g) \<and>
    (\<forall>i \<in> fst ` set (take n (undelivered s g)).
       pel_get g2 c1 i = Some \<lparr>delivery_time = now, delivery_count = 1\<rparr>) \<and>
    (\<forall>i \<in> fst ` set (take m (drop n (undelivered s g))).
       pel_get g2 c2 i = Some \<lparr>delivery_time = now, delivery_count = 1\<rparr>)"
proof -
  let ?U = "undelivered s g"
  have wf: "btree_wf (entries s)"
    using groups_ok_at [OF assms] by (simp add: stream_ok_entries_wf)
  let ?g1 = "deliver now c1 (take n ?U) g"
  let ?s1 = "s\<lparr>groups := hm_insert grp ?g1 (groups s)\<rparr>"
  let ?r1 = "xreadgroup now grp c1 [key] [''>''] (Some n) ks"
  have r1: "fst ?r1 = Inr (reply_for key (take n ?U))"
    and v1: "live now (snd ?r1) = put_group key grp s ?g1 (live now ks)"
    using xreadgroup_one [OF assms(2), of c1 "''>''" "Some n"] by (simp_all add: deliver_step)
  have at1: "group_at now (snd ?r1) key grp = Some (?s1, ?g1)"
    by (rule group_at_put [OF v1])
  have U1: "undelivered ?s1 ?g1 = drop n ?U"
    by (rule undelivered_after [OF wf])
  let ?g2 = "deliver now c2 (take m (drop n ?U)) ?g1"
  let ?s2 = "?s1\<lparr>groups := hm_insert grp ?g2 (groups ?s1)\<rparr>"
  let ?r2 = "xreadgroup now grp c2 [key] [''>''] (Some m) (snd ?r1)"
  have r2: "fst ?r2 = Inr (reply_for key (take m (drop n ?U)))"
    and v2: "live now (snd ?r2) = put_group key grp ?s1 ?g2 (live now (snd ?r1))"
    using xreadgroup_one [OF at1, of c2 "''>''" "Some m"] by (simp_all add: deliver_step U1)
  have at2: "group_at now (snd ?r2) key grp = Some (?s2, ?g2)"
    by (rule group_at_put [OF v2])
  have wf1: "btree_wf (entries ?s1)" using wf by simp
  have U2: "undelivered ?s2 ?g2 = drop (n + m) ?U"
    using undelivered_after [OF wf1, of "hm_insert grp ?g2 (groups ?s1)" now c2 m ?g1]
    by (simp add: U1 add.commute)
  show ?thesis
    by (rule exI [of _ "snd ?r1"], rule exI [of _ "snd ?r2"], rule exI [of _ ?s2], rule exI [of _ ?g2])
       (use r1 r2 at2 U2 in \<open>auto simp: prod_eq_iff pel_get_deliver\<close>)
qed

theorem xreadgroup_exactly_once_witness:
  "\<exists>ks1. xreadgroup 9 ''g'' ''a'' [''s''] [''>''] (Some 1) sample_ks = (Inr [(''s'', [((2, 0), [])])], ks1)"
proof -
  have "undelivered sample_stream sample_group = [((2, 0), []), ((3, 0), [])]"
    by (simp add: undelivered_def sample_undelivered)
  with xreadgroup_exactly_once [OF sample_ok sample_at, of 9 "''a''" 1 "''b''" 1] show ?thesis
    by (auto simp: reply_for_def)
qed

text \<open>
  XACK answers the number of distinct IDs among its arguments that were pending, and
  afterwards none of them is pending for any consumer of the group, every other pending entry
  is untouched; a missing key or group answers 0.
\<close>

theorem xack_spec:
  assumes "groups_ok ks"
  shows "(group_at now ks key grp = None \<longrightarrow> kind_at stream_of now ks key \<noteq> Inl WrongType \<longrightarrow>
      fst (xack now key grp ids ks) = Inr 0) \<and>
    (\<forall>s g. group_at now ks key grp = Some (s, g) \<longrightarrow>
      fst (xack now key grp ids ks) = Inr (int (card (pel_ids g \<inter> set ids))) \<and>
      (\<exists>s' g'. group_at now (snd (xack now key grp ids ks)) key grp = Some (s', g') \<and>
         pel_ids g' = pel_ids g - set ids \<and> entries s' = entries s))"
proof (intro conjI allI impI)
  assume none: "group_at now ks key grp = None" "kind_at stream_of now ks key \<noteq> Inl WrongType"
  then show "fst (xack now key grp ids ks) = Inr 0"
    by (auto simp: xack_def update_group_def group_at_def stream_kind.update_typed_result kind_at_def
        split: option.splits)
next
  fix s g
  assume at: "group_at now ks key grp = Some (s, g)"
  have inv: "group_inv g" using groups_ok_at [OF assms at] by simp
  show "fst (xack now key grp ids ks) = Inr (int (card (pel_ids g \<inter> set ids)))"
    by (simp add: xack_def update_group_at(1) [OF at] ack_loop_group(2) [OF inv])
  have "live now (snd (xack now key grp ids ks)) =
      put_group key grp s (snd (count_loop ack_step ids g)) (live now ks)"
    by (simp add: xack_def update_group_at(2) [OF at])
  from group_at_put [OF this] show "\<exists>s' g'. group_at now (snd (xack now key grp ids ks)) key grp = Some (s', g') \<and>
         pel_ids g' = pel_ids g - set ids \<and> entries s' = entries s"
    using ack_loop_group(3) [OF inv] by auto
qed

theorem xack_spec_witness:
  "fst (xack 9 ''s'' ''g'' [(1, 0), (2, 0)] sample_ks) = Inr 1"
proof -
  have "pel_ids sample_group \<inter> set [(1, 0), (2, 0)] = {(1, 0)}"
    by (simp add: sample_ids)
  with xack_spec [OF sample_ok, of 9 "''s''" "''g''" "[(1, 0), (2, 0)]"] sample_at [of 9] show ?thesis by simp
qed

text \<open>
  C22. XAUTOCLAIM takes the qualifying entries (pending since the given ID, idle long enough)
  in ID order, at most \<open>count\<close>, from whoever has them: the claimer alone has them pending
  afterwards, with a fresh delivery time and one more delivery, all other pending entries
  are as before, and no pending ID is lost or invented.  It answers the claimed entries that
  still exist, the IDs of those that do not, and the first ID it did not process.
\<close>

theorem xautoclaim_spec:
  assumes "groups_ok ks" and "group_at now ks key grp = Some (s, g)"
  shows "\<exists>s' g'. let qs = qualifying now min_idle start g; todo = take_opt cnt qs in
    fst (xautoclaim now key grp cname min_idle start cnt ks) =
      Inr ((case drop (length todo) qs of [] \<Rightarrow> (0, 0) | q # _ \<Rightarrow> fst q),
           List.map_filter (still_there s) todo,
           map fst (filter (\<lambda>q. bt_get (entries s) (fst q) = None) todo)) \<and>
    group_at now (snd (xautoclaim now key grp cname min_idle start cnt ks)) key grp = Some (s', g') \<and>
    entries s' = entries s \<and> pel_ids g' = pel_ids g \<and>
    (\<forall>n i. pel_get g' n i =
       (if i \<in> fst ` set todo
        then (if n = cname
              then Some \<lparr>delivery_time = now,
                         delivery_count = fst (the (map_of todo i)) + 1\<rparr>
              else None)
        else pel_get g n i)) \<and>
    sorted (map fst qs) \<and>
    (\<forall>i c n. (i, c, n) \<in> set qs \<longleftrightarrow>
       (\<exists>p. pel_get g n i = Some p \<and> c = delivery_count p \<and> start \<le> i \<and> idle_at_least now min_idle p))"
proof -
  have inv: "group_inv g" using groups_ok_at [OF assms] by simp
  let ?todo = "take_opt cnt (qualifying now min_idle start g)"
  from autoclaim_group_result [OF inv refl] obtain g' where
    f: "autoclaim_group now cname min_idle start cnt s g =
      (((case drop (length ?todo) (qualifying now min_idle start g) of [] \<Rightarrow> (0, 0) | q # _ \<Rightarrow> fst q),
        List.map_filter (still_there s) ?todo, map fst (filter (\<lambda>q. bt_get (entries s) (fst q) = None) ?todo)), g')"
    and ids: "pel_ids g' = pel_ids g"
    and get: "\<And>n i. pel_get g' n i = autoclaim_pending now cname ?todo g n i"
    by blast
  have pend: "pel_get g' n i =
       (if i \<in> fst ` set ?todo
        then (if n = cname then Some \<lparr>delivery_time = now, delivery_count = fst (the (map_of ?todo i)) + 1\<rparr> else None)
        else pel_get g n i)" for n i
  proof (cases "map_of ?todo i")
    case None
    then have "i \<notin> fst ` set ?todo" by (simp add: map_of_eq_None_iff)
    moreover have "pel_get g' n i = pel_get g n i"
      using None by (simp only: get autoclaim_pending_def option.case)
    ultimately show ?thesis by simp
  next
    case (Some q)
    then have "i \<in> fst ` set ?todo" by (metis domI dom_map_of_conv_image_fst)
    with Some show ?thesis by (cases q) (simp add: get autoclaim_pending_def)
  qed
  have "live now (snd (xautoclaim now key grp cname min_idle start cnt ks)) = put_group key grp s g' (live now ks)"
    by (simp add: xautoclaim_def update_group_at(2) [OF assms(2)] f)
  note at' = group_at_put [OF this]
  have "fst (xautoclaim now key grp cname min_idle start cnt ks) = Inr (fst (autoclaim_group now cname min_idle start cnt s g))"
    by (simp add: xautoclaim_def update_group_at(1) [OF assms(2)])
  with f at' ids pend show ?thesis
    using inv sorted_qualifying set_qualifying
    by (intro exI [of _ "s\<lparr>groups := hm_insert grp g' (groups s)\<rparr>"] exI [of _ g'])
       (simp add: Let_def group_inv_def)
qed

theorem xautoclaim_spec_witness:
  "\<exists>s' g'. group_at 9 (snd (xautoclaim 9 ''s'' ''g'' ''d'' 0 (0, 0) None sample_ks)) ''s'' ''g'' = Some (s', g') \<and>
     pel_ids g' = {(1, 0)}"
proof -
  from xautoclaim_spec [OF sample_ok sample_at, of 9 0 "(0, 0)" None "''d''"] show ?thesis
    unfolding Let_def sample_ids by blast
qed



text \<open>
  FORCE switches the idle test off: XCLAIM FORCE takes an entry from its consumer even
  when it was delivered only a moment ago, although the documentation says that only entries
  idle for the minimum time are claimed.
\<close>

theorem xclaim_force_ignores_idle:
  assumes "groups_ok ks" and "group_at now ks key grp = Some (s, g)" and "0 \<le> now"
    and "pel_get g owner i = Some p" and "\<not> idle_at_least now min_idle p" and "owner \<noteq> cname"
  shows "\<exists>s' g'. group_at now (snd (xclaim now key grp cname min_idle [i] None retry True justid ks)) key grp = Some (s', g') \<and>
    pel_get g' owner i = None \<and> pel_get g' cname i \<noteq> None"
proof -
  have inv: "group_inv g" using groups_ok_at [OF assms(1,2)] by simp
  then have wf: "group_wf g" "pel_unique g" by (auto simp: group_inv_def)
  have "i \<in> pel_ids g" using assms(4) by (auto simp: pel_ids_iff)
  then obtain m q where f: "find_pending i (consumers g) = Some (m, q)"
    using find_pending_get [OF wf(1), of i] by (auto split: option.splits)
  then have mq: "pel_get g m i = Some q"
    using find_pending_get [OF wf(1), of i] by simp
  have m: "m = owner" by (rule pel_uniqueD [OF wf(2) mq assms(4)])
  obtain e where step: "xclaim_step now cname min_idle None retry True justid s i g =
      Some (claimed_entry justid i s, pel_insert cname i e (pel_remove owner i g))"
    using f m by (simp add: xclaim_step_def)
  then have "live now (snd (xclaim now key grp cname min_idle [i] None retry True justid ks)) =
      put_group key grp s (pel_insert cname i e (pel_remove owner i g)) (live now ks)"
    by (simp add: xclaim_def update_group_at(2) [OF assms(2)])
  from group_at_put [OF this] show ?thesis
    using assms(6) by (auto simp: pel_get_insert pel_get_remove)
qed

theorem xclaim_force_ignores_idle_witness:
  "\<exists>s' g'. group_at 9 (snd (xclaim 9 ''s'' ''g'' ''d'' 5000 [(1, 0)] None None True False sample_ks)) ''s'' ''g'' = Some (s', g') \<and>
     pel_get g' ''c'' (1, 0) = None \<and> pel_get g' ''d'' (1, 0) \<noteq> None"
  by (rule xclaim_force_ignores_idle [OF sample_ok sample_at _, where p = "\<lparr>delivery_time = 0, delivery_count = 1\<rparr>"])
     (simp_all add: pel_get_sample idle_at_least_def duration_since_def from_millis_def)

section \<open>XPENDING\<close>

definition pending_ids :: "(bytes, consumer) hashmap \<Rightarrow> stream_id list" where
  "pending_ids cs = concat (map (\<lambda>(n, c). map fst (pending c)) cs)"

lemma fold_min_step: "fold min_step ids m = (case m of None \<Rightarrow> (if ids = [] then None else Some (Min (set ids))) | Some x \<Rightarrow> Some (Min (insert x (set ids))))"
proof (induction ids arbitrary: m)
  case Nil
  then show ?case by (cases m) auto
next
  case (Cons i ids)
  show ?case
  proof (cases m)
    case None
    with Cons [of "Some i"] show ?thesis by (simp add: min_step_def)
  next
    case (Some x)
    have "Min (insert x (insert i (set ids))) = Min (insert (min x i) (set ids))"
      by (cases "set ids = {}") (auto simp: min.assoc)
    with Some Cons [of "Some i"] Cons [of "Some x"] show ?thesis
      by (auto simp: min_step_def min_def)
  qed
qed

lemma fold_max_step: "fold max_step ids m = (case m of None \<Rightarrow> (if ids = [] then None else Some (Max (set ids))) | Some x \<Rightarrow> Some (Max (insert x (set ids))))"
proof (induction ids arbitrary: m)
  case Nil
  then show ?case by (cases m) auto
next
  case (Cons i ids)
  show ?case
  proof (cases m)
    case None
    with Cons [of "Some i"] show ?thesis by (simp add: max_step_def)
  next
    case (Some x)
    have "Max (insert x (insert i (set ids))) = Max (insert (max x i) (set ids))"
      by (cases "set ids = {}") (auto simp: max.assoc)
    with Some Cons [of "Some i"] Cons [of "Some x"] show ?thesis
      by (auto simp: max_step_def max_def)
  qed
qed

lemma sorted_ends:
  fixes xs :: "'a :: linorder list"
  assumes "sorted xs" and "xs \<noteq> []"
  shows "hd xs = Min (set xs)" and "last xs = Max (set xs)"
proof -
  show "hd xs = Min (set xs)"
    using assms by (cases xs) (auto intro!: Min_eqI [symmetric])
  show "last xs = Max (set xs)"
    using assms by (cases xs rule: rev_cases) (auto simp: sorted_append intro!: Max_eqI [symmetric])
qed

lemma fold_pairs: "fold (\<lambda>(i, _). f i) ps a = fold f (map fst ps) a"
  by (induction ps arbitrary: a) auto

lemma summary_fold:
  "fold summary_step cs (t, lo, hi, counts) =
     (t + length (pending_ids cs), fold min_step (pending_ids cs) lo, fold max_step (pending_ids cs) hi,
      counts @ map (\<lambda>(n, c). (n, length (pending c))) (filter (\<lambda>(n, c). pending c \<noteq> []) cs))"
  by (induction cs arbitrary: t lo hi counts)
     (auto simp: pending_ids_def summary_step_def Let_def fold_pairs)

lemma pending_rows_all:
  "map fst (concat (map (pending_rows now (0, 0) (u64_MAX, u64_MAX) None) cs)) = pending_ids cs"
proof -
  have "map fst (pending_rows now (0, 0) (u64_MAX, u64_MAX) None p) = map fst (pending (snd p))" for p
  proof -
    have "filter (\<lambda>(i, pe). \<not> (i < (0, 0) \<or> i > (u64_MAX, u64_MAX)) \<and>
        \<not> (case None of Some ms \<Rightarrow> idle_ms now pe < unat ms | None \<Rightarrow> False)) (pending c) = pending c" for c :: consumer
      using stream_id_bounds by (auto simp: filter_id_conv not_less [symmetric] simp del: not_less)
    then show ?thesis
      by (cases p) (simp add: pending_rows_def comp_def split_beta)
  qed
  then show ?thesis
    by (simp add: pending_ids_def map_concat comp_def case_prod_beta')
qed

lemma set_pending_ids: "group_wf g \<Longrightarrow> set (pending_ids (consumers g)) = pel_ids g"
proof (rule set_eqI)
  fix i
  assume wf: "group_wf g"
  have "i \<in> set (pending_ids (consumers g)) \<longleftrightarrow> (\<exists>n c p. (n, c) \<in> set (consumers g) \<and> (i, p) \<in> set (pending c))"
    by (force simp: pending_ids_def)
  also have "\<dots> \<longleftrightarrow> (\<exists>n c p. hm_get (consumers g) n = Some c \<and> hm_get (pending c) i = Some p)"
  proof -
    have "(n, c) \<in> set (consumers g) \<and> (i, p) \<in> set (pending c) \<longleftrightarrow>
        hm_get (consumers g) n = Some c \<and> hm_get (pending c) i = Some p" for n c p
      using wf by (auto simp: group_wf_consumers hm.elems_iff)
    then show ?thesis by simp
  qed
  also have "\<dots> \<longleftrightarrow> i \<in> pel_ids g"
  proof -
    have "(\<exists>c p. hm_get (consumers g) n = Some c \<and> hm_get (pending c) i = Some p) \<longleftrightarrow> (\<exists>p. pel_get g n i = Some p)" for n
      by (cases "hm_get (consumers g) n") (simp_all add: pel_get_def)
    then show ?thesis by (simp add: pel_ids_iff)
  qed
  finally show "i \<in> set (pending_ids (consumers g)) \<longleftrightarrow> i \<in> pel_ids g" .
qed

lemma distinct_pending_ids:
  assumes "group_wf g" and "pel_unique g"
  shows "distinct (pending_ids (consumers g))"
proof -
  have "distinct (concat (map (\<lambda>(n, c). map fst (filter (\<lambda>_. True) (pending c))) (consumers g)))"
    using assms owners_unique [OF assms]
    by (intro distinct_rows) (auto simp: group_wf_def consumer_wf_def hm_wf_def)
  then show ?thesis by (simp add: pending_ids_def)
qed



section \<open>Creating a group, and two surprises\<close>

text \<open>Where a new group starts: \<open>$\<close> is parsed to the largest ID and means the last entry.\<close>

definition start_id :: "stream_id \<Rightarrow> stream \<Rightarrow> stream_id" where
  "start_id sid s = (if sid = (u64_MAX, u64_MAX) then last_id s else sid)"

lemma xgroup_create_stream_eq:
  "xgroup_create_stream grp sid s =
     (if hm_contains (groups s) grp then (Inl BusyGroup, s)
      else (Inr (), s\<lparr>groups := hm_insert grp \<lparr>last_delivered_id = start_id sid s, consumers = []\<rparr> (groups s)\<rparr>))"
  by (simp add: xgroup_create_stream_def start_id_def Let_def)

lemma new_stream_fresh: "expires_at new_stream = None"
  by (simp add: new_stream_def)

lemma kind_at_present:
  "kind_at proj now ks key = Inr so \<Longrightarrow> so \<noteq> None \<longleftrightarrow> live now ks key \<noteq> None"
  by (cases "live now ks key") (auto simp: kind_at_def split: option.splits dest: sym)

lemma xgroup_create_eq:
  "kind_at stream_of now ks key = Inr so \<Longrightarrow>
   xgroup_create now key grp sid mkstream ks =
     (if so = None \<and> \<not> mkstream then (Inl KeyNotFound, expire_key now key ks)
      else create_key now key new_stream (modify_kind stream_of StreamV (xgroup_create_stream grp sid)) ks)"
  using kind_at_present [of stream_of now ks key so] by (auto simp: xgroup_create_def)

text \<open>
  XGROUP CREATE makes an empty group that starts at the given ID, the ID of the last
  entry for \<open>$\<close>, on the stream under the key or on a new one (MKSTREAM); it refuses a
  group that exists and changes nothing then, and without MKSTREAM a missing key.
\<close>

theorem xgroup_create_spec:
  assumes "kind_at stream_of now ks key = Inr so"
  shows "let s = case so of None \<Rightarrow> new_stream_value | Some s \<Rightarrow> s;
         (res, ks') = xgroup_create now key grp sid mkstream ks
    in if so = None \<and> \<not> mkstream then res = Inl KeyNotFound \<and> live now ks' = live now ks
       else if hm_contains (groups s) grp then res = Inl BusyGroup \<and> live now ks' = put key (StreamV s) (live now ks)
       else res = Inr () \<and>
         live now ks' = put_group key grp s \<lparr>last_delivered_id = start_id sid s, consumers = []\<rparr> (live now ks)"
proof -
  let ?f = "xgroup_create_stream grp sid" and ?s = "case so of None \<Rightarrow> new_stream_value | Some s \<Rightarrow> s"
  let ?c = "create_key now key new_stream (modify_kind stream_of StreamV ?f) ks"
  have "fst ?c = fst (?f ?s)" "live now (snd ?c) = put key (StreamV (snd (?f ?s))) (live now ks)"
    using assms stream_kind.create_typed_result [OF new_entries_data(4), of now key ?f ks]
      stream_kind.create_typed_view [OF new_entries_data(4) new_stream_fresh, of now key ?f ks]
    by simp_all
  then show ?thesis
    by (simp add: xgroup_create_eq [OF assms] xgroup_create_stream_eq put_group_def Let_def split_beta)
qed

theorem xgroup_create_spec_witness:
  "fst (xgroup_create 0 ''s'' ''h'' (u64_MAX, u64_MAX) False sample_ks) = Inr () \<and>
   fst (xgroup_create 0 ''s'' ''g'' (0, 0) True sample_ks) = Inl BusyGroup"
proof -
  have at: "kind_at stream_of 0 sample_ks ''s'' = Inr (Some sample_stream)"
    using sample_at [of 0] by (simp add: group_at_Some)
  have "\<not> hm_contains (groups sample_stream) ''h''" "hm_contains (groups sample_stream) ''g''"
    by (simp_all add: sample_stream_def hm_contains_def hm_get_def)
  with xgroup_create_spec [OF at, of "''h''" "(u64_MAX, u64_MAX)" False]
    xgroup_create_spec [OF at, of "''g''" "(0, 0)" True]
  show ?thesis by (simp add: Let_def split_beta)
qed

lemma undelivered_entry:
  assumes "group_inv g" and "btree_wf (entries s)" and "(i, f) \<in> set (undelivered s g)"
  shows "bt_get (entries s) i = Some f" and "i \<notin> pel_ids g" and "last_delivered_id g < i"
proof -
  show lt: "last_delivered_id g < i"
    using entries_after_gt [of "(i, f)" "last_delivered_id g" None s] assms(3) by (simp add: undelivered_def)
  then show "i \<notin> pel_ids g"
    using assms(1) by (auto simp: group_inv_def pel_delivered_def not_le [symmetric])
  have "(i, f) \<in> set (entries s)"
    using assms(3) by (auto simp: undelivered_def entries_after_def bt_after_def)
  then show "bt_get (entries s) i = Some f"
    using assms(2) by (simp add: bt.elems_iff [symmetric])
qed

text \<open>
  C26. A comment in XAUTOCLAIM says that an ID is pending for one consumer at most.  That fails
  after XCLAIM FORCE of an entry the group has not delivered yet: the next XREADGROUP
  delivers it again, and it is then pending for both consumers.
\<close>

theorem xclaim_force_doubles:
  assumes "groups_ok ks" and "group_at now ks key grp = Some (s, g)"
    and "(i, f) \<in> set (undelivered s g)" and "c \<noteq> d"
  shows "let ks1 = snd (xclaim now key grp c min_idle [i] None retry True justid ks);
             ks2 = snd (xreadgroup now grp d [key] [''>''] None ks1)
    in \<exists>s' g'. group_at now ks2 key grp = Some (s', g') \<and> pel_get g' c i \<noteq> None \<and> pel_get g' d i \<noteq> None"
proof -
  have inv: "group_inv g" "btree_wf (entries s)"
    using groups_ok_at [OF assms(1,2)] by (auto simp: stream_ok_entries_wf)
  note u = undelivered_entry [OF inv assms(3)]
  have "find_pending i (consumers g) = None"
    using find_pending_get [of g i] inv(1) u(2)
    by (auto simp: group_inv_def pel_ids_iff split: option.splits)
  then obtain e where "xclaim_step now c min_idle None retry True justid s i g =
      Some (claimed_entry justid i s, pel_insert c i e g)"
    using u(1) by (simp add: xclaim_step_def)
  then have v1: "live now (snd (xclaim now key grp c min_idle [i] None retry True justid ks)) =
      put_group key grp s (pel_insert c i e g) (live now ks)"
    by (simp add: xclaim_def update_group_at(2) [OF assms(2)])
  let ?g1 = "pel_insert c i e g" and ?s1 = "s\<lparr>groups := hm_insert grp (pel_insert c i e g) (groups s)\<rparr>"
  have at1: "group_at now (snd (xclaim now key grp c min_idle [i] None retry True justid ks)) key grp = Some (?s1, ?g1)"
    by (rule group_at_put [OF v1])
  have "undelivered ?s1 ?g1 = undelivered s g"
    by (simp add: undelivered_def entries_after_def)
  with assms(3) have "i \<in> fst ` set (undelivered ?s1 ?g1)" by force
  then show ?thesis
    using group_at_put [OF xreadgroup_one(2) [OF at1, of d "''>''" None]] assms(4)
    by (simp add: Let_def deliver_step pel_get_deliver pel_get_insert)
qed

theorem xclaim_force_doubles_witness:
  "let ks1 = snd (xclaim 9 ''s'' ''g'' ''a'' 0 [(2, 0)] None None True False sample_ks);
       ks2 = snd (xreadgroup 9 ''g'' ''b'' [''s''] [''>''] None ks1)
   in \<exists>s' g'. group_at 9 ks2 ''s'' ''g'' = Some (s', g') \<and>
        pel_get g' ''a'' (2, 0) \<noteq> None \<and> pel_get g' ''b'' (2, 0) \<noteq> None"
  by (rule xclaim_force_doubles [OF sample_ok sample_at, of _ "[]"])
     (simp_all add: undelivered_def sample_undelivered)

text \<open>
  C27. XREADGROUP over several keys is not all or nothing: when a later key has no such group
  the reply is the NOGROUP error, but the entries of the earlier key have been delivered: they
  are pending for the consumer, who never got them, and the group does not deliver them again.
\<close>

theorem xreadgroup_loses_entries:
  assumes "groups_ok ks" and "group_at now ks k1 grp = Some (s, g)"
    and "kind_at stream_of now ks k2 = Inr None"
  shows "\<exists>ks' s' g'. xreadgroup now grp c [k1, k2] [''>'', ''>''] None ks = (Inl (no_group grp k2), ks') \<and>
    group_at now ks' k1 grp = Some (s', g') \<and> undelivered s' g' = [] \<and>
    (\<forall>i \<in> fst ` set (undelivered s g). pel_get g' c i \<noteq> None)"
proof -
  have wf: "btree_wf (entries s)"
    using groups_ok_at [OF assms(1,2)] by (simp add: stream_ok_entries_wf)
  let ?g1 = "deliver now c (undelivered s g) g" and ?r = "xreadgroup now grp c [k1] [''>''] None ks"
  have v1: "live now (snd ?r) = put_group k1 grp s ?g1 (live now ks)"
    using xreadgroup_one(2) [OF assms(2), of c "''>''" None] by (simp add: deliver_step)
  note at1 = group_at_put [OF v1]
  have none: "live now ks k2 = None"
    using kind_at_present [OF assms(3)] by simp
  have ne: "k1 \<noteq> k2"
    using assms(2) none by (auto simp: group_at_Some stream_kind.kind_at_Some)
  then have gone: "live now (snd ?r) k2 = None"
    using none by (simp add: v1 put_group_def put_def)
  obtain e where e: "live now ks k1 = Some e" "vdata e = StreamV s" "hm_get (groups s) grp = Some g"
    using assms(2) by (auto simp: group_at_Some stream_kind.kind_at_Some)
  have "xreadgroup now grp c [k1, k2] [''>'', ''>''] None ks =
      (Inl (no_group grp k2), expire_key now k2 (snd ?r))"
    using e gone by (simp add: xreadgroup_def Let_def split_beta)
  moreover have "undelivered (s\<lparr>groups := hm_insert grp ?g1 (groups s)\<rparr>) ?g1 = []"
    using undelivered_after [OF wf, of "hm_insert grp ?g1 (groups s)" now c "length (undelivered s g)" g] by simp
  moreover have "group_at now (expire_key now k2 (snd ?r)) k1 grp = Some (s\<lparr>groups := hm_insert grp ?g1 (groups s)\<rparr>, ?g1)"
    using at1 by (simp add: group_at_def kind_at_def)
  ultimately show ?thesis
    by (auto simp: pel_get_deliver)
qed

theorem xreadgroup_loses_entries_witness:
  "\<exists>ks' s' g'. xreadgroup 9 ''g'' ''c'' [''s'', ''t''] [''>'', ''>''] None sample_ks = (Inl (no_group ''g'' ''t''), ks') \<and>
    group_at 9 ks' ''s'' ''g'' = Some (s', g') \<and> undelivered s' g' = [] \<and>
    (\<forall>i \<in> fst ` set (undelivered sample_stream sample_group). pel_get g' ''c'' i \<noteq> None)"
  by (rule xreadgroup_loses_entries [OF sample_ok sample_at])
     (simp add: kind_at_def live_def sample_ks_def hm_get_def)

end
