(* ===== verification/Pubsub.thy ===== *)
theory Pubsub
  imports Store_Types Glob
begin

text \<open>
  The pub/sub registry of \<^verbatim>\<open>src/src/store.rs\<close>: who is subscribed to which channel and
  pattern, kept in both directions, the background listener of each subscriber, and PUBLISH.

  The broadcast channel, the oneshot channels and the tasks belong to the tokio library.  The
  model says what the registry does with them: PUBLISH answers the messages it hands to the
  broadcast sender, in order; a listener is named by the number of its task, and the registry
  records the tasks whose stop flag was raised and those whose stop channel was fired or
  dropped.
\<close>

section \<open>The registry\<close>

record pubsub_message =
  msg_kind :: string
  msg_pattern :: "bytes option"
  msg_channel :: bytes
  msg_data :: bytes

text \<open>
  A listener handle: the task whose flag and stop channel it holds, and the join handle of
  the task until it is taken.
\<close>

record listener =
  stop_task :: nat
  join_handle :: "nat option"

text \<open>One kind of subscription, in both directions: topic to subscribers, subscriber to topics.\<close>

type_synonym subscriptions = "(bytes, u64 hashset) hashmap \<times> (u64, bytes hashset) hashmap"

record registry =
  channel_subs :: subscriptions \<comment> \<open>channel_subscribers, subscriber_channels\<close>
  pattern_subs :: subscriptions \<comment> \<open>pattern_subscribers, subscriber_patterns\<close>
  listener_stoppers :: "(u64, listener) hashmap"
  next_id :: u64
  stop_flags :: "nat list" \<comment> \<open>tasks whose stop flag is up\<close>
  stop_fired :: "nat list" \<comment> \<open>tasks whose stop channel is resolved\<close>

definition new_registry :: registry where
  "new_registry =
     \<lparr>channel_subs = ([], []), pattern_subs = ([], []), listener_stoppers = [], next_id = 0,
      stop_flags = [], stop_fired = []\<rparr>"

section \<open>One kind of subscription\<close>

definition or_default :: "('k, 'a list) hashmap \<Rightarrow> 'k \<Rightarrow> 'a list" where
  "or_default m k = (case hm_get m k of Some s \<Rightarrow> s | None \<Rightarrow> [])"

definition subscribe_one :: "u64 \<Rightarrow> bytes \<Rightarrow> subscriptions \<Rightarrow> subscriptions" where
  "subscribe_one sid topic st =
     (case st of (m, n) \<Rightarrow>
        (hm_insert topic (hs_insert sid (or_default m topic)) m,
         hm_insert sid (hs_insert topic (or_default n sid)) n))"

text \<open>Taking a subscriber off a topic; a topic without subscribers is removed.\<close>

definition drop_subscriber :: "u64 \<Rightarrow> bytes \<Rightarrow> (bytes, u64 hashset) hashmap \<Rightarrow> (bytes, u64 hashset) hashmap" where
  "drop_subscriber sid topic m =
     (case hm_get m topic of
        None \<Rightarrow> m
      | Some s \<Rightarrow> (let s' = hs_remove sid s
                  in if s' = [] then hm_remove topic m else hm_insert topic s' m))"

definition unsubscribe_one :: "u64 \<Rightarrow> bytes \<Rightarrow> subscriptions \<Rightarrow> subscriptions" where
  "unsubscribe_one sid topic st =
     (case st of (m, n) \<Rightarrow>
        (drop_subscriber sid topic m,
         (case hm_get n sid of None \<Rightarrow> n | Some s \<Rightarrow> hm_insert sid (hs_remove topic s) n)))"

text \<open>What UNSUBSCRIBE without arguments works on, and its final clean-up.\<close>

definition topics_to_remove :: "u64 \<Rightarrow> bytes list \<Rightarrow> subscriptions \<Rightarrow> bytes list" where
  "topics_to_remove sid topics st = (if topics = [] then or_default (snd st) sid else topics)"

definition clean_up :: "u64 \<Rightarrow> subscriptions \<Rightarrow> subscriptions" where
  "clean_up sid st =
     (case st of (m, n) \<Rightarrow> (m, if or_default n sid = [] then hm_remove sid n else n))"

text \<open>Forgetting a subscriber altogether.\<close>

definition forget_subscriber :: "u64 \<Rightarrow> subscriptions \<Rightarrow> subscriptions" where
  "forget_subscriber sid st =
     (case st of (m, n) \<Rightarrow>
        (case hm_get n sid of
           None \<Rightarrow> (m, n)
         | Some topics \<Rightarrow> (fold (drop_subscriber sid) topics m, hm_remove sid n)))"

section \<open>The operations\<close>

definition subscription_count :: "u64 \<Rightarrow> registry \<Rightarrow> i64" where
  "subscription_count sid r =
     int (length (or_default (snd (channel_subs r)) sid) + length (or_default (snd (pattern_subs r)) sid))"

text \<open>Change the subscriptions topic by topic, reporting the count after each.\<close>

fun report_loop :: "(bytes \<Rightarrow> registry \<Rightarrow> registry) \<Rightarrow> u64 \<Rightarrow> bytes list \<Rightarrow> registry \<Rightarrow>
    (bytes \<times> i64) list \<times> registry" where
  "report_loop f sid [] r = ([], r)"
| "report_loop f sid (t # ts) r =
     (let r1 = f t r; (out, r2) = report_loop f sid ts r1
      in ((t, subscription_count sid r1) # out, r2))"

definition subscribe :: "u64 \<Rightarrow> bytes list \<Rightarrow> registry \<Rightarrow> (bytes \<times> i64) list \<times> registry" where
  "subscribe sid channels =
     report_loop (\<lambda>t r. r\<lparr>channel_subs := subscribe_one sid t (channel_subs r)\<rparr>) sid channels"

definition psubscribe :: "u64 \<Rightarrow> bytes list \<Rightarrow> registry \<Rightarrow> (bytes \<times> i64) list \<times> registry" where
  "psubscribe sid patterns =
     report_loop (\<lambda>t r. r\<lparr>pattern_subs := subscribe_one sid t (pattern_subs r)\<rparr>) sid patterns"

definition unsubscribe :: "u64 \<Rightarrow> bytes list \<Rightarrow> registry \<Rightarrow> (bytes \<times> i64) list \<times> registry" where
  "unsubscribe sid channels r =
     (let (out, r1) =
        report_loop (\<lambda>t r. r\<lparr>channel_subs := unsubscribe_one sid t (channel_subs r)\<rparr>) sid
          (topics_to_remove sid channels (channel_subs r)) r
      in (out, r1\<lparr>channel_subs := clean_up sid (channel_subs r1)\<rparr>))"

definition punsubscribe :: "u64 \<Rightarrow> bytes list \<Rightarrow> registry \<Rightarrow> (bytes \<times> i64) list \<times> registry" where
  "punsubscribe sid patterns r =
     (let (out, r1) =
        report_loop (\<lambda>t r. r\<lparr>pattern_subs := unsubscribe_one sid t (pattern_subs r)\<rparr>) sid
          (topics_to_remove sid patterns (pattern_subs r)) r
      in (out, r1\<lparr>pattern_subs := clean_up sid (pattern_subs r1)\<rparr>))"

text \<open>\<open>fetch_add\<close> wraps around.\<close>

definition new_subscriber :: "registry \<Rightarrow> u64 \<times> registry" where
  "new_subscriber r = (next_id r, r\<lparr>next_id := next_id r + 1\<rparr>)"

text \<open>
  Registering a listener drops a handle that was registered before under the same
  subscriber, which resolves its stop channel.
\<close>

definition register_listener_stopper :: "u64 \<Rightarrow> nat \<Rightarrow> registry \<Rightarrow> registry" where
  "register_listener_stopper sid task r =
     r\<lparr>listener_stoppers := hm_insert sid \<lparr>stop_task = task, join_handle = Some task\<rparr> (listener_stoppers r),
       stop_fired := (case hm_get (listener_stoppers r) sid of
                        Some old \<Rightarrow> stop_task old # stop_fired r | None \<Rightarrow> stop_fired r)\<rparr>"

definition stop_subscriber_listener :: "u64 \<Rightarrow> registry \<Rightarrow> nat option \<times> registry" where
  "stop_subscriber_listener sid r =
     (let (h, r1) =
        (case hm_get (listener_stoppers r) sid of
           Some l \<Rightarrow>
             (join_handle l,
              r\<lparr>listener_stoppers := hm_remove sid (listener_stoppers r),
                stop_flags := stop_task l # stop_flags r, stop_fired := stop_task l # stop_fired r\<rparr>)
         | None \<Rightarrow> (None, r))
      in (h, r1\<lparr>channel_subs := forget_subscriber sid (channel_subs r1),
                pattern_subs := forget_subscriber sid (pattern_subs r1)\<rparr>))"

definition publish :: "bytes \<Rightarrow> bytes \<Rightarrow> registry \<Rightarrow> i64 \<times> pubsub_message list" where
  "publish channel message r =
     (let channel_count = int (length (or_default (fst (channel_subs r)) channel));
          hits = filter (\<lambda>(p, subs). glob_match p channel) (fst (pattern_subs r));
          pattern_count = sum_list (map (\<lambda>(p, subs). int (length subs)) hits);
          pmessages = map (\<lambda>(p, subs). \<lparr>msg_kind = ''pmessage'', msg_pattern = Some p,
                                         msg_channel = channel, msg_data = message\<rparr>) hits;
          messages = (if channel_count > 0
                      then [\<lparr>msg_kind = ''message'', msg_pattern = None, msg_channel = channel, msg_data = message\<rparr>]
                      else [])
      in (channel_count + pattern_count, pmessages @ messages))"

definition pubsub_channels :: "bytes option \<Rightarrow> registry \<Rightarrow> bytes list" where
  "pubsub_channels pat r =
     sort (filter (\<lambda>ch. case pat of Some p \<Rightarrow> glob_match p ch | None \<Rightarrow> True)
            (map fst (fst (channel_subs r))))"

definition pubsub_numsub :: "bytes list \<Rightarrow> registry \<Rightarrow> (bytes \<times> i64) list" where
  "pubsub_numsub channels r =
     map (\<lambda>ch. (ch, int (length (or_default (fst (channel_subs r)) ch)))) channels"

definition pubsub_numpat :: "registry \<Rightarrow> i64" where
  "pubsub_numpat r = sum_list (map (\<lambda>(p, subs). int (length subs)) (fst (pattern_subs r)))"

text \<open>Shutdown stops the listener of every subscriber that has one.\<close>

definition stop_all_listeners :: "registry \<Rightarrow> registry" where
  "stop_all_listeners r =
     fold (\<lambda>sid r. snd (stop_subscriber_listener sid r)) (map fst (listener_stoppers r)) r"

section \<open>The subscription relation\<close>

text \<open>
  What a pair of maps promises: it is one relation between subscribers and topics, read
  from either end; a topic is kept only while it has subscribers.
\<close>

definition subs_rel :: "subscriptions \<Rightarrow> (u64 \<times> bytes) set" where
  "subs_rel st = {(sid, t). sid \<in> set (or_default (fst st) t)}"

definition subs_ok :: "subscriptions \<Rightarrow> bool" where
  "subs_ok st \<longleftrightarrow>
     hm_wf (fst st) \<and> hm_wf (snd st) \<and>
     (\<forall>t. distinct (or_default (fst st) t)) \<and> (\<forall>sid. distinct (or_default (snd st) sid)) \<and>
     (\<forall>t. hm_get (fst st) t \<noteq> Some []) \<and>
     (\<forall>sid t. t \<in> set (or_default (snd st) sid) \<longleftrightarrow> (sid, t) \<in> subs_rel st)"

text \<open>Between commands there is no entry for a subscriber without subscriptions either.\<close>

definition subs_tidy :: "subscriptions \<Rightarrow> bool" where
  "subs_tidy st \<longleftrightarrow> (\<forall>sid. hm_get (snd st) sid \<noteq> Some [])"

lemma or_default_insert [simp]: "or_default (hm_insert k v m) j = (if j = k then v else or_default m j)"
  by (simp add: or_default_def)

lemma or_default_remove [simp]: "or_default (hm_remove k m) j = (if j = k then [] else or_default m j)"
  by (simp add: or_default_def)

lemma or_default_Nil [simp]: "or_default [] k = []"
  by (simp add: or_default_def)

lemma or_default_drop [simp]:
  "or_default (drop_subscriber sid t m) j = (if j = t then hs_remove sid (or_default m t) else or_default m j)"
  by (auto simp: drop_subscriber_def or_default_def Let_def hs_remove_def split: option.splits)

lemma hm_wf_drop_subscriber [simp]: "hm_wf m \<Longrightarrow> hm_wf (drop_subscriber sid t m)"
  by (simp add: drop_subscriber_def Let_def split: option.splits)

lemma drop_subscriber_no_empty:
  "\<forall>j. hm_get m j \<noteq> Some [] \<Longrightarrow> hm_get (drop_subscriber sid t m) j \<noteq> Some []"
  by (simp add: drop_subscriber_def Let_def split: option.splits)

lemma subs_rel_iff: "(sid, t) \<in> subs_rel st \<longleftrightarrow> sid \<in> set (or_default (fst st) t)"
  by (simp add: subs_rel_def)

lemma subs_ok_new [simp]: "subs_ok ([], [])" "subs_tidy ([], [])" "subs_rel ([], []) = {}"
  by (simp_all add: subs_ok_def subs_tidy_def subs_rel_def)

lemma subscribe_one_rel: "subs_rel (subscribe_one sid t st) = insert (sid, t) (subs_rel st)"
  by (cases st) (auto simp: subs_rel_def subscribe_one_def split: if_splits)

lemma subscribe_one_ok:
  assumes "subs_ok st"
  shows "subs_ok (subscribe_one sid t st)" and "subs_tidy st \<Longrightarrow> subs_tidy (subscribe_one sid t st)"
  using assms
  by (cases st; auto simp: subs_ok_def subs_tidy_def subs_rel_iff subscribe_one_def)+

lemma unsubscribe_one_rel: "subs_rel (unsubscribe_one sid t st) = subs_rel st - {(sid, t)}"
  by (cases st) (auto simp: subs_rel_def unsubscribe_one_def split: if_splits)

lemma or_default_unsubscribe_snd:
  "or_default (snd (unsubscribe_one sid t st)) j =
     (if j = sid then hs_remove t (or_default (snd st) sid) else or_default (snd st) j)"
  by (cases st) (auto simp: unsubscribe_one_def or_default_def hs_remove_def split: option.splits)

lemma unsubscribe_one_ok:
  assumes "subs_ok st"
  shows "subs_ok (unsubscribe_one sid t st)"
proof -
  obtain m n where st: "st = (m, n)" by (cases st)
  have "hm_wf (snd (unsubscribe_one sid t st))"
    using assms by (auto simp: st unsubscribe_one_def subs_ok_def split: option.splits)
  moreover have "fst (unsubscribe_one sid t st) = drop_subscriber sid t m"
    by (simp add: st unsubscribe_one_def)
  ultimately show ?thesis
    using assms drop_subscriber_no_empty [of m sid t]
    by (auto simp: subs_ok_def unsubscribe_one_rel or_default_unsubscribe_snd st subs_rel_iff)
qed

lemma clean_up_rel [simp]: "subs_rel (clean_up sid st) = subs_rel st"
  by (cases st) (simp add: subs_rel_def clean_up_def)

lemma clean_up_ok:
  assumes "subs_ok st"
  shows "subs_ok (clean_up sid st)"
proof -
  have "or_default (snd (clean_up sid st)) j = or_default (snd st) j" for j
    by (cases st) (auto simp: clean_up_def)
  moreover have "fst (clean_up sid st) = fst st" "hm_wf (snd (clean_up sid st))"
    using assms by (auto simp: clean_up_def subs_ok_def split: prod.splits)
  ultimately show ?thesis
    using assms by (simp add: subs_ok_def)
qed

lemma hs_remove_twice [simp]: "hs_remove x (hs_remove x s) = hs_remove x s"
  by (simp add: hs_remove_def)

lemma hs_remove_absent: "x \<notin> set s \<Longrightarrow> hs_remove x s = s"
  by (simp add: hs_remove_def)

lemma subs_okD: "subs_ok st \<Longrightarrow> (sid, t) \<in> subs_rel st \<longleftrightarrow> t \<in> set (or_default (snd st) sid)"
  by (simp add: subs_ok_def)

lemma or_default_eq: "hm_get m k = Some s \<Longrightarrow> or_default m k = s" "hm_get m k = None \<Longrightarrow> or_default m k = []"
  by (simp_all add: or_default_def)

lemma fold_forget:
  assumes "subs_ok st" and "hm_get (snd st) sid = Some topics"
  shows "or_default (fold (drop_subscriber sid) topics (fst st)) t = hs_remove sid (or_default (fst st) t)"
proof -
  have fold: "or_default (fold (drop_subscriber sid) ts m) t =
      (if t \<in> set ts then hs_remove sid (or_default m t) else or_default m t)" for ts m
    by (induction ts arbitrary: m) simp_all
  have "t \<in> set topics \<longleftrightarrow> sid \<in> set (or_default (fst st) t)"
    using subs_okD [OF assms(1), of sid t] by (simp add: subs_rel_iff or_default_eq(1) [OF assms(2)])
  then show ?thesis
    by (simp add: fold hs_remove_absent)
qed

lemma forget_fst:
  assumes "subs_ok st"
  shows "or_default (fst (forget_subscriber sid st)) t = hs_remove sid (or_default (fst st) t)"
proof (cases "hm_get (snd st) sid")
  case None
  then have "(sid, t) \<notin> subs_rel st"
    using subs_okD [OF assms, of sid t] by (simp add: or_default_eq(2))
  then show ?thesis
    using None by (cases st) (simp add: forget_subscriber_def subs_rel_iff hs_remove_absent)
next
  case (Some topics)
  then show ?thesis
    using fold_forget [OF assms Some, of t] by (cases st) (simp add: forget_subscriber_def)
qed

lemma forget_snd:
  "or_default (snd (forget_subscriber sid st)) j = (if j = sid then [] else or_default (snd st) j)"
  by (cases st) (auto simp: forget_subscriber_def or_default_def split: option.splits)

lemma forget_rel: "subs_ok st \<Longrightarrow> subs_rel (forget_subscriber sid st) = {p \<in> subs_rel st. fst p \<noteq> sid}"
  by (auto simp: subs_rel_def forget_fst)

lemma forget_keeps:
  assumes "subs_ok st"
  shows "hm_wf (fst (forget_subscriber sid st)) \<and> hm_wf (snd (forget_subscriber sid st)) \<and>
    (\<forall>t. hm_get (fst (forget_subscriber sid st)) t \<noteq> Some [])"
proof -
  obtain m n where st: "st = (m, n)" by (cases st)
  have "hm_wf (fold (drop_subscriber sid) ts m) \<and> (\<forall>t. hm_get (fold (drop_subscriber sid) ts m) t \<noteq> Some [])"
    if "hm_wf m" "\<forall>t. hm_get m t \<noteq> Some []" for ts m
    using that by (induction ts arbitrary: m) (auto simp: drop_subscriber_no_empty)
  with assms show ?thesis
    by (auto simp: st forget_subscriber_def subs_ok_def split: option.splits)
qed

lemma forget_ok:
  assumes "subs_ok st"
  shows "subs_ok (forget_subscriber sid st)" and "subs_tidy st \<Longrightarrow> subs_tidy (forget_subscriber sid st)"
proof -
  show "subs_ok (forget_subscriber sid st)"
    using assms forget_keeps [OF assms, of sid]
    by (auto simp: subs_ok_def forget_fst [OF assms] forget_snd subs_rel_iff)
  show "subs_tidy st \<Longrightarrow> subs_tidy (forget_subscriber sid st)"
    by (cases st) (auto simp: subs_tidy_def forget_subscriber_def split: option.splits)
qed

section \<open>The two halves of the registry\<close>

definition topics_of :: "u64 \<Rightarrow> subscriptions \<Rightarrow> bytes set" where
  "topics_of sid st = {t. (sid, t) \<in> subs_rel st}"

lemma length_topics:
  assumes "subs_ok st"
  shows "length (or_default (snd st) sid) = card (topics_of sid st)"
proof -
  have "topics_of sid st = set (or_default (snd st) sid)"
    using assms by (auto simp: topics_of_def subs_ok_def)
  moreover have "distinct (or_default (snd st) sid)"
    using assms by (simp add: subs_ok_def)
  ultimately show ?thesis by (simp add: distinct_card)
qed

lemma topics_subscribe: "topics_of sid (subscribe_one sid t st) = insert t (topics_of sid st)"
  by (auto simp: topics_of_def subscribe_one_rel)

lemma topics_unsubscribe: "topics_of sid (unsubscribe_one sid t st) = topics_of sid st - {t}"
  by (auto simp: topics_of_def unsubscribe_one_rel)

locale subscription_half =
  fixes half :: "registry \<Rightarrow> subscriptions" and set_half :: "subscriptions \<Rightarrow> registry \<Rightarrow> registry"
    and rest :: "registry \<Rightarrow> subscriptions"
  assumes half_set: "half (set_half st r) = st"
    and rest_set: "rest (set_half st r) = rest r"
    and stoppers_set: "listener_stoppers (set_half st r) = listener_stoppers r"
    and count: "subscription_count sid r =
      int (length (or_default (snd (half r)) sid) + length (or_default (snd (rest r)) sid))"
begin

definition each :: "(bytes \<Rightarrow> subscriptions \<Rightarrow> subscriptions) \<Rightarrow> bytes \<Rightarrow> registry \<Rightarrow> registry" where
  "each f t r = set_half (f t (half r)) r"

lemma loop_half: "half (snd (report_loop (each f) sid ts r)) = fold f ts (half r)"
  by (induction ts arbitrary: r) (simp_all add: Let_def split_beta each_def half_set)

lemma loop_frame:
  "rest (snd (report_loop (each f) sid ts r)) = rest r"
  "listener_stoppers (snd (report_loop (each f) sid ts r)) = listener_stoppers r"
  by (induction ts arbitrary: r) (simp_all add: Let_def split_beta each_def rest_set stoppers_set)

text \<open>
  The reports: after each topic, the number of topics the subscriber has then, of both kinds.
\<close>

lemma loop_reports:
  assumes ok: "\<And>t st. subs_ok st \<Longrightarrow> subs_ok (f t st)"
    and topics: "\<And>t st. topics_of sid (f t st) = g t (topics_of sid st)"
    and "subs_ok (half r)" and "subs_ok (rest r)"
  shows "fst (report_loop (each f) sid ts r) =
    map (\<lambda>k. (ts ! k, int (card (fold g (take (Suc k) ts) (topics_of sid (half r))) + card (topics_of sid (rest r)))))
      [0..<length ts]"
  using assms(3,4)
proof (induction ts arbitrary: r)
  case Nil
  then show ?case by simp
next
  case (Cons t ts)
  let ?r1 = "each f t r"
  have half: "half ?r1 = f t (half r)" and rest: "rest ?r1 = rest r"
    by (simp_all add: each_def half_set rest_set)
  have ok1: "subs_ok (half ?r1)" "subs_ok (rest ?r1)"
    using Cons.prems by (simp_all add: half rest ok)
  have "subscription_count sid ?r1 = int (card (g t (topics_of sid (half r))) + card (topics_of sid (rest r)))"
    using ok1 by (simp add: count length_topics half rest topics)
  then show ?case
    using Cons.IH [OF ok1]
    by (simp add: Let_def split_beta half rest topics upt_conv_Cons map_Suc_upt [symmetric] del: upt_Suc)
qed

lemma subscribe_half:
  assumes "subs_ok (half r)" "subs_tidy (half r)" and "r' = snd (report_loop (each (subscribe_one sid)) sid ts r)"
  shows "subs_ok (half r') \<and> subs_tidy (half r') \<and> subs_rel (half r') = subs_rel (half r) \<union> {sid} \<times> set ts"
proof -
  have "subs_ok (fold (subscribe_one sid) ts st) \<and> subs_tidy (fold (subscribe_one sid) ts st) \<and>
      subs_rel (fold (subscribe_one sid) ts st) = subs_rel st \<union> {sid} \<times> set ts"
    if "subs_ok st" "subs_tidy st" for st
    using that by (induction ts arbitrary: st) (auto simp: subscribe_one_ok subscribe_one_rel)
  with assms show ?thesis by (simp add: loop_half)
qed

end

context subscription_half
begin

lemma unsubscribe_fold:
  assumes "subs_ok st"
  shows "subs_ok (fold (unsubscribe_one sid) ts st) \<and>
    subs_rel (fold (unsubscribe_one sid) ts st) = subs_rel st - {sid} \<times> set ts \<and>
    (\<forall>j. j \<noteq> sid \<longrightarrow> hm_get (snd (fold (unsubscribe_one sid) ts st)) j = hm_get (snd st) j)"
  using assms
proof (induction ts arbitrary: st)
  case Nil
  then show ?case by simp
next
  case (Cons t ts)
  have "hm_get (snd (unsubscribe_one sid t st)) j = hm_get (snd st) j" if "j \<noteq> sid" for j
    using that by (auto simp: unsubscribe_one_def split: prod.splits option.splits)
  with Cons.IH [OF unsubscribe_one_ok [OF Cons.prems]] show ?case
    by (auto simp: unsubscribe_one_rel)
qed

lemma unsubscribe_half:
  assumes "subs_ok (half r)" "subs_tidy (half r)"
    and "st' = clean_up sid (half (snd (report_loop (each (unsubscribe_one sid)) sid ts r)))"
  shows "subs_ok st' \<and> subs_tidy st' \<and> subs_rel st' = subs_rel (half r) - {sid} \<times> set ts"
proof -
  let ?st = "fold (unsubscribe_one sid) ts (half r)"
  note u = unsubscribe_fold [OF assms(1), of sid ts]
  have st': "st' = clean_up sid ?st"
    using assms(3) by (simp add: loop_half)
  have "hm_get (snd st') j \<noteq> Some []" for j
  proof (cases "j = sid")
    case True
    then show ?thesis
      by (cases ?st) (auto simp: st' clean_up_def or_default_def)
  next
    case False
    then have "hm_get (snd st') j = hm_get (snd (half r)) j"
      using u by (cases ?st) (auto simp: st' clean_up_def)
    with assms(2) show ?thesis by (simp add: subs_tidy_def)
  qed
  then show ?thesis
    using u clean_up_ok [of ?st sid] by (simp add: subs_tidy_def st')
qed

end

interpretation channels: subscription_half channel_subs "\<lambda>st r. r\<lparr>channel_subs := st\<rparr>" pattern_subs
  by unfold_locales (simp_all add: subscription_count_def)

interpretation patterns: subscription_half pattern_subs "\<lambda>st r. r\<lparr>pattern_subs := st\<rparr>" channel_subs
  by unfold_locales (simp_all add: subscription_count_def)

lemma each_channel: "(\<lambda>t r. r\<lparr>channel_subs := f t (channel_subs r)\<rparr>) = channels.each f"
  by (simp add: fun_eq_iff channels.each_def)

lemma each_pattern: "(\<lambda>t r. r\<lparr>pattern_subs := f t (pattern_subs r)\<rparr>) = patterns.each f"
  by (simp add: fun_eq_iff patterns.each_def)

text \<open>The invariant of the registry.\<close>

definition registry_ok :: "registry \<Rightarrow> bool" where
  "registry_ok r \<longleftrightarrow>
     subs_ok (channel_subs r) \<and> subs_tidy (channel_subs r) \<and>
     subs_ok (pattern_subs r) \<and> subs_tidy (pattern_subs r) \<and> hm_wf (listener_stoppers r)"

text \<open>The report of a command that works through \<open>ts\<close>: the count after each topic.\<close>

definition reports :: "bytes list \<Rightarrow> (bytes set \<Rightarrow> bytes set) \<Rightarrow> nat \<Rightarrow> (bytes \<times> i64) list" where
  "reports ts after n = map (\<lambda>k. (ts ! k, int (card (after (set (take (Suc k) ts))) + n))) [0..<length ts]"

lemma fold_insert_union: "fold insert ts T = T \<union> set ts"
  by (induction ts arbitrary: T) auto

lemma fold_remove_diff: "fold (\<lambda>t T. T - {t}) ts T = T - set ts"
  by (induction ts arbitrary: T) auto

section \<open>Properties\<close>

text \<open>
  SUBSCRIBE and PSUBSCRIBE add exactly the given subscriptions of one subscriber,
  leave the other kind alone, and report after each topic how many channels and patterns
  together the subscriber has.
\<close>

theorem subscribe_spec:
  assumes "registry_ok r"
  shows "(let (out, r') = subscribe sid ts r
      in registry_ok r' \<and> subs_rel (channel_subs r') = subs_rel (channel_subs r) \<union> {sid} \<times> set ts \<and>
         pattern_subs r' = pattern_subs r \<and>
         out = reports ts (\<lambda>seen. topics_of sid (channel_subs r) \<union> seen) (card (topics_of sid (pattern_subs r)))) \<and>
    (let (out, r') = psubscribe sid ts r
      in registry_ok r' \<and> subs_rel (pattern_subs r') = subs_rel (pattern_subs r) \<union> {sid} \<times> set ts \<and>
         channel_subs r' = channel_subs r \<and>
         out = reports ts (\<lambda>seen. topics_of sid (pattern_subs r) \<union> seen) (card (topics_of sid (channel_subs r))))"
proof -
  have ok: "subs_ok (channel_subs r)" "subs_tidy (channel_subs r)" "subs_ok (pattern_subs r)" "subs_tidy (pattern_subs r)"
    "hm_wf (listener_stoppers r)"
    using assms by (auto simp: registry_ok_def)
  note reps = channels.loop_reports [where f = "subscribe_one sid" and g = insert and sid = sid, OF subscribe_one_ok(1) topics_subscribe ok(1,3)]
    patterns.loop_reports [where f = "subscribe_one sid" and g = insert and sid = sid, OF subscribe_one_ok(1) topics_subscribe ok(3,1)]
  show ?thesis
    using channels.subscribe_half [OF ok(1,2) refl, of sid ts] patterns.subscribe_half [OF ok(3,4) refl, of sid ts] ok
    by (simp add: subscribe_def psubscribe_def each_channel each_pattern reps registry_ok_def split_beta Let_def
        channels.loop_frame patterns.loop_frame reports_def fold_insert_union)
qed

text \<open>
  UNSUBSCRIBE and PUNSUBSCRIBE take exactly the given subscriptions of one subscriber
  away, all of that kind when none is given, leave no empty entry behind, and report after
  each topic how many channels and patterns together are left.
\<close>

theorem unsubscribe_spec:
  assumes "registry_ok r"
  shows "(let us = topics_to_remove sid ts (channel_subs r); (out, r') = unsubscribe sid ts r
      in registry_ok r' \<and> subs_rel (channel_subs r') = subs_rel (channel_subs r) - {sid} \<times> set us \<and>
         pattern_subs r' = pattern_subs r \<and>
         out = reports us (\<lambda>seen. topics_of sid (channel_subs r) - seen) (card (topics_of sid (pattern_subs r))) \<and>
         set us = (if ts = [] then topics_of sid (channel_subs r) else set ts)) \<and>
    (let us = topics_to_remove sid ts (pattern_subs r); (out, r') = punsubscribe sid ts r
      in registry_ok r' \<and> subs_rel (pattern_subs r') = subs_rel (pattern_subs r) - {sid} \<times> set us \<and>
         channel_subs r' = channel_subs r \<and>
         out = reports us (\<lambda>seen. topics_of sid (pattern_subs r) - seen) (card (topics_of sid (channel_subs r))) \<and>
         set us = (if ts = [] then topics_of sid (pattern_subs r) else set ts))"
proof -
  have ok: "subs_ok (channel_subs r)" "subs_tidy (channel_subs r)" "subs_ok (pattern_subs r)" "subs_tidy (pattern_subs r)"
    "hm_wf (listener_stoppers r)"
    using assms by (auto simp: registry_ok_def)
  note reps = channels.loop_reports [where f = "unsubscribe_one sid" and g = "\<lambda>t T. T - {t}" and sid = sid, OF unsubscribe_one_ok topics_unsubscribe ok(1,3)]
    patterns.loop_reports [where f = "unsubscribe_one sid" and g = "\<lambda>t T. T - {t}" and sid = sid, OF unsubscribe_one_ok topics_unsubscribe ok(3,1)]
  have set: "set (topics_to_remove sid ts st) = (if ts = [] then topics_of sid st else set ts)" if "subs_ok st" for st
    using subs_okD [OF that] by (auto simp: topics_to_remove_def topics_of_def)
  show ?thesis
    using channels.unsubscribe_half [OF ok(1,2) refl, of sid "topics_to_remove sid ts (channel_subs r)"]
      patterns.unsubscribe_half [OF ok(3,4) refl, of sid "topics_to_remove sid ts (pattern_subs r)"] ok set
    by (simp add: unsubscribe_def punsubscribe_def each_channel each_pattern reps registry_ok_def split_beta Let_def
        channels.loop_frame patterns.loop_frame reports_def fold_remove_diff)
qed

section \<open>Publishing\<close>

text \<open>Counting the subscribers under the topics a predicate selects.\<close>

lemma sum_subscribers:
  assumes "hm_wf m" and "\<And>t s. (t, s) \<in> set m \<Longrightarrow> distinct s"
  shows "sum_list (map (\<lambda>(t, s). int (length s)) (filter (\<lambda>(t, s). P t) m)) =
      int (card {(sid, t). \<exists>s. (t, s) \<in> set m \<and> sid \<in> set s \<and> P t}) \<and>
    finite {(sid, t). \<exists>s. (t, s) \<in> set m \<and> sid \<in> set s \<and> P t}"
  using assms
proof (induction m)
  case Nil
  then show ?case by simp
next
  case (Cons p m)
  obtain t s where p: "p = (t, s)" by (cases p)
  let ?S = "{(sid, t). \<exists>s. (t, s) \<in> set m \<and> sid \<in> set s \<and> P t}"
  let ?new = "if P t then (\<lambda>sid. (sid, t)) ` set s else {}"
  have wf: "hm_wf m" "t \<notin> fst ` set m" and ds: "distinct s"
    using Cons.prems by (auto simp: hm_wf_def p)
  have IH: "sum_list (map (\<lambda>(t, s). int (length s)) (filter (\<lambda>(t, s). P t) m)) = int (card ?S)" "finite ?S"
    using Cons.IH [OF wf(1)] Cons.prems(2) by auto
  have split: "{(sid, t'). \<exists>s. (t', s) \<in> set (p # m) \<and> sid \<in> set s \<and> P t'} = ?new \<union> ?S"
    by (auto simp: p)
  have "?new \<inter> ?S = {}"
    using wf(2) by force
  then have "card (?new \<union> ?S) = card ?new + card ?S"
    using IH(2) by (intro card_Un_disjoint) auto
  moreover have "card ?new = (if P t then length s else 0)"
    using ds by (simp add: card_image inj_on_def distinct_card)
  ultimately show ?case
    unfolding split using IH by (simp add: p)
qed

lemma subs_rel_entries:
  "subs_ok st \<Longrightarrow> (sid, t) \<in> subs_rel st \<longleftrightarrow> (\<exists>s. (t, s) \<in> set (fst st) \<and> sid \<in> set s)"
proof -
  assume "subs_ok st"
  then have "hm_wf (fst st)" by (simp add: subs_ok_def)
  then show ?thesis
    by (cases "hm_get (fst st) t") (simp_all add: hm.elems_iff subs_rel_iff or_default_eq)
qed

lemma subs_entry:
  assumes "subs_ok st" and "(t, s) \<in> set (fst st)"
  shows "distinct s" and "s \<noteq> []"
proof -
  have get: "hm_get (fst st) t = Some s"
    using assms by (simp add: subs_ok_def hm.elems_iff)
  show "distinct s"
    using assms(1) or_default_eq(1) [OF get] by (metis subs_ok_def)
  show "s \<noteq> []"
    using assms(1) get by (auto simp: subs_ok_def)
qed

lemma pattern_count:
  assumes "subs_ok st"
  shows "sum_list (map (\<lambda>(t, s). int (length s)) (filter (\<lambda>(t, s). P t) (fst st))) =
    int (card {(sid, t) \<in> subs_rel st. P t})"
proof -
  have "{(sid, t) \<in> subs_rel st. P t} = {(sid, t). \<exists>s. (t, s) \<in> set (fst st) \<and> sid \<in> set s \<and> P t}"
    using subs_rel_entries [OF assms] by auto
  with sum_subscribers [of "fst st" P] subs_entry [OF assms] assms show ?thesis
    by (simp add: subs_ok_def)
qed

lemma channel_count:
  assumes "subs_ok st"
  shows "length (or_default (fst st) t) = card {sid. (sid, t) \<in> subs_rel st}"
  using assms by (simp add: subs_rel_iff subs_ok_def distinct_card)

definition message_for :: "bytes \<Rightarrow> bytes \<Rightarrow> pubsub_message" where
  "message_for channel data = \<lparr>msg_kind = ''message'', msg_pattern = None, msg_channel = channel, msg_data = data\<rparr>"

definition pmessage_for :: "bytes \<Rightarrow> bytes \<Rightarrow> bytes \<Rightarrow> pubsub_message" where
  "pmessage_for pat channel data =
     \<lparr>msg_kind = ''pmessage'', msg_pattern = Some pat, msg_channel = channel, msg_data = data\<rparr>"

text \<open>
  C25. PUBLISH answers the number of subscriptions that match the channel, exact and by
  pattern, a subscriber counting once for each of them; it broadcasts one "pmessage" for each
  subscribed pattern that matches and one "message" if the channel has an exact subscriber,
  nothing else and nothing twice.
\<close>

theorem publish_spec:
  assumes "registry_ok r"
  shows "let (n, msgs) = publish ch data r in
    n = int (card {sid. (sid, ch) \<in> subs_rel (channel_subs r)} +
             card {(sid, p) \<in> subs_rel (pattern_subs r). glob_match p ch}) \<and>
    distinct msgs \<and>
    set msgs = {pmessage_for p ch data | p sid. (sid, p) \<in> subs_rel (pattern_subs r) \<and> glob_match p ch} \<union>
               {message_for ch data | sid. (sid, ch) \<in> subs_rel (channel_subs r)}"
proof -
  let ?ps = "fst (pattern_subs r)"
  let ?hits = "filter (\<lambda>(p, subs). glob_match p ch) ?ps"
  have ok: "subs_ok (channel_subs r)" "subs_ok (pattern_subs r)"
    using assms by (auto simp: registry_ok_def)
  let ?pm = "map (\<lambda>(p, subs). pmessage_for p ch data) ?hits"
  have msgs: "snd (publish ch data r) =
      ?pm @ (if or_default (fst (channel_subs r)) ch = [] then [] else [message_for ch data])"
    by (simp add: publish_def Let_def pmessage_for_def message_for_def)
  have "distinct (map fst ?hits)"
    using ok(2) by (simp add: subs_ok_def hm_wf_def distinct_map_filter)
  then have "distinct (map (\<lambda>p. pmessage_for p ch data) (map fst ?hits))"
    by (subst distinct_map) (simp add: inj_on_def pmessage_for_def)
  then have dist: "distinct ?pm"
    by (simp add: comp_def case_prod_beta')
  let ?m = "if or_default (fst (channel_subs r)) ch = [] then [] else [message_for ch data]"
  have m: "distinct ?m" "set ?m \<subseteq> {message_for ch data}" by auto
  have other: "message_for ch data \<notin> set ?pm"
    by (auto simp: message_for_def pmessage_for_def)
  have "set ?pm = {pmessage_for p ch data | p sid. (sid, p) \<in> subs_rel (pattern_subs r) \<and> glob_match p ch}"
  proof -
    have "(\<exists>s. (p, s) \<in> set ?ps) \<longleftrightarrow> (\<exists>sid. (sid, p) \<in> subs_rel (pattern_subs r))" for p
      using subs_rel_entries [OF ok(2)] subs_entry(2) [OF ok(2)] by (metis last_in_set)
    then show ?thesis by (auto simp: image_iff) blast+
  qed
  moreover have "set (if or_default (fst (channel_subs r)) ch = [] then [] else [message_for ch data]) =
      {message_for ch data | sid. (sid, ch) \<in> subs_rel (channel_subs r)}"
    by (auto simp: subs_rel_iff neq_Nil_conv)
  moreover have "fst (publish ch data r) = int (card {sid. (sid, ch) \<in> subs_rel (channel_subs r)} +
             card {(sid, p) \<in> subs_rel (pattern_subs r). glob_match p ch})"
    by (simp add: publish_def Let_def pattern_count [OF ok(2)] channel_count [OF ok(1)])
  moreover have "distinct (?pm @ ?m)"
    using dist other m by (subst distinct_append) blast
  ultimately show ?thesis
    by (simp only: Let_def split_beta msgs set_append)
qed

lemma publish_spec_witness:
  "let (n, msgs) = publish ''news'' ''hi'' new_registry in
    n = int (card {sid. (sid, ''news'') \<in> subs_rel (channel_subs new_registry)} +
             card {(sid, p) \<in> subs_rel (pattern_subs new_registry). glob_match p ''news''}) \<and>
    distinct msgs \<and>
    set msgs = {pmessage_for p ''news'' ''hi'' | p sid. (sid, p) \<in> subs_rel (pattern_subs new_registry) \<and> glob_match p ''news''} \<union>
               {message_for ''news'' ''hi'' | sid. (sid, ''news'') \<in> subs_rel (channel_subs new_registry)}"
  by (rule publish_spec)
     (simp add: registry_ok_def new_registry_def)

section \<open>Listeners\<close>

lemma forget_absent: "subs_ok st \<Longrightarrow> (sid, t) \<notin> subs_rel (forget_subscriber sid st)"
  by (simp add: forget_rel)

text \<open>
  Stopping a subscriber's listener raises the stop flag of its task and resolves its stop
  channel, hands back the join handle, and removes every subscription of that subscriber and
  of no other, so that no later PUBLISH counts it.
\<close>

theorem stop_subscriber_listener_spec:
  assumes "registry_ok r"
  shows "let (h, r') = stop_subscriber_listener sid r in
    registry_ok r' \<and>
    subs_rel (channel_subs r') = {p \<in> subs_rel (channel_subs r). fst p \<noteq> sid} \<and>
    subs_rel (pattern_subs r') = {p \<in> subs_rel (pattern_subs r). fst p \<noteq> sid} \<and>
    hm_get (listener_stoppers r') = (hm_get (listener_stoppers r))(sid := None) \<and>
    (case hm_get (listener_stoppers r) sid of
       None \<Rightarrow> h = None \<and> stop_flags r' = stop_flags r \<and> stop_fired r' = stop_fired r
     | Some l \<Rightarrow> h = join_handle l \<and> stop_flags r' = stop_task l # stop_flags r \<and>
                 stop_fired r' = stop_task l # stop_fired r)"
  using assms
  by (auto simp: stop_subscriber_listener_def Let_def registry_ok_def forget_ok forget_rel fun_eq_iff
      split: option.splits)

lemma stop_one:
  assumes "registry_ok r"
  shows "registry_ok (snd (stop_subscriber_listener sid r))"
    and "listener_stoppers (snd (stop_subscriber_listener sid r)) = hm_remove sid (listener_stoppers r)"
    and "set (stop_flags r) \<subseteq> set (stop_flags (snd (stop_subscriber_listener sid r)))"
    and "hm_get (listener_stoppers r) sid = Some l \<Longrightarrow>
      stop_task l \<in> set (stop_flags (snd (stop_subscriber_listener sid r)))"
    and "subs_rel (channel_subs (snd (stop_subscriber_listener sid r))) = {p \<in> subs_rel (channel_subs r). fst p \<noteq> sid}"
    and "subs_rel (pattern_subs (snd (stop_subscriber_listener sid r))) = {p \<in> subs_rel (pattern_subs r). fst p \<noteq> sid}"
  using assms
  by (auto simp: stop_subscriber_listener_def Let_def registry_ok_def forget_ok forget_rel hm_remove_absent
      split: option.splits)

lemma stop_many:
  assumes "registry_ok r"
  defines "stop \<equiv> \<lambda>sid r. snd (stop_subscriber_listener sid r)"
  shows "registry_ok (fold stop sids r) \<and>
    (\<forall>sid. hm_get (listener_stoppers (fold stop sids r)) sid =
       (if sid \<in> set sids then None else hm_get (listener_stoppers r) sid)) \<and>
    set (stop_flags r) \<subseteq> set (stop_flags (fold stop sids r)) \<and>
    (\<forall>sid l. sid \<in> set sids \<longrightarrow> hm_get (listener_stoppers r) sid = Some l \<longrightarrow>
       stop_task l \<in> set (stop_flags (fold stop sids r))) \<and>
    subs_rel (channel_subs (fold stop sids r)) = {p \<in> subs_rel (channel_subs r). fst p \<notin> set sids} \<and>
    subs_rel (pattern_subs (fold stop sids r)) = {p \<in> subs_rel (pattern_subs r). fst p \<notin> set sids}"
  using assms(1)
proof (induction sids arbitrary: r)
  case Nil
  then show ?case by simp
next
  case (Cons sid sids)
  have ok: "registry_ok (stop sid r)"
    unfolding stop_def by (rule stop_one(1) [OF Cons.prems])
  have here: "listener_stoppers (stop sid r) = hm_remove sid (listener_stoppers r)"
    "set (stop_flags r) \<subseteq> set (stop_flags (stop sid r))"
    "subs_rel (channel_subs (stop sid r)) = {p \<in> subs_rel (channel_subs r). fst p \<noteq> sid}"
    "subs_rel (pattern_subs (stop sid r)) = {p \<in> subs_rel (pattern_subs r). fst p \<noteq> sid}"
    unfolding stop_def using Cons.prems by (rule stop_one)+
  have flag: "hm_get (listener_stoppers r) sid = Some l \<Longrightarrow> stop_task l \<in> set (stop_flags (stop sid r))" for l
    unfolding stop_def by (rule stop_one(4) [OF Cons.prems])
  note IH = Cons.IH [OF ok]
  have flags: "stop_task l \<in> set (stop_flags (fold stop (sid # sids) r))"
    if "j \<in> set (sid # sids)" "hm_get (listener_stoppers r) j = Some l" for j l
  proof (cases "j = sid")
    case True
    then show ?thesis using flag that(2) IH by auto
  next
    case False
    then have "hm_get (listener_stoppers (stop sid r)) j = Some l"
      using that(2) by (simp add: here)
    with IH that(1) False show ?thesis by auto
  qed
  have stoppers: "hm_get (listener_stoppers (fold stop (sid # sids) r)) j =
      (if j \<in> set (sid # sids) then None else hm_get (listener_stoppers r) j)" for j
    using IH by (simp add: here)
  have rels: "subs_rel (channel_subs (fold stop (sid # sids) r)) = {p \<in> subs_rel (channel_subs r). fst p \<notin> set (sid # sids)}"
    "subs_rel (pattern_subs (fold stop (sid # sids) r)) = {p \<in> subs_rel (pattern_subs r). fst p \<notin> set (sid # sids)}"
    using IH by (auto simp: here)
  have "set (stop_flags r) \<subseteq> set (stop_flags (fold stop (sid # sids) r))"
    using IH here(2) by auto
  then show ?case
    using IH flags stoppers rels by auto
qed

text \<open>
  Shutdown stops every listener: none is registered afterwards, each one that was has its
  stop flag up, and exactly their subscriptions are gone.
\<close>

theorem stop_all_listeners_spec:
  assumes "registry_ok r"
  shows "registry_ok (stop_all_listeners r) \<and> listener_stoppers (stop_all_listeners r) = [] \<and>
    (\<forall>sid l. hm_get (listener_stoppers r) sid = Some l \<longrightarrow> stop_task l \<in> set (stop_flags (stop_all_listeners r))) \<and>
    subs_rel (channel_subs (stop_all_listeners r)) =
      {p \<in> subs_rel (channel_subs r). hm_get (listener_stoppers r) (fst p) = None} \<and>
    subs_rel (pattern_subs (stop_all_listeners r)) =
      {p \<in> subs_rel (pattern_subs r). hm_get (listener_stoppers r) (fst p) = None}"
proof -
  note many = stop_many [OF assms, of "map fst (listener_stoppers r)", folded stop_all_listeners_def]
  have keys: "sid \<in> set (map fst (listener_stoppers r)) \<longleftrightarrow> hm_get (listener_stoppers r) sid \<noteq> None" for sid
    by (simp add: hm_get_None_iff)
  have "hm_get (listener_stoppers (stop_all_listeners r)) sid = None" for sid
    using many keys [of sid] by (cases "hm_get (listener_stoppers r) sid") auto
  then have "listener_stoppers (stop_all_listeners r) = []"
    by (cases "listener_stoppers (stop_all_listeners r)") (force simp: hm_get_None_iff)+
  then show ?thesis
    using many keys by auto
qed

section \<open>Reachable registries\<close>

datatype pubsub_op =
    NewSubscriber
  | Subscribe u64 "bytes list"
  | Unsubscribe u64 "bytes list"
  | PSubscribe u64 "bytes list"
  | PUnsubscribe u64 "bytes list"
  | RegisterListener u64 nat
  | StopListener u64
  | StopAll

fun pubsub_exec :: "pubsub_op \<Rightarrow> registry \<Rightarrow> registry" where
  "pubsub_exec NewSubscriber r = snd (new_subscriber r)"
| "pubsub_exec (Subscribe sid ts) r = snd (subscribe sid ts r)"
| "pubsub_exec (Unsubscribe sid ts) r = snd (unsubscribe sid ts r)"
| "pubsub_exec (PSubscribe sid ts) r = snd (psubscribe sid ts r)"
| "pubsub_exec (PUnsubscribe sid ts) r = snd (punsubscribe sid ts r)"
| "pubsub_exec (RegisterListener sid task) r = register_listener_stopper sid task r"
| "pubsub_exec (StopListener sid) r = snd (stop_subscriber_listener sid r)"
| "pubsub_exec StopAll r = stop_all_listeners r"

inductive registry_reachable :: "registry \<Rightarrow> bool" where
  start: "registry_reachable new_registry"
| step: "registry_reachable r \<Longrightarrow> registry_reachable (pubsub_exec oper r)"

lemma registry_ok_exec:
  assumes "registry_ok r"
  shows "registry_ok (pubsub_exec oper r)"
proof (cases oper)
  case (Subscribe sid ts)
  with channels.subscribe_half [OF _ _ refl, of r sid ts] assms show ?thesis
    by (simp add: registry_ok_def subscribe_def each_channel channels.loop_frame)
next
  case (PSubscribe sid ts)
  with patterns.subscribe_half [OF _ _ refl, of r sid ts] assms show ?thesis
    by (simp add: registry_ok_def psubscribe_def each_pattern patterns.loop_frame)
next
  case (Unsubscribe sid ts)
  with channels.unsubscribe_half [OF _ _ refl, of r sid "topics_to_remove sid ts (channel_subs r)"] assms
  show ?thesis
    by (simp add: registry_ok_def unsubscribe_def each_channel channels.loop_frame Let_def split_beta)
next
  case (PUnsubscribe sid ts)
  with patterns.unsubscribe_half [OF _ _ refl, of r sid "topics_to_remove sid ts (pattern_subs r)"] assms
  show ?thesis
    by (simp add: registry_ok_def punsubscribe_def each_pattern patterns.loop_frame Let_def split_beta)
next
  case StopAll
  with stop_many [OF assms] show ?thesis by (simp add: stop_all_listeners_def)
qed (use assms in \<open>auto simp: new_subscriber_def register_listener_stopper_def registry_ok_def
       stop_subscriber_listener_def Let_def forget_ok split: option.splits\<close>)

text \<open>
  In every registry the operations can reach, the two directions of both kinds of
  subscription agree, and there is no entry without a subscription, so the registry does not
  grow with subscribers and channels that are gone.
\<close>

theorem registry_invariant:
  "registry_reachable r \<Longrightarrow>
     (\<forall>sid t. t \<in> set (or_default (snd (channel_subs r)) sid) \<longleftrightarrow> sid \<in> set (or_default (fst (channel_subs r)) t)) \<and>
     (\<forall>sid t. t \<in> set (or_default (snd (pattern_subs r)) sid) \<longleftrightarrow> sid \<in> set (or_default (fst (pattern_subs r)) t)) \<and>
     (\<forall>t. hm_get (fst (channel_subs r)) t \<noteq> Some [] \<and> hm_get (fst (pattern_subs r)) t \<noteq> Some []) \<and>
     (\<forall>sid. hm_get (snd (channel_subs r)) sid \<noteq> Some [] \<and> hm_get (snd (pattern_subs r)) sid \<noteq> Some [])"
proof -
  assume "registry_reachable r"
  then have "registry_ok r"
  proof induction
    case start
    then show ?case by (simp add: registry_ok_def new_registry_def)
  next
    case (step r oper)
    then show ?case by (simp add: registry_ok_exec)
  qed
  then show ?thesis
    by (simp add: registry_ok_def subs_ok_def subs_tidy_def subs_rel_iff)
qed

lemma sample_registry: "registry_reachable (snd (subscribe 7 [''news''] new_registry))"
  using registry_reachable.step [OF registry_reachable.start, of "Subscribe 7 [''news'']"] by simp

theorem registry_invariant_witness:
  "\<exists>r :: registry. hm_get (fst (channel_subs r)) ''news'' = Some [7] \<and> ''news'' \<in> set (or_default (snd (channel_subs r)) 7)"
proof -
  have "hm_get (fst (channel_subs (snd (subscribe 7 [''news''] new_registry)))) ''news'' = Some [7]"
    by (simp add: subscribe_def subscribe_one_def new_registry_def hs_insert_def Let_def)
  with registry_invariant [OF sample_registry] show ?thesis
    by (intro exI [of _ "snd (subscribe 7 [''news''] new_registry)"]) (simp add: or_default_def)
qed

text \<open>PUBSUB CHANNELS, NUMSUB and NUMPAT read the relation.\<close>

lemma pubsub_channels_spec:
  assumes "registry_ok r"
  shows "sorted (pubsub_channels pat r) \<and> distinct (pubsub_channels pat r) \<and>
    set (pubsub_channels pat r) =
      {ch. (\<exists>sid. (sid, ch) \<in> subs_rel (channel_subs r)) \<and> (\<forall>p. pat = Some p \<longrightarrow> glob_match p ch)}"
proof -
  have ok: "subs_ok (channel_subs r)" using assms by (simp add: registry_ok_def)
  have "ch \<in> set (map fst (fst (channel_subs r))) \<longleftrightarrow> (\<exists>sid. (sid, ch) \<in> subs_rel (channel_subs r))" for ch
  proof
    assume "ch \<in> set (map fst (fst (channel_subs r)))"
    then obtain s where "(ch, s) \<in> set (fst (channel_subs r))" by auto
    moreover from this obtain sid where "sid \<in> set s"
      using subs_entry(2) [OF ok] by (metis last_in_set)
    ultimately show "\<exists>sid. (sid, ch) \<in> subs_rel (channel_subs r)"
      using subs_rel_entries [OF ok] by blast
  next
    assume "\<exists>sid. (sid, ch) \<in> subs_rel (channel_subs r)"
    then show "ch \<in> set (map fst (fst (channel_subs r)))"
      using subs_rel_entries [OF ok] by force
  qed
  moreover have "distinct (map fst (fst (channel_subs r)))"
    using ok by (simp add: subs_ok_def hm_wf_def)
  ultimately show ?thesis
    by (cases pat) (auto simp: pubsub_channels_def)
qed

lemma pubsub_numsub_spec:
  "registry_ok r \<Longrightarrow>
   pubsub_numsub chs r = map (\<lambda>ch. (ch, int (card {sid. (sid, ch) \<in> subs_rel (channel_subs r)}))) chs"
  by (simp add: pubsub_numsub_def registry_ok_def channel_count)

lemma pubsub_numpat_spec:
  "registry_ok r \<Longrightarrow> pubsub_numpat r = int (card (subs_rel (pattern_subs r)))"
  using pattern_count [of "pattern_subs r" "\<lambda>_. True"]
  by (simp add: pubsub_numpat_def registry_ok_def filter_True case_prod_beta')

lemma sample_registry_ok: "registry_ok (snd (psubscribe 7 [''n*''] (register_listener_stopper 7 1 new_registry)))"
proof -
  have "registry_ok new_registry" by (simp add: registry_ok_def new_registry_def)
  from registry_ok_exec [OF registry_ok_exec [OF this, of "RegisterListener 7 1"], of "PSubscribe 7 [''n*'']"]
  show ?thesis by simp
qed

theorem unsubscribe_spec_witness:
  "topics_of 7 (pattern_subs (snd (punsubscribe 7 [] (snd (psubscribe 7 [''n*''] (register_listener_stopper 7 1 new_registry)))))) = {}"
proof -
  let ?r = "snd (psubscribe 7 [''n*''] (register_listener_stopper 7 1 new_registry))"
  have "subs_rel (pattern_subs (snd (punsubscribe 7 [] ?r))) = subs_rel (pattern_subs ?r) - {7} \<times> topics_of 7 (pattern_subs ?r)"
    using unsubscribe_spec [OF sample_registry_ok, of 7 "[]"] by (simp add: Let_def split_beta)
  then show ?thesis by (auto simp: topics_of_def)
qed

theorem stop_all_listeners_spec_witness:
  "listener_stoppers (stop_all_listeners (snd (psubscribe 7 [''n*''] (register_listener_stopper 7 1 new_registry)))) = []"
  using stop_all_listeners_spec [OF sample_registry_ok] by blast

end
