(* ===== verification/Store_State.thy ===== *)
theory Store_State
  imports Keyspace Pubsub
begin

text \<open>
  The whole store of \<^verbatim>\<open>src/src/store.rs\<close>: the keyspace, the script cache, the pub/sub
  registry, the two wake-up handles and the shutdown flag.  A wake-up handle is the number
  of times \<open>notify_waiters\<close> was called on it.
\<close>

section \<open>State\<close>

type_synonym scripts = "(string, string) hashmap"

record store =
  data :: keyspace
  scripts :: scripts
  pubsub :: registry
  stream_notify :: nat
  list_notify :: nat
  shutdown_flag :: bool

definition new_store :: store where
  "new_store =
     \<lparr>data = [], scripts = [], pubsub = new_registry, stream_notify = 0, list_notify = 0,
      shutdown_flag = False\<rparr>"

definition notify_streams :: "store \<Rightarrow> store" where
  "notify_streams st = st\<lparr>stream_notify := Suc (stream_notify st)\<rparr>"

definition notify_lists :: "store \<Rightarrow> store" where
  "notify_lists st = st\<lparr>list_notify := Suc (list_notify st)\<rparr>"

text \<open>Shutdown raises the flag before it wakes the waiters, so that they see it.\<close>

definition shutdown :: "store \<Rightarrow> store" where
  "shutdown st =
     (let st1 = notify_lists (notify_streams (st\<lparr>shutdown_flag := True\<rparr>))
      in st1\<lparr>pubsub := stop_all_listeners (pubsub st1)\<rparr>)"

definition is_shutdown :: "store \<Rightarrow> bool" where
  "is_shutdown st = shutdown_flag st"

section \<open>The script cache\<close>

text \<open>
  The digest is SHA-1 of the sha1 crate: a parameter.  What the cache promises needs no
  property of it but that equal scripts have equal digests.
\<close>

definition script_load :: "(string \<Rightarrow> string) \<Rightarrow> string \<Rightarrow> store \<Rightarrow> string \<times> store" where
  "script_load sha1_hex script st =
     (sha1_hex script, st\<lparr>scripts := hm_insert (sha1_hex script) script (scripts st)\<rparr>)"

definition script_exists :: "string list \<Rightarrow> store \<Rightarrow> bool list" where
  "script_exists shas st = map (hm_contains (scripts st)) shas"

text \<open>Every cached script is stored under its own digest.\<close>

definition scripts_ok :: "(string \<Rightarrow> string) \<Rightarrow> scripts \<Rightarrow> bool" where
  "scripts_ok sha1_hex m \<longleftrightarrow> hm_wf m \<and> (\<forall>sha script. hm_get m sha = Some script \<longrightarrow> sha = sha1_hex script)"

lemma scripts_ok_new [simp]: "scripts_ok sha1_hex []"
  by (simp add: scripts_ok_def)

lemma scripts_ok_load:
  "scripts_ok sha1_hex (scripts st) \<Longrightarrow> scripts_ok sha1_hex (scripts (snd (script_load sha1_hex script st)))"
  by (auto simp: scripts_ok_def script_load_def split: if_splits)

lemma script_load_then_exists:
  "script_exists [sha1_hex script] (snd (script_load sha1_hex script st)) = [True]"
  by (simp add: script_exists_def script_load_def hm_contains_def)

lemma shutdown_keeps [simp]:
  "data (shutdown st) = data st" "scripts (shutdown st) = scripts st" "is_shutdown (shutdown st)"
  by (simp_all add: shutdown_def Let_def notify_lists_def notify_streams_def is_shutdown_def)

lemma shutdown_wakes:
  "list_notify (shutdown st) = Suc (list_notify st)" "stream_notify (shutdown st) = Suc (stream_notify st)"
  by (simp_all add: shutdown_def Let_def notify_lists_def notify_streams_def)

end
