(* ===== verification/Persistence.thy ===== *)
theory Persistence
  imports Store_State
begin

text \<open>
  Saving and loading: the snapshot types of \<^verbatim>\<open>src/src/store.rs\<close> with the conversions
  \<open>from_store\<close> and \<open>into_runtime\<close>, and the file operations of
  \<^verbatim>\<open>src/src/persistence.rs\<close>.

  MessagePack is the rmp-serde crate: \<open>encode\<close> and \<open>decode\<close> are parameters, with the
  documented law that decoding what was encoded gives it back.
\<close>

section \<open>Snapshots\<close>

record persistable_sorted_set =
  p_members :: "(f64 \<times> bytes) list"

record persistable_consumer =
  p_pending :: "(stream_id \<times> u64) list"

record persistable_group =
  p_last_delivered_id :: stream_id
  p_consumers :: "(bytes \<times> persistable_consumer) list"

record persistable_stream =
  p_entries :: "(stream_id \<times> (bytes \<times> bytes) list) list"
  p_last_id :: stream_id
  p_groups :: "(bytes \<times> persistable_group) list"

datatype persistable_value =
    PString bytes
  | PHash "(bytes \<times> bytes) list"
  | PSet "bytes list"
  | PSortedSet persistable_sorted_set
  | PStream persistable_stream
  | PList "bytes list"

record persistable_entry =
  p_data :: persistable_value
  ttl_remaining_ms :: "u64 option"

record persistable_store =
  snap_entries :: "(bytes \<times> persistable_entry) list"
  snap_scripts :: "(string \<times> string) list"

section \<open>From the store to a snapshot\<close>

definition persist_consumer :: "consumer \<Rightarrow> persistable_consumer" where
  "persist_consumer c = \<lparr>p_pending = map (\<lambda>(i, pe). (i, delivery_count pe)) (pending c)\<rparr>"

definition persist_group :: "consumer_group \<Rightarrow> persistable_group" where
  "persist_group g =
     \<lparr>p_last_delivered_id = last_delivered_id g,
      p_consumers = map (\<lambda>(n, c). (n, persist_consumer c)) (consumers g)\<rparr>"

fun persist_value :: "value_data \<Rightarrow> persistable_value" where
  "persist_value (StringV b) = PString b"
| "persist_value (HashV m) = PHash m"
| "persist_value (SetV s) = PSet s"
| "persist_value (SortedSetV z) = PSortedSet \<lparr>p_members = map (\<lambda>(m, s). (s, m)) (by_member z)\<rparr>"
| "persist_value (StreamV s) =
     PStream \<lparr>p_entries = entries s, p_last_id = last_id s,
              p_groups = map (\<lambda>(n, g). (n, persist_group g)) (groups s)\<rparr>"
| "persist_value (ListV xs) = PList xs"

text \<open>The milliseconds that are left are cut to 64 bits (\<open>as u64\<close>).\<close>

definition ttl_left :: "instant \<Rightarrow> value_entry \<Rightarrow> u64 option" where
  "ttl_left now e =
     (case expires_at e of
        None \<Rightarrow> None
      | Some t \<Rightarrow> if t > now then Some (of_nat (as_millis (duration_since t now))) else None)"

definition persist_entry :: "instant \<Rightarrow> value_entry \<Rightarrow> persistable_entry" where
  "persist_entry now e = \<lparr>p_data = persist_value (vdata e), ttl_remaining_ms = ttl_left now e\<rparr>"

text \<open>
  \<open>now\<close> is read once, before the loop; \<open>is_expired\<close> reads the clock again (\<open>check\<close>).
\<close>

definition from_store :: "instant \<Rightarrow> instant \<Rightarrow> store \<Rightarrow> persistable_store" where
  "from_store now check st =
     \<lparr>snap_entries = map (\<lambda>(key, e). (key, persist_entry now e))
                       (filter (\<lambda>(key, e). \<not> is_expired check e) (data st)),
      snap_scripts = scripts st\<rparr>"

section \<open>From a snapshot to the store\<close>

definition restore_consumer :: "instant \<Rightarrow> persistable_consumer \<Rightarrow> consumer" where
  "restore_consumer now c =
     \<lparr>pending = hm_collect (map (\<lambda>(i, n). (i, \<lparr>delivery_time = now, delivery_count = n\<rparr>)) (p_pending c))\<rparr>"

definition restore_group :: "instant \<Rightarrow> persistable_group \<Rightarrow> consumer_group" where
  "restore_group now g =
     \<lparr>last_delivered_id = p_last_delivered_id g,
      consumers = hm_collect (map (\<lambda>(n, c). (n, restore_consumer now c)) (p_consumers g))\<rparr>"

definition restore_zset :: "persistable_sorted_set \<Rightarrow> sorted_set" where
  "restore_zset p =
     fold (\<lambda>(score, member) z.
             z\<lparr>by_score := bt_insert score_key (score, member) () (by_score z),
               by_member := hm_insert member score (by_member z)\<rparr>)
       (p_members p) new_sorted_set_value"

fun restore_value :: "instant \<Rightarrow> persistable_value \<Rightarrow> value_data" where
  "restore_value now (PString b) = StringV b"
| "restore_value now (PHash ps) = HashV (hm_collect ps)"
| "restore_value now (PSet ms) = SetV (hs_collect ms)"
| "restore_value now (PSortedSet p) = SortedSetV (restore_zset p)"
| "restore_value now (PStream p) =
     StreamV \<lparr>entries = bt_collect (\<lambda>k. k) (map (\<lambda>(i, fs). (i, hm_collect fs)) (p_entries p)),
              last_id = p_last_id p,
              groups = hm_collect (map (\<lambda>(n, g). (n, restore_group now g)) (p_groups p))\<rparr>"
| "restore_value now (PList xs) = ListV xs"

text \<open>
  Zero milliseconds left become no deadline; \<open>None\<close> is the panic of a deadline that the
  clock cannot express.
\<close>

definition restore_deadline :: "instant \<Rightarrow> u64 option \<Rightarrow> instant option option" where
  "restore_deadline now ttl =
     (case ttl of
        None \<Rightarrow> Some None
      | Some ms \<Rightarrow> if ms = 0 then Some None
                  else map_option Some (instant_checked_add now (from_millis (unat ms))))"

fun restore_entries :: "instant \<Rightarrow> (bytes \<times> persistable_entry) list \<Rightarrow> keyspace \<Rightarrow> keyspace option" where
  "restore_entries now [] ks = Some ks"
| "restore_entries now ((key, pe) # rest) ks =
     (case restore_deadline now (ttl_remaining_ms pe) of
        None \<Rightarrow> None
      | Some t \<Rightarrow>
          restore_entries now rest
            (hm_insert key \<lparr>vdata = restore_value now (p_data pe), expires_at = t\<rparr> ks))"

definition into_runtime :: "instant \<Rightarrow> persistable_store \<Rightarrow> (keyspace \<times> scripts) option" where
  "into_runtime now snap =
     map_option (\<lambda>ks. (ks, hm_collect (snap_scripts snap))) (restore_entries now (snap_entries snap) [])"

section \<open>The round trip of values\<close>

text \<open>What a restored value differs in: pending entries count their idle time from the load.\<close>

definition touch_group :: "instant \<Rightarrow> consumer_group \<Rightarrow> consumer_group" where
  "touch_group now g =
     g\<lparr>consumers := map (\<lambda>(n, c). (n, c\<lparr>pending := map (\<lambda>(i, pe). (i, pe\<lparr>delivery_time := now\<rparr>)) (pending c)\<rparr>))
                     (consumers g)\<rparr>"

fun touch_value :: "instant \<Rightarrow> value_data \<Rightarrow> value_data" where
  "touch_value now (StreamV s) = StreamV (s\<lparr>groups := map (\<lambda>(n, g). (n, touch_group now g)) (groups s)\<rparr>)"
| "touch_value now d = d"

lemma hm_insert_fresh: "k \<notin> fst ` set m \<Longrightarrow> hm_insert k v m = m @ [(k, v)]"
  by (induction m) (auto simp: hm_insert_def)

lemma hm_collect_id: "hm_wf m \<Longrightarrow> hm_collect m = m"
proof -
  have "distinct (map fst (m' @ m)) \<Longrightarrow> fold (\<lambda>(k, v) m. hm_insert k v m) m m' = m' @ m" for m'
  proof (induction m arbitrary: m')
    case Nil
    then show ?case by simp
  next
    case (Cons p m)
    obtain k v where p: "p = (k, v)" by (cases p)
    have "hm_insert k v m' = m' @ [p]"
      using Cons.prems by (simp add: p hm_insert_fresh)
    with Cons.IH [of "m' @ [p]"] Cons.prems show ?case by (simp add: p)
  qed
  from this [of "[]"] show "hm_wf m \<Longrightarrow> hm_collect m = m"
    by (simp add: hm_collect_def hm_wf_def)
qed

lemma restore_consumer_id:
  "consumer_wf c \<Longrightarrow> restore_consumer now (persist_consumer c) =
     c\<lparr>pending := map (\<lambda>(i, pe). (i, pe\<lparr>delivery_time := now\<rparr>)) (pending c)\<rparr>"
  by (cases c)
     (simp add: restore_consumer_def persist_consumer_def consumer_wf_def comp_def case_prod_beta'
       hm_collect_id hm_wf_def)

lemma restore_group_id: "group_wf g \<Longrightarrow> restore_group now (persist_group g) = touch_group now g"
proof -
  assume wf: "group_wf g"
  have m: "map (\<lambda>(n, c). (n, restore_consumer now c)) (p_consumers (persist_group g)) = consumers (touch_group now g)"
    using wf by (auto simp: persist_group_def touch_group_def group_wf_def restore_consumer_id)
  have "hm_wf (consumers (touch_group now g))"
    using wf by (simp add: touch_group_def group_wf_def)
  then have "consumers (restore_group now (persist_group g)) = consumers (touch_group now g)"
    by (simp only: restore_group_def m consumer_group.simps hm_collect_id)
  moreover have "last_delivered_id (restore_group now (persist_group g)) = last_delivered_id (touch_group now g)"
    by (simp add: restore_group_def persist_group_def touch_group_def)
  ultimately show ?thesis by simp
qed

lemma restore_zset_id:
  assumes "zs_wf z"
  shows "restore_zset \<lparr>p_members = map (\<lambda>(m, s). (s, m)) (by_member z)\<rparr> = z"
proof -
  let ?ps = "map (\<lambda>(m, s). (s, m)) (by_member z)"
  let ?f = "\<lambda>(score, member) z :: sorted_set. z\<lparr>by_score := bt_insert score_key (score, member) () (by_score z),
      by_member := hm_insert member score (by_member z)\<rparr>"
  have dist: "distinct (map snd ?ps)"
    using assms by (simp add: zs_wf_def hm_wf_def comp_def case_prod_beta')
  have step: "fold ?f ps y = fold (\<lambda>(score, member) z. snd (zs_insert member score z)) ps y \<and>
      by_member (fold ?f ps y) = by_member y @ map (\<lambda>(s, m). (m, s)) ps"
    if "distinct (map fst (by_member y) @ map snd ps)" for ps y
    using that
  proof (induction ps arbitrary: y)
    case Nil
    then show ?case by simp
  next
    case (Cons p ps)
    obtain s m where p: "p = (s, m)" by (cases p)
    have fresh: "m \<notin> fst ` set (by_member y)"
      using Cons.prems by (auto simp: p)
    define y1 where "y1 = ?f p y"
    have ins: "snd (zs_insert m s y) = y1"
      using fresh by (simp add: y1_def zs_insert_def p hm_get_None_iff [symmetric])
    have mem: "by_member y1 = by_member y @ [(m, s)]"
      using fresh by (simp add: y1_def p hm_insert_fresh)
    have f: "fold ?f (p # ps) y = fold ?f ps y1"
      by (simp add: y1_def)
    have "distinct (map fst (by_member y1) @ map snd ps)"
      using Cons.prems by (auto simp: mem p)
    note IH = Cons.IH [OF this]
    have "fold ?f (p # ps) y = fold (\<lambda>(score, member) z. snd (zs_insert member score z)) (p # ps) y"
      unfolding f using conjunct1 [OF IH] by (simp add: p ins)
    moreover have "by_member (fold ?f (p # ps) y) = by_member y @ map (\<lambda>(s, m). (m, s)) (p # ps)"
      unfolding f using conjunct2 [OF IH] by (simp add: p mem)
    ultimately show ?case by blast
  qed
  have "distinct (map fst (by_member new_sorted_set_value) @ map snd ?ps)"
    using dist by (simp add: new_sorted_set_value_def)
  note both = step [OF this]
  have eq: "restore_zset \<lparr>p_members = ?ps\<rparr> = zs_of_list ?ps"
    using conjunct1 [OF both] by (simp only: restore_zset_def zs_of_list_def persistable_sorted_set.simps)
  moreover have mem: "by_member (restore_zset \<lparr>p_members = ?ps\<rparr>) = by_member z"
    using conjunct2 [OF both]
    by (simp add: restore_zset_def new_sorted_set_value_def comp_def case_prod_beta')
  ultimately have wf: "zs_wf (restore_zset \<lparr>p_members = ?ps\<rparr>)"
    by (simp add: zs_of_list_wf)
  have list: "zs_list (restore_zset \<lparr>p_members = ?ps\<rparr>) = zs_list z"
    using mem by (intro zs_list_determined wf assms) (simp add: zs_score_def)
  have "by_score (restore_zset \<lparr>p_members = ?ps\<rparr>) = by_score z"
  proof -
    have "b = map (\<lambda>k. (k, ())) (map fst b)" for b :: "((f64 \<times> bytes) \<times> unit) list"
      by (induction b) auto
    then show ?thesis using list by (metis zs_list_def)
  qed
  with mem show ?thesis
    by (cases z; cases "restore_zset \<lparr>p_members = ?ps\<rparr>") simp
qed

text \<open>Restoring a saved value gives it back, up to the delivery times.\<close>

lemma restore_value_id: "value_wf d \<Longrightarrow> restore_value now (persist_value d) = touch_value now d"
proof (cases d)
  case (StreamV s)
  assume "value_wf d"
  then have wf: "stream_wf s" by (simp add: StreamV)
  let ?p = "\<lparr>p_entries = entries s, p_last_id = last_id s, p_groups = map (\<lambda>(n, g). (n, persist_group g)) (groups s)\<rparr>"
  have es: "map (\<lambda>(i, fs). (i, hm_collect fs)) (entries s) = entries s"
    using wf by (intro map_idI) (auto simp: stream_wf_def hm_collect_id)
  have gs: "map (\<lambda>(n, g). (n, restore_group now g)) (map (\<lambda>(n, g). (n, persist_group g)) (groups s)) =
      map (\<lambda>(n, g). (n, touch_group now g)) (groups s)"
    using wf by (auto simp: stream_wf_def restore_group_id)
  have "hm_wf (map (\<lambda>(n, g). (n, touch_group now g)) (groups s))"
    using wf by (simp add: stream_wf_def)
  moreover have "btree_wf (entries s)" using wf by (simp add: stream_wf_def)
  ultimately show ?thesis
    unfolding StreamV persist_value.simps restore_value.simps touch_value.simps persistable_stream.simps es gs
    by (simp add: bt_collect_id hm_collect_id)
next
  case (SortedSetV z)
  assume "value_wf d"
  then show ?thesis by (simp add: SortedSetV restore_zset_id)
qed (simp_all add: hm_collect_id hs_collect_set_distinct)

section \<open>The round trip of the store\<close>

definition restored :: "instant \<Rightarrow> instant \<Rightarrow> value_entry \<Rightarrow> value_entry" where
  "restored now later e =
     \<lparr>vdata = touch_value later (vdata e),
      expires_at = (case ttl_left now e of
                      None \<Rightarrow> None
                    | Some ms \<Rightarrow> if ms = 0 then None else Some (later + int (from_millis (unat ms))))\<rparr>"

text \<open>The load does not panic while the clock is below half of its range.\<close>

lemma restore_deadline_total:
  assumes "later < 2 ^ 62 * 10 ^ 9"
  shows "restore_deadline later ttl =
    Some (case ttl of None \<Rightarrow> None | Some ms \<Rightarrow> if ms = 0 then None else Some (later + int (from_millis (unat ms))))"
proof (cases ttl)
  case None
  then show ?thesis by (simp add: restore_deadline_def)
next
  case (Some ms)
  have "uint ms < 2 ^ 64"
    using uint_bounded [of ms] by simp
  then have "later + int (from_millis (unat ms)) < 2 ^ 63 * 10 ^ 9"
    using assms by (simp add: from_millis_def)
  with Some show ?thesis by (simp add: restore_deadline_def instant_checked_add_def)
qed

lemma restore_entries_fold:
  assumes "later < 2 ^ 62 * 10 ^ 9" and "\<And>k e. (k, e) \<in> set es \<Longrightarrow> value_wf (vdata e)"
  shows "restore_entries later (map (\<lambda>(k, e). (k, persist_entry now e)) es) ks =
    Some (fold (\<lambda>(k, e) ks. hm_insert k e ks) (map (\<lambda>(k, e). (k, restored now later e)) es) ks)"
  using assms(2)
proof (induction es arbitrary: ks)
  case Nil
  then show ?case by simp
next
  case (Cons p es)
  obtain k e where p: "p = (k, e)" by (cases p)
  have wf: "value_wf (vdata e)" using Cons.prems [of k e] by (simp add: p)
  have "restore_entries later (map (\<lambda>(k, e). (k, persist_entry now e)) es) ks' =
      Some (fold (\<lambda>(k, e) ks. hm_insert k e ks) (map (\<lambda>(k, e). (k, restored now later e)) es) ks')" for ks'
    using Cons.prems by (intro Cons.IH) auto
  then show ?case
    using wf by (simp add: p persist_entry_def restore_deadline_total [OF assms(1)] restore_value_id restored_def)
qed

lemma hm_get_filter:
  assumes "hm_wf m"
  shows "hm_get (filter (\<lambda>(k, v). P v) m) k = (case hm_get m k of Some v \<Rightarrow> if P v then Some v else None | None \<Rightarrow> None)"
  using assms
proof (induction m)
  case Nil
  then show ?case by simp
next
  case (Cons p m)
  obtain j v where p: "p = (j, v)" by (cases p)
  have "j \<notin> fst ` set m" "hm_wf m" using Cons.prems by (auto simp: hm_wf_def p)
  moreover from this have "hm_get m j = None" by (simp add: hm_get_None_iff)
  ultimately show ?case
    using Cons.IH by (auto simp: p hm_get_def split: option.splits)
qed

lemma touch_group_wf: "group_wf g \<Longrightarrow> group_wf (touch_group now g)"
  by (auto simp: group_wf_def touch_group_def consumer_wf_def)

lemma touch_value_wf: "value_wf d \<Longrightarrow> value_wf (touch_value now d)"
  by (cases d) (auto simp: stream_wf_def touch_group_wf)

lemma into_runtime_total:
  assumes "ks_wf (data st)" and "hm_wf (scripts st)" and "later < 2 ^ 62 * 10 ^ 9"
  shows "\<exists>ks'. into_runtime later (from_store now check st) = Some (ks', scripts st) \<and> ks_wf ks' \<and>
    (\<forall>key. hm_get ks' key = map_option (restored now later) (live check (data st) key))"
proof -
  let ?es = "filter (\<lambda>(k, e). \<not> is_expired check e) (data st)"
  let ?rs = "map (\<lambda>(k, e). (k, restored now later e)) ?es"
  have wf: "hm_wf (data st)" "\<And>k e. (k, e) \<in> set (data st) \<Longrightarrow> value_wf (vdata e)"
    using assms(1) by (auto simp: ks_wf_def ks_all_def hm.elems_iff)
  have dist: "hm_wf ?es"
    using wf(1) by (simp add: hm_wf_def distinct_map_filter)
  have "restore_entries later (map (\<lambda>(k, e). (k, persist_entry now e)) ?es) [] = Some (hm_collect ?rs)"
    using wf(2) by (subst restore_entries_fold [OF assms(3)]) (auto simp: hm_collect_def)
  then have run: "into_runtime later (from_store now check st) = Some (?rs, scripts st)"
    using dist assms(2) by (simp add: into_runtime_def from_store_def hm_collect_id)
  have es: "hm_get ?es key = live check (data st) key" for key
    by (simp add: live_def hm_get_filter [OF wf(1)] split: option.splits)
  have get: "hm_get ?rs key = map_option (restored now later) (live check (data st) key)" for key
    by (simp add: hm_get_map_values es)
  have "ks_wf ?rs"
    using wf(2) dist by (auto simp: ks_wf_def ks_all_def restored_def touch_value_wf hm_get_map_values es live_def
        hm.elems_iff [OF wf(1)] split: option.splits if_splits)
  with run get show ?thesis by blast
qed

lemma touch_value_kind: "touch_value now d = d \<or> (\<exists>s s'. d = StreamV s \<and> touch_value now d = StreamV s' \<and>
    entries s' = entries s \<and> last_id s' = last_id s)"
  by (cases d) auto

text \<open>The remaining time survives to the millisecond; less than one millisecond is lost.\<close>

lemma restored_deadline:
  assumes e: "\<not> is_expired check e" "now \<le> check" "expires_at e = Some t" "as_millis (nat (t - now)) < 2 ^ 64"
  shows "if t - now < 10 ^ 6 then expires_at (restored now later e) = None
    else (\<exists>t'. expires_at (restored now later e) = Some t' \<and> 0 \<le> (t - now) - (t' - later) \<and> (t - now) - (t' - later) < 10 ^ 6)"
proof -
  have now: "now < t" using e by (simp add: is_expired_def)
  let ?ms = "as_millis (nat (t - now))"
  have ttl: "ttl_left now e = Some (of_nat ?ms)"
    using e(3) now by (simp add: ttl_left_def duration_since_def)
  have un: "unat (of_nat ?ms :: u64) = ?ms"
    using e(4) by (simp add: unat_of_nat)
  have zero: "(of_nat ?ms :: u64) = 0 \<longleftrightarrow> ?ms = 0"
    using un by (metis unat_eq_zero)
  have ms: "int ?ms = (t - now) div 10 ^ 6"
    using now by (simp add: as_millis_def zdiv_int)
  have small: "?ms = 0 \<longleftrightarrow> t - now < 10 ^ 6"
    using ms now by (metis of_nat_eq_0_iff zdiv_eq_0_iff div_pos_pos_trivial less_imp_le diff_gt_0_iff_gt
        pos_imp_zdiv_pos_iff not_le zero_less_numeral zero_less_power less_irrefl)
  have cut: "int (from_millis ?ms) = (t - now) - (t - now) mod 10 ^ 6"
    by (simp add: from_millis_def ms minus_mod_eq_div_mult)
  have mods: "0 \<le> (t - now) mod 10 ^ 6" "(t - now) mod 10 ^ 6 < 10 ^ 6" by simp_all
  show ?thesis
  proof (cases "?ms = 0")
    case True
    then show ?thesis using small zero by (simp add: restored_def ttl)
  next
    case False
    then have "expires_at (restored now later e) = Some (later + int (from_millis ?ms))"
      using zero by (simp add: restored_def ttl un)
    with False small cut mods show ?thesis by auto
  qed
qed

text \<open>
  A snapshot restored later holds exactly the keys that were live when it was taken, each
  with its value; only pending entries restart their idle time.  A key without a deadline
  has none afterwards; a key with a deadline keeps its remaining time to the millisecond,
  except that a key with less than a millisecond left becomes one that never expires.  The
  script cache is the same.
\<close>

theorem save_load_spec:
  assumes "ks_wf (data st)" and "hm_wf (scripts st)" and "later < 2 ^ 62 * 10 ^ 9" and "now \<le> check"
  shows "\<exists>ks'. into_runtime later (from_store now check st) = Some (ks', scripts st) \<and> ks_wf ks' \<and>
    (\<forall>key. case live check (data st) key of
       None \<Rightarrow> hm_get ks' key = None
     | Some e \<Rightarrow> (\<exists>e'. hm_get ks' key = Some e' \<and> vdata e' = touch_value later (vdata e) \<and>
         (case expires_at e of
            None \<Rightarrow> expires_at e' = None
          | Some t \<Rightarrow>
              as_millis (nat (t - now)) < 2 ^ 64 \<longrightarrow>
              (if t - now < 10 ^ 6 then expires_at e' = None
               else (\<exists>t'. expires_at e' = Some t' \<and> 0 \<le> (t - now) - (t' - later) \<and> (t - now) - (t' - later) < 10 ^ 6)))))"
proof -
  obtain ks' where run: "into_runtime later (from_store now check st) = Some (ks', scripts st)" "ks_wf ks'"
    and get: "\<And>key. hm_get ks' key = map_option (restored now later) (live check (data st) key)"
    using into_runtime_total [OF assms(1-3)] by blast
  show ?thesis
  proof (intro exI [of _ ks'] conjI run allI)
    fix key
    show "case live check (data st) key of None \<Rightarrow> hm_get ks' key = None
     | Some e \<Rightarrow> (\<exists>e'. hm_get ks' key = Some e' \<and> vdata e' = touch_value later (vdata e) \<and>
         (case expires_at e of
            None \<Rightarrow> expires_at e' = None
          | Some t \<Rightarrow>
              as_millis (nat (t - now)) < 2 ^ 64 \<longrightarrow>
              (if t - now < 10 ^ 6 then expires_at e' = None
               else (\<exists>t'. expires_at e' = Some t' \<and> 0 \<le> (t - now) - (t' - later) \<and> (t - now) - (t' - later) < 10 ^ 6))))"
    proof (cases "live check (data st) key")
      case None
      then show ?thesis by (simp add: get)
    next
      case (Some e)
      have "hm_get ks' key = Some (restored now later e)" by (simp add: get Some)
      moreover have "vdata (restored now later e) = touch_value later (vdata e)" by (simp add: restored_def)
      moreover have "expires_at e = None \<Longrightarrow> expires_at (restored now later e) = None"
        by (simp add: restored_def ttl_left_def)
      ultimately show ?thesis
        using restored_deadline [OF live_not_expired [OF Some] assms(4)] unfolding Some by (cases "expires_at e") auto
    qed
  qed
qed

definition sample_store :: store where
  "sample_store = new_store\<lparr>data := [(''k'', \<lparr>vdata = StringV ''v'', expires_at = Some 500000\<rparr>)]\<rparr>"

lemma sample_store_wf: "ks_wf (data sample_store)" "hm_wf (scripts sample_store)"
  by (auto simp: sample_store_def new_store_def ks_wf_def ks_all_def hm_wf_def hm_get_def)

theorem save_load_spec_witness:
  "\<exists>ks'. into_runtime 9 (from_store 0 0 sample_store) = Some (ks', []) \<and>
     (\<exists>e'. hm_get ks' ''k'' = Some e' \<and> vdata e' = StringV ''v'' \<and> expires_at e' = None)"
proof -
  have live: "live 0 (data sample_store) ''k'' = Some \<lparr>vdata = StringV ''v'', expires_at = Some 500000\<rparr>"
    by (simp add: sample_store_def live_def hm_get_def is_expired_def)
  have "scripts sample_store = []" by (simp add: sample_store_def new_store_def)
  moreover obtain ks' where run: "into_runtime 9 (from_store 0 0 sample_store) = Some (ks', scripts sample_store)"
    and key: "\<exists>e'. hm_get ks' ''k'' = Some e' \<and> vdata e' = StringV ''v'' \<and> expires_at e' = None"
    using save_load_spec [OF sample_store_wf, of 9 0 0] live by (auto simp: as_millis_def dest!: spec [of _ "''k''"])
  ultimately show ?thesis by simp
qed

text \<open>
  C33. A key that has less than a millisecond left when it is saved is restored as a key that
  never expires, although it should have been gone when the file was loaded.
\<close>

theorem restored_key_never_expires:
  assumes "ks_wf (data st)" and "hm_wf (scripts st)" and "later < 2 ^ 62 * 10 ^ 9"
    and "hm_get (data st) key = Some e" and "expires_at e = Some t" and "now < t" and "t < now + 10 ^ 6"
  shows "\<exists>ks'. into_runtime later (from_store now now st) = Some (ks', scripts st) \<and>
    (\<forall>at. live at ks' key \<noteq> None)"
proof -
  obtain ks' where run: "into_runtime later (from_store now now st) = Some (ks', scripts st)"
    and get: "\<And>key. hm_get ks' key = map_option (restored now later) (live now (data st) key)"
    using into_runtime_total [OF assms(1-3)] by blast
  have live: "live now (data st) key = Some e"
    using assms(4-6) by (simp add: live_def is_expired_def)
  have "as_millis (nat (t - now)) = 0"
    using assms(6,7) by (simp add: as_millis_def)
  then have "expires_at (restored now later e) = None"
    using assms(5,6) by (simp add: restored_def ttl_left_def duration_since_def)
  moreover have "hm_get ks' key = Some (restored now later e)"
    by (simp only: get live option.map)
  ultimately have "live at ks' key \<noteq> None" for "at"
    by (simp add: live_def is_expired_def)
  with run show ?thesis by blast
qed

theorem restored_key_never_expires_witness:
  "\<exists>ks'. into_runtime 9 (from_store 0 0 sample_store) = Some (ks', scripts sample_store) \<and>
     (\<forall>at. live at ks' ''k'' \<noteq> None)"
  by (rule restored_key_never_expires [OF sample_store_wf, where e = "\<lparr>vdata = StringV ''v'', expires_at = Some 500000\<rparr>" and t = 500000])
     (simp_all add: sample_store_def hm_get_def)

section \<open>Files\<close>

text \<open>
  A file has its content and whether the content has reached the disk.  A crash keeps a
  synced file as it is; of any other file it leaves an arbitrary content, or nothing.
\<close>

record disk_file =
  content :: bytes
  synced :: bool

type_synonym file_system = "string \<rightharpoonup> disk_file"

definition after_crash :: "file_system \<Rightarrow> file_system \<Rightarrow> bool" where
  "after_crash fs fs' \<longleftrightarrow>
     (\<forall>p. case fs p of
            None \<Rightarrow> fs' p = None
          | Some f \<Rightarrow> if synced f then fs' p = Some f else fs' p = None \<or> (\<exists>bs. fs' p = Some \<lparr>content = bs, synced = True\<rparr>))"

datatype persistence_error = IoErr string | SerializeErr string | DeserializeErr string

datatype save_pc =
    CreateTmp | WriteTmp | SyncTmp | RenameTmp | RemoveTmp persistence_error
  | Finished "persistence_error + unit"

definition tmp_path :: "string \<Rightarrow> string" where
  "tmp_path path = path @ ''.tmp''"

text \<open>
  The file operations of \<open>save_to_path\<close>, each of which may fail; a failed write leaves a
  part of the content.
\<close>

inductive save_step :: "string \<Rightarrow> bytes \<Rightarrow> save_pc \<times> file_system \<Rightarrow> save_pc \<times> file_system \<Rightarrow> bool"
  for path :: string and serialized :: bytes where
  create_ok: "save_step path serialized (CreateTmp, fs) (WriteTmp, fs(tmp_path path \<mapsto> \<lparr>content = [], synced = False\<rparr>))"
| create_err: "save_step path serialized (CreateTmp, fs) (RemoveTmp (IoErr e), fs)"
| write_ok: "save_step path serialized (WriteTmp, fs) (SyncTmp, fs(tmp_path path \<mapsto> \<lparr>content = serialized, synced = False\<rparr>))"
| write_err: "save_step path serialized (WriteTmp, fs)
     (RemoveTmp (IoErr e), fs(tmp_path path \<mapsto> \<lparr>content = take n serialized, synced = False\<rparr>))"
| sync_ok: "fs (tmp_path path) = Some f \<Longrightarrow>
     save_step path serialized (SyncTmp, fs) (RenameTmp, fs(tmp_path path \<mapsto> f\<lparr>synced := True\<rparr>))"
| sync_err: "save_step path serialized (SyncTmp, fs) (RemoveTmp (IoErr e), fs)"
| rename_ok: "fs (tmp_path path) = Some f \<Longrightarrow>
     save_step path serialized (RenameTmp, fs) (Finished (Inr ()), fs(tmp_path path := None, path \<mapsto> f))"
| rename_err: "save_step path serialized (RenameTmp, fs) (RemoveTmp (IoErr e), fs)"
| remove_ok: "save_step path serialized (RemoveTmp e, fs) (Finished (Inl e), fs(tmp_path path := None))"
| remove_err: "save_step path serialized (RemoveTmp e, fs) (Finished (Inl e), fs)"

inductive_cases finished_step: "save_step path serialized (Finished r, fs) c"
inductive_cases create_step: "save_step path serialized (CreateTmp, fs) c"
inductive_cases remove_step: "save_step path serialized (RemoveTmp e, fs) c"

text \<open>Where a save starts: serialization fails before any file is touched.\<close>

definition save_to_path :: "(persistable_store \<Rightarrow> string + bytes) \<Rightarrow> instant \<Rightarrow> instant \<Rightarrow> store \<Rightarrow> file_system \<Rightarrow>
    bytes \<times> save_pc \<times> file_system" where
  "save_to_path encode now check st fs =
     (case encode (from_store now check st) of
        Inl e \<Rightarrow> ([], Finished (Inl (SerializeErr e)), fs)
      | Inr bs \<Rightarrow> (bs, CreateTmp, fs))"

text \<open>Reading fails with an error of its own (\<open>read_error\<close>) or gives the content.\<close>

definition load_from_path :: "(bytes \<Rightarrow> string + persistable_store) \<Rightarrow> string option \<Rightarrow> string \<Rightarrow> file_system \<Rightarrow>
    persistence_error + persistable_store option" where
  "load_from_path decode read_error path fs =
     (case fs path of
        None \<Rightarrow> Inr None
      | Some f \<Rightarrow>
          (case read_error of
             Some e \<Rightarrow> Inl (IoErr e)
           | None \<Rightarrow>
               (case decode (content f) of
                  Inl e \<Rightarrow> Inl (DeserializeErr e)
                | Inr snap \<Rightarrow> Inr (Some snap))))"

text \<open>Loading replaces the keyspace and the scripts, or changes nothing; \<open>None\<close> is the panic.\<close>

definition load_into :: "(bytes \<Rightarrow> string + persistable_store) \<Rightarrow> string option \<Rightarrow> string \<Rightarrow> file_system \<Rightarrow> instant \<Rightarrow>
    store \<Rightarrow> ((persistence_error + bool) \<times> store) option" where
  "load_into decode read_error path fs now st =
     (case load_from_path decode read_error path fs of
        Inl e \<Rightarrow> Some (Inl e, st)
      | Inr None \<Rightarrow> Some (Inr False, st)
      | Inr (Some snap) \<Rightarrow>
          map_option (\<lambda>(ks, sc). (Inr True, st\<lparr>data := ks, scripts := sc\<rparr>)) (into_runtime now snap))"

section \<open>Saving is crash-safe\<close>

lemma tmp_path_neq [simp]: "tmp_path path \<noteq> path" "path \<noteq> tmp_path path"
  by (simp_all add: tmp_path_def)

text \<open>
  The invariant: the target has its old file until the rename and the complete new one
  afterwards, and what the rename moves is complete and synced.
\<close>

definition save_inv :: "string \<Rightarrow> bytes \<Rightarrow> file_system \<Rightarrow> save_pc \<times> file_system \<Rightarrow> bool" where
  "save_inv path serialized fs0 c \<longleftrightarrow>
     (case c of (pc, fs) \<Rightarrow>
        (\<forall>p. p \<noteq> path \<longrightarrow> p \<noteq> tmp_path path \<longrightarrow> fs p = fs0 p) \<and>
        (case pc of
           SyncTmp \<Rightarrow> fs (tmp_path path) = Some \<lparr>content = serialized, synced = False\<rparr> \<and> fs path = fs0 path
         | RenameTmp \<Rightarrow> fs (tmp_path path) = Some \<lparr>content = serialized, synced = True\<rparr> \<and> fs path = fs0 path
         | Finished (Inr _) \<Rightarrow> fs path = Some \<lparr>content = serialized, synced = True\<rparr> \<and> fs (tmp_path path) = None
         | _ \<Rightarrow> fs path = fs0 path))"

lemma save_inv_step:
  "save_step path serialized c c' \<Longrightarrow> save_inv path serialized fs0 c \<Longrightarrow> save_inv path serialized fs0 c'"
  by (induction rule: save_step.induct) (auto simp: save_inv_def)

lemma save_inv_reach:
  "(save_step path serialized)\<^sup>*\<^sup>* (CreateTmp, fs0) c \<Longrightarrow> save_inv path serialized fs0 c"
  by (induction rule: rtranclp_induct) (auto intro: save_inv_step, simp add: save_inv_def)

text \<open>
  C31. Saving is crash-safe: at whatever point the process or the machine stops, the target
  file is afterwards either the one that was there or the complete new snapshot, no other
  file but the temporary one has changed, and after a successful save the target is the new
  snapshot and the temporary file is gone.
\<close>

theorem save_crash_safe:
  assumes "encode (from_store now check st) = Inr bs"
    and "\<forall>p f. fs0 p = Some f \<longrightarrow> synced f"
    and "(save_step path bs)\<^sup>*\<^sup>* (snd (save_to_path encode now check st fs0)) (pc, fs)"
    and "after_crash fs fs'"
  shows "(fs' path = fs0 path \<or> fs' path = Some \<lparr>content = bs, synced = True\<rparr>) \<and>
    (\<forall>p. p \<noteq> path \<longrightarrow> p \<noteq> tmp_path path \<longrightarrow> fs' p = fs0 p) \<and>
    (pc = Finished (Inr ()) \<longrightarrow>
       fs' path = Some \<lparr>content = bs, synced = True\<rparr> \<and> fs' (tmp_path path) = None)"
proof -
  have inv: "save_inv path bs fs0 (pc, fs)"
    using assms(1,3) by (intro save_inv_reach) (simp add: save_to_path_def)
  have kept: "fs' p = fs p" if "\<forall>f. fs p = Some f \<longrightarrow> synced f" for p
    using assms(4) that by (auto simp: after_crash_def split: option.splits dest!: spec [of _ p])
  have "fs path = fs0 path \<or> fs path = Some \<lparr>content = bs, synced = True\<rparr>"
    using inv by (cases pc) (auto simp: save_inv_def split: sum.splits)
  then have target: "fs' path = fs path"
    using assms(2) by (intro kept) auto
  have others: "fs' p = fs0 p" if "p \<noteq> path" "p \<noteq> tmp_path path" for p
    using inv that kept [of p] assms(2) by (auto simp: save_inv_def)
  have "fs (tmp_path path) = None \<Longrightarrow> fs' (tmp_path path) = None"
    using kept [of "tmp_path path"] by simp
  then have "pc = Finished (Inr ()) \<Longrightarrow> fs' path = Some \<lparr>content = bs, synced = True\<rparr> \<and> fs' (tmp_path path) = None"
    using inv target by (auto simp: save_inv_def)
  then show ?thesis
    using target others \<open>fs path = fs0 path \<or> _\<close> by auto
qed

lemma sample_run:
  "(save_step ''db'' ''x'')\<^sup>*\<^sup>* (CreateTmp, Map.empty) (Finished (Inr ()), [''db'' \<mapsto> \<lparr>content = ''x'', synced = True\<rparr>])"
proof -
  let ?t = "tmp_path ''db''"
  have "save_step ''db'' ''x'' (CreateTmp, Map.empty) (WriteTmp, [?t \<mapsto> \<lparr>content = [], synced = False\<rparr>])"
    by (rule create_ok)
  moreover have "save_step ''db'' ''x'' (WriteTmp, [?t \<mapsto> \<lparr>content = [], synced = False\<rparr>])
      (SyncTmp, [?t \<mapsto> \<lparr>content = ''x'', synced = False\<rparr>])"
    using write_ok [of "''db''" "''x''" "[?t \<mapsto> \<lparr>content = [], synced = False\<rparr>]"] by simp
  moreover have "save_step ''db'' ''x'' (SyncTmp, [?t \<mapsto> \<lparr>content = ''x'', synced = False\<rparr>])
      (RenameTmp, [?t \<mapsto> \<lparr>content = ''x'', synced = True\<rparr>])"
    using sync_ok [of "[?t \<mapsto> \<lparr>content = ''x'', synced = False\<rparr>]" "''db''" "\<lparr>content = ''x'', synced = False\<rparr>" "''x''"] by simp
  moreover have "save_step ''db'' ''x'' (RenameTmp, [?t \<mapsto> \<lparr>content = ''x'', synced = True\<rparr>])
      (Finished (Inr ()), [''db'' \<mapsto> \<lparr>content = ''x'', synced = True\<rparr>])"
    using rename_ok [of "[?t \<mapsto> \<lparr>content = ''x'', synced = True\<rparr>]" "''db''" "\<lparr>content = ''x'', synced = True\<rparr>" "''x''"]
    by simp
  ultimately show ?thesis
    by (meson rtranclp.rtrancl_into_rtrancl rtranclp.rtrancl_refl)
qed

theorem save_crash_safe_witness:
  "\<exists>fs. (save_step ''db'' ''x'')\<^sup>*\<^sup>* (CreateTmp, Map.empty) (Finished (Inr ()), fs) \<and>
     fs ''db'' = Some \<lparr>content = ''x'', synced = True\<rparr> \<and> fs (tmp_path ''db'') = None"
proof -
  let ?fs = "[''db'' \<mapsto> \<lparr>content = ''x'', synced = True\<rparr>]"
  have run: "(save_step ''db'' ''x'')\<^sup>*\<^sup>* (snd (save_to_path (\<lambda>_. Inr ''x'') 0 0 sample_store Map.empty)) (Finished (Inr ()), ?fs)"
    using sample_run by (simp add: save_to_path_def)
  have "after_crash ?fs ?fs" by (simp add: after_crash_def)
  from save_crash_safe [OF _ _ run this] sample_run show ?thesis by blast
qed

fun save_rank :: "save_pc \<Rightarrow> nat" where
  "save_rank CreateTmp = 5"
| "save_rank WriteTmp = 4"
| "save_rank SyncTmp = 3"
| "save_rank RenameTmp = 2"
| "save_rank (RemoveTmp e) = 1"
| "save_rank (Finished r) = 0"

lemma save_rank_step: "save_step path bs c c' \<Longrightarrow> save_rank (fst c') < save_rank (fst c)"
  by (induction rule: save_step.induct) auto

lemma save_progress:
  assumes "save_inv path bs fs0 (pc, fs)" and "\<And>r. pc \<noteq> Finished r"
  shows "\<exists>c. save_step path bs (pc, fs) c"
proof (cases pc)
  case SyncTmp
  with assms(1) show ?thesis by (auto simp: save_inv_def intro: sync_ok)
next
  case RenameTmp
  with assms(1) show ?thesis by (auto simp: save_inv_def intro: rename_err)
qed (use assms(2) in \<open>auto intro: create_ok write_ok remove_ok\<close>)

text \<open>
  C32. Every save ends, with success or with an error, after at most five file operations: a
  run of more steps does not exist, and a run that cannot go on has finished.
\<close>

theorem save_terminates:
  "(save_step path bs ^^ n) (CreateTmp, fs0) (pc, fs) \<Longrightarrow>
     n \<le> 5 \<and> ((\<nexists>c. save_step path bs (pc, fs) c) \<longleftrightarrow> (\<exists>r. pc = Finished r))"
proof -
  assume run: "(save_step path bs ^^ n) (CreateTmp, fs0) (pc, fs)"
  have "(save_step path bs ^^ n) c c' \<Longrightarrow> n + save_rank (fst c') \<le> save_rank (fst c)" for n c c'
    by (induction n arbitrary: c') (fastforce dest: save_rank_step)+
  from this [OF run] have "n \<le> 5" by simp
  moreover have "save_inv path bs fs0 (pc, fs)"
    using relpowp_imp_rtranclp [OF run] by (rule save_inv_reach)
  then have "(\<nexists>c. save_step path bs (pc, fs) c) \<longleftrightarrow> (\<exists>r. pc = Finished r)"
    by (metis save_progress finished_step)
  ultimately show ?thesis by blast
qed

theorem save_terminates_witness:
  "(\<nexists>c. save_step ''db'' ''x'' (Finished (Inl (IoErr ''e'')), Map.empty) c)"
proof -
  have "save_step ''db'' ''x'' (CreateTmp, Map.empty) (RemoveTmp (IoErr ''e''), Map.empty)"
    "save_step ''db'' ''x'' (RemoveTmp (IoErr ''e''), Map.empty) (Finished (Inl (IoErr ''e'')), Map.empty)"
    by (rule create_err, rule remove_err)
  then have "(save_step ''db'' ''x'' ^^ 2) (CreateTmp, Map.empty) (Finished (Inl (IoErr ''e'')), Map.empty)"
    by (auto simp: numeral_2_eq_2)
  from save_terminates [OF this] show ?thesis by blast
qed

text \<open>
  An entry that comes back: its value, with the idle time of pending entries starting anew, and
  its remaining time to the millisecond, of which less than one is lost for ever.
\<close>

definition brought_back :: "instant \<Rightarrow> instant \<Rightarrow> value_entry \<Rightarrow> value_entry \<Rightarrow> bool" where
  "brought_back now later e e' \<longleftrightarrow>
     vdata e' = touch_value later (vdata e) \<and>
     (case expires_at e of
        None \<Rightarrow> expires_at e' = None
      | Some t \<Rightarrow>
          as_millis (nat (t - now)) < 2 ^ 64 \<longrightarrow>
          (if t - now < 10 ^ 6 then expires_at e' = None
           else (\<exists>t'. expires_at e' = Some t' \<and> 0 \<le> (t - now) - (t' - later) \<and> (t - now) - (t' - later) < 10 ^ 6)))"



end
