(* ===== verification/Rust_Floats.thy ===== *)
theory Rust_Floats
  imports Store_Types
begin

text \<open>
  What the code asks of the standard library about text and floating-point numbers: Unicode
  upper case (as far as it decides equality with ASCII names), \<open>trim\<close>, \<open>str::parse::<f64>\<close>,
  the cast of an \<open>f64\<close> to an \<open>i64\<close>, and the scores and score bounds of
  \<^verbatim>\<open>src/src/scripting.rs\<close>.

  Printing a number that is not integral (\<open>format!("{}", score)\<close>, the shortest decimal that
  parses back) is a parameter \<open>disp\<close> of the definitions that print one.
\<close>

section \<open>Upper case and white space\<close>

text \<open>
  The characters outside ASCII whose upper case is made of ASCII letters: dotless i, long s,
  sharp s and the Latin ligatures.  Every other such character becomes something that is not
  ASCII; it is left as it is, which no comparison with an ASCII name can see.
\<close>

definition upper_specials :: "(bytes \<times> string) list" where
  "upper_specials =
     [(map char_of [0xC4, 0xB1 :: nat], ''I''), (map char_of [0xC5, 0xBF :: nat], ''S''),
      (map char_of [0xC3, 0x9F :: nat], ''SS''), (map char_of [0xEF, 0xAC, 0x80 :: nat], ''FF''),
      (map char_of [0xEF, 0xAC, 0x81 :: nat], ''FI''), (map char_of [0xEF, 0xAC, 0x82 :: nat], ''FL''),
      (map char_of [0xEF, 0xAC, 0x83 :: nat], ''FFI''), (map char_of [0xEF, 0xAC, 0x84 :: nat], ''FFL''),
      (map char_of [0xEF, 0xAC, 0x85 :: nat], ''ST''), (map char_of [0xEF, 0xAC, 0x86 :: nat], ''ST'')]"

fun to_uppercase :: "string \<Rightarrow> string" where
  "to_uppercase [] = []"
| "to_uppercase (c # cs) =
     (case find (\<lambda>(w, u). take (length w) (c # cs) = w) upper_specials of
        Some (w, u) \<Rightarrow> u @ to_uppercase (drop (length w - 1) cs)
      | None \<Rightarrow> ascii_upper c # to_uppercase cs)"

lemma specials_non_ascii: "(w, u) \<in> set upper_specials \<Longrightarrow> w \<noteq> [] \<and> 128 \<le> code (hd w)"
  by (simp only: upper_specials_def set_simps insert_iff empty_iff prod.inject list.map)
     (elim disjE conjE FalseE; simp)

lemma ascii_no_special:
  assumes "code c < 128"
  shows "find (\<lambda>(w, u). take (length w) (c # cs) = w) upper_specials = None"
proof -
  have "take (length w) (c # cs) \<noteq> w" if "(w, u) \<in> set upper_specials" for w u
    using specials_non_ascii [OF that] assms by (cases w) auto
  then show ?thesis by (auto simp: find_None_iff)
qed

lemma to_uppercase_ascii: "\<forall>c \<in> set s. code c < 128 \<Longrightarrow> to_uppercase s = to_ascii_uppercase s"
proof (induction s)
  case Nil
  then show ?case by (simp add: to_ascii_uppercase_def)
next
  case (Cons c cs)
  then have "find (\<lambda>(w, u). take (length w) (c # cs) = w) upper_specials = None"
    by (intro ascii_no_special) simp
  with Cons show ?case by (simp only: to_uppercase.simps option.case) (simp add: to_ascii_uppercase_def)
qed

text \<open>The white space of \<open>str::trim\<close>, as UTF-8.\<close>

definition white_space :: "bytes list" where
  "white_space =
     map (\<lambda>n. [char_of n]) [9, 10, 11, 12, 13, 32 :: nat] @
     map (map char_of) ([[0xC2, 0x85], [0xC2, 0xA0], [0xE1, 0x9A, 0x80], [0xE2, 0x80, 0xA8], [0xE2, 0x80, 0xA9],
                         [0xE2, 0x80, 0xAF], [0xE2, 0x81, 0x9F], [0xE3, 0x80, 0x80]] @
                        map (\<lambda>n. [0xE2, 0x80, n]) [0x80 ..< 0x8B :: nat])"

fun strip_prefixes :: "string list \<Rightarrow> string \<Rightarrow> string" where
  "strip_prefixes ws [] = []"
| "strip_prefixes ws (c # cs) =
     (case find (\<lambda>w. w \<noteq> [] \<and> take (length w) (c # cs) = w) ws of
        Some w \<Rightarrow> strip_prefixes ws (drop (length w - 1) cs)
      | None \<Rightarrow> c # cs)"

definition trim :: "string \<Rightarrow> string" where
  "trim s =
     rev (strip_prefixes (map rev white_space) (rev (strip_prefixes white_space s)))"

section \<open>Binary64\<close>

text \<open>The significand and the exponent: the magnitude is \<open>m * 2 ^ e\<close>.\<close>

definition f64_parts :: "f64 \<Rightarrow> nat \<times> int" where
  "f64_parts x =
     (let mag = nat (f64_mag x); e = mag div 2 ^ 52; frac = mag mod 2 ^ 52
      in if e = 0 then (frac, - 1074) else (2 ^ 52 + frac, int e - 1075))"

definition f64_trunc :: "f64 \<Rightarrow> int" where
  "f64_trunc x =
     (case f64_parts x of (m, e) \<Rightarrow>
        (let n = int (if e \<ge> 0 then m * 2 ^ nat e else m div 2 ^ nat (- e))
         in if f64_neg x then - n else n))"

text \<open>\<open>x as i64\<close>: towards zero, saturating, and 0 for a NaN.\<close>

definition f64_as_i64 :: "f64 \<Rightarrow> i64" where
  "f64_as_i64 x = (if f64_nan x then 0 else max i64_MIN (min i64_MAX (f64_trunc x)))"

definition f64_infinite :: "f64 \<Rightarrow> bool" where
  "f64_infinite x \<longleftrightarrow> f64_mag x = 0x7FF0000000000000"

text \<open>\<open>x.fract() == 0.0\<close>, which is false for infinities and NaNs.\<close>

definition f64_integral :: "f64 \<Rightarrow> bool" where
  "f64_integral x \<longleftrightarrow>
     f64_mag x < 0x7FF0000000000000 \<and>
     (case f64_parts x of (m, e) \<Rightarrow> e \<ge> 0 \<or> m mod 2 ^ nat (- e) = 0)"

text \<open>The nearest binary64 of a positive ratio, ties to even; too large a ratio is infinite.\<close>

fun bit_len :: "nat \<Rightarrow> nat" where
  "bit_len n = (if n = 0 then 0 else Suc (bit_len (n div 2)))"

declare bit_len.simps [simp del]

definition log2_ratio :: "nat \<Rightarrow> nat \<Rightarrow> int" where
  "log2_ratio num den =
     (let e = int (bit_len num) - int (bit_len den)
      in if num * 2 ^ nat (- e) \<ge> den * 2 ^ nat e then e else e - 1)"

definition div_round_even :: "nat \<Rightarrow> nat \<Rightarrow> nat" where
  "div_round_even a b =
     (let q = a div b; r = a mod b in if 2 * r > b \<or> (2 * r = b \<and> odd q) then q + 1 else q)"

definition f64_of_ratio :: "nat \<Rightarrow> nat \<Rightarrow> nat" where
  "f64_of_ratio num den =
     (if num = 0 then 0
      else
        let e = max (log2_ratio num den) (- 1022); q = e - 52;
            m = div_round_even (num * 2 ^ nat (- q)) (den * 2 ^ nat q)
        in min (nat (e + 1022) * 2 ^ 52 + m) 0x7FF0000000000000)"

definition signed_f64 :: "bool \<Rightarrow> nat \<Rightarrow> f64" where
  "signed_f64 neg mag = F64 (of_nat (if neg then 2 ^ 63 + mag else mag))"

text \<open>
  \<open>str::parse::<f64>\<close>: an optional sign, then decimal digits with an optional point and
  an optional exponent, or \<open>inf\<close>, \<open>infinity\<close> or \<open>nan\<close> in any case.
\<close>

fun take_digits :: "nat \<Rightarrow> nat \<Rightarrow> string \<Rightarrow> nat \<times> nat \<times> string" where
  "take_digits acc n [] = (acc, n, [])"
| "take_digits acc n (c # cs) =
     (case digit_val c of None \<Rightarrow> (acc, n, c # cs) | Some d \<Rightarrow> take_digits (10 * acc + d) (Suc n) cs)"

definition parse_exponent :: "string \<Rightarrow> int option" where
  "parse_exponent s =
     (case s of
        [] \<Rightarrow> Some 0
      | c # cs \<Rightarrow>
          if c \<noteq> CHR ''e'' \<and> c \<noteq> CHR ''E'' then None
          else (case cs of
                  d # ds \<Rightarrow>
                    if d = CHR ''-'' then map_option (\<lambda>n. - int n) (parse_nat ds)
                    else if d = CHR ''+'' then map_option int (parse_nat ds)
                    else map_option int (parse_nat cs)
                | [] \<Rightarrow> None))"

definition parse_decimal :: "string \<Rightarrow> nat option" where
  "parse_decimal s =
     (let (a, n1, s1) = take_digits 0 0 s;
          (m, n2, s2) = (case s1 of c # cs \<Rightarrow> if c = CHR ''.'' then take_digits a 0 cs else (a, 0, s1) | [] \<Rightarrow> (a, 0, s1))
      in if n1 + n2 = 0 then None
         else map_option
                (\<lambda>e. let k = e - int n2 in f64_of_ratio (m * 10 ^ nat k) (10 ^ nat (- k)))
                (parse_exponent s2))"

definition parse_f64 :: "string \<Rightarrow> f64 option" where
  "parse_f64 s =
     (let (neg, body) =
        (case s of
           c # cs \<Rightarrow> if c = CHR ''-'' then (True, cs) else if c = CHR ''+'' then (False, cs) else (False, s)
         | [] \<Rightarrow> (False, []))
      in case parse_decimal body of
           Some mag \<Rightarrow> Some (signed_f64 neg mag)
         | None \<Rightarrow>
             if to_ascii_uppercase body = ''INF'' \<or> to_ascii_uppercase body = ''INFINITY''
             then Some (signed_f64 neg 0x7FF0000000000000)
             else if to_ascii_uppercase body = ''NAN'' then Some (signed_f64 neg 0x7FF8000000000000)
             else None)"

section \<open>Scores in Lua\<close>

text \<open>\<open>format_redis_score\<close>: infinities, integral scores through an \<open>i64\<close>, and the rest.\<close>

definition format_redis_score :: "(f64 \<Rightarrow> string) \<Rightarrow> f64 \<Rightarrow> string" where
  "format_redis_score disp score =
     (if f64_infinite score then (if f64_neg score then ''-inf'' else ''inf'')
      else if f64_integral score then i64_str (f64_as_i64 score)
      else disp score)"

datatype score_bound = InclusiveB f64 | ExclusiveB f64

fun bound_value :: "score_bound \<Rightarrow> f64" where
  "bound_value (InclusiveB v) = v"
| "bound_value (ExclusiveB v) = v"

fun bound_inclusive :: "score_bound \<Rightarrow> bool" where
  "bound_inclusive (InclusiveB v) = True"
| "bound_inclusive (ExclusiveB v) = False"

definition f64_zero :: f64 where
  "f64_zero = F64 0"

definition f64_or_zero :: "f64 option \<Rightarrow> f64" where
  "f64_or_zero x = (case x of Some v \<Rightarrow> v | None \<Rightarrow> f64_zero)"

definition parse_score_arg :: "bytes \<Rightarrow> score_bound" where
  "parse_score_arg arg =
     (let s = trim (utf8_lossy arg)
      in if s = ''-inf'' then InclusiveB f64_NEG_INFINITY
         else if s = ''+inf'' \<or> s = ''inf'' then InclusiveB f64_INFINITY
         else (case s of
                 c # cs \<Rightarrow> if c = CHR ''('' then ExclusiveB (f64_or_zero (parse_f64 cs))
                           else InclusiveB (f64_or_zero (parse_f64 s))
               | [] \<Rightarrow> InclusiveB (f64_or_zero (parse_f64 s))))"

end
