(* ===== verification/Lua_Commands.thy ===== *)
theory Lua_Commands
  imports Rust_Floats Key_Commands Hash_Ops Set_Ops Zset_Ops
begin

text \<open>
  The commands a Lua script can call, from \<open>dispatch_command_inner\<close> of
  \<^verbatim>\<open>src/src/scripting.rs\<close>: the replies, the parsing of arguments, and the commands on
  keys, hashes, sets and sorted sets.  Each command is one arm of the dispatcher.

  The arms work on the same map as the methods of the store and repeat their code, so they
  are written with the same access patterns (\<open>read_key\<close>, \<open>update_key\<close>,
  \<open>create_key\<close>).
\<close>

section \<open>Replies\<close>

datatype redis_value =
    RBulk bytes
  | RInt i64
  | RArray "redis_value list"
  | RNil
  | RError string
  | RStatus string

text \<open>
  What a dispatch gives: a reply (\<open>Ok\<close>, possibly an error value), a failure (\<open>Err\<close>), or
  a panic.
\<close>

datatype lua_outcome = Reply redis_value | Fail string | Panic

definition reply :: "('a \<Rightarrow> redis_value) \<Rightarrow> 'a result \<times> keyspace \<Rightarrow> lua_outcome \<times> keyspace" where
  "reply f p =
     (case p of (r, ks) \<Rightarrow>
        (case r of Inl e \<Rightarrow> (Reply (RError (store_error_text e)), ks) | Inr v \<Rightarrow> (Reply (f v), ks)))"

definition quoted :: "string \<Rightarrow> string" where
  "quoted s = [CHR 0x27] @ s @ [CHR 0x27]"

definition wrong_args :: "string \<Rightarrow> lua_outcome" where
  "wrong_args cmd = Reply (RError (''ERR wrong number of arguments for '' @ quoted cmd @ '' command''))"

definition not_integer :: string where
  "not_integer = ''ERR value is not an integer or out of range''"

definition syntax_error :: lua_outcome where
  "syntax_error = Reply (RError ''ERR syntax error'')"

definition bulk_or_nil :: "bytes option \<Rightarrow> redis_value" where
  "bulk_or_nil r = (case r of Some v \<Rightarrow> RBulk v | None \<Rightarrow> RNil)"

definition bulks :: "bytes list \<Rightarrow> redis_value" where
  "bulks xs = RArray (map RBulk xs)"

definition flag_reply :: "bool \<Rightarrow> redis_value" where
  "flag_reply b = RInt (if b then 1 else 0)"

text \<open>Field and value in turn, as the wire format has a hash.\<close>

definition flat_pairs :: "(bytes, bytes) hashmap \<Rightarrow> redis_value" where
  "flat_pairs m = RArray (concat (map (\<lambda>(k, v). [RBulk k, RBulk v]) m))"

definition ok_status :: redis_value where
  "ok_status = RStatus ''OK''"

section \<open>Arguments\<close>

definition arg_upper :: "bytes \<Rightarrow> string" where
  "arg_upper a = to_uppercase (utf8_lossy a)"

definition arg_i64 :: "bytes \<Rightarrow> i64 option" where
  "arg_i64 a = parse_i64 (utf8_lossy a)"

definition arg_u64 :: "bytes \<Rightarrow> u64 option" where
  "arg_u64 a = parse_u64 (utf8_lossy a)"

fun pair_up :: "'a list \<Rightarrow> ('a \<times> 'a) list" where
  "pair_up (a # b # rest) = (a, b) # pair_up rest"
| "pair_up _ = []"

section \<open>Keys and strings\<close>

definition lua_get :: "instant \<Rightarrow> bytes list \<Rightarrow> keyspace \<Rightarrow> lua_outcome \<times> keyspace" where
  "lua_get now args ks =
     (case args of
        [key] \<Rightarrow> reply bulk_or_nil (read_key now key (Inr None) (with_kind string_of (\<lambda>v. Inr (Some v))) ks)
      | _ \<Rightarrow> (wrong_args ''get'', ks))"

text \<open>The flags of SET; an unknown word is skipped.\<close>

fun set_options :: "bytes list \<Rightarrow> bool \<times> bool \<times> duration option \<Rightarrow>
    lua_outcome + (bool \<times> bool \<times> duration option)" where
  "set_options [] opts = Inr opts"
| "set_options (a # rest) opts =
     (case opts of (nx, xx, ttl) \<Rightarrow>
        if arg_upper a = ''NX'' then set_options rest (True, xx, ttl)
        else if arg_upper a = ''XX'' then set_options rest (nx, True, ttl)
        else if arg_upper a = ''EX'' then
          (case rest of
             [] \<Rightarrow> Inl syntax_error
           | v # rest' \<Rightarrow>
               (case arg_u64 v of
                  None \<Rightarrow> Inl (Fail not_integer)
                | Some secs \<Rightarrow> set_options rest' (nx, xx, Some (from_secs (unat secs)))))
        else if arg_upper a = ''PX'' then
          (case rest of
             [] \<Rightarrow> Inl syntax_error
           | v # rest' \<Rightarrow>
               (case arg_u64 v of
                  None \<Rightarrow> Inl (Fail not_integer)
                | Some ms \<Rightarrow> set_options rest' (nx, xx, Some (from_millis (unat ms)))))
        else set_options rest opts)"

definition lua_set :: "instant \<Rightarrow> bytes list \<Rightarrow> keyspace \<Rightarrow> lua_outcome \<times> keyspace" where
  "lua_set now args ks =
     (case args of
        key # v # flags \<Rightarrow>
          (case set_options flags (False, False, None) of
             Inl r \<Rightarrow> (r, ks)
           | Inr (nx, xx, ttl) \<Rightarrow>
               (let key_exists = (case hm_get ks key of Some e \<Rightarrow> \<not> is_expired now e | None \<Rightarrow> False)
                in if nx \<and> key_exists then (Reply RNil, ks)
                   else if xx \<and> \<not> key_exists then (Reply RNil, ks)
                   else (let ks1 = expire_key now key ks
                         in (case new_string now v ttl of
                               None \<Rightarrow> (Panic, ks1)
                             | Some e \<Rightarrow> (Reply ok_status, hm_insert key e ks1)))))
      | _ \<Rightarrow> (wrong_args ''set'', ks))"

definition lua_del :: "instant \<Rightarrow> bytes list \<Rightarrow> keyspace \<Rightarrow> lua_outcome \<times> keyspace" where
  "lua_del now args ks =
     (if args = [] then (wrong_args ''del'', ks)
      else (let (n, ks') =
              count_loop
                (\<lambda>key ks. ((case hm_get ks key of Some e \<Rightarrow> \<not> is_expired now e | None \<Rightarrow> False), hm_remove key ks))
                args ks
            in (Reply (RInt n), ks')))"

definition lua_exists :: "instant \<Rightarrow> bytes list \<Rightarrow> keyspace \<Rightarrow> lua_outcome \<times> keyspace" where
  "lua_exists now args ks =
     (if args = [] then (wrong_args ''exists'', ks)
      else (let (n, ks') =
              count_loop
                (\<lambda>key ks. case hm_get ks key of
                             Some e \<Rightarrow> if is_expired now e then (False, hm_remove key ks) else (True, ks)
                           | None \<Rightarrow> (False, ks))
                args ks
            in (Reply (RInt n), ks')))"

text \<open>EXPIRE and PEXPIRE differ in the unit.\<close>

definition lua_expire_in :: "string \<Rightarrow> (nat \<Rightarrow> duration) \<Rightarrow> instant \<Rightarrow> bytes list \<Rightarrow> keyspace \<Rightarrow> lua_outcome \<times> keyspace" where
  "lua_expire_in cmd unit_of now args ks =
     (case args of
        [key, t] \<Rightarrow>
          (case arg_i64 t of
             None \<Rightarrow> (Fail not_integer, ks)
           | Some n \<Rightarrow>
               (case hm_get ks key of
                  None \<Rightarrow> (Reply (RInt 0), ks)
                | Some e \<Rightarrow>
                    if is_expired now e then (Reply (RInt 0), hm_remove key ks)
                    else if n \<le> 0 then (Reply (RInt 1), hm_remove key ks)
                    else (case instant_checked_add now (unit_of (nat n)) of
                            None \<Rightarrow> (Panic, ks)
                          | Some at \<Rightarrow> (Reply (RInt 1), hm_insert key (e\<lparr>expires_at := Some at\<rparr>) ks))))
      | _ \<Rightarrow> (wrong_args cmd, ks))"

definition lua_expire :: "instant \<Rightarrow> bytes list \<Rightarrow> keyspace \<Rightarrow> lua_outcome \<times> keyspace" where
  "lua_expire = lua_expire_in ''expire'' from_secs"

definition lua_pexpire :: "instant \<Rightarrow> bytes list \<Rightarrow> keyspace \<Rightarrow> lua_outcome \<times> keyspace" where
  "lua_pexpire = lua_expire_in ''pexpire'' from_millis"

section \<open>Hashes\<close>

definition lua_hset :: "instant \<Rightarrow> bytes list \<Rightarrow> keyspace \<Rightarrow> lua_outcome \<times> keyspace" where
  "lua_hset now args ks =
     (case args of
        key # fvs \<Rightarrow>
          if length args < 3 \<or> odd (length fvs) then (wrong_args ''hset'', ks)
          else reply RInt
                 (create_key now key new_hash
                   (modify_kind hash_of HashV
                     (\<lambda>m. let (n, m') = count_loop hset_step (pair_up fvs) m in (Inr n, m'))) ks)
      | [] \<Rightarrow> (wrong_args ''hset'', ks))"

definition lua_hget :: "instant \<Rightarrow> bytes list \<Rightarrow> keyspace \<Rightarrow> lua_outcome \<times> keyspace" where
  "lua_hget now args ks =
     (case args of
        [key, field] \<Rightarrow> reply bulk_or_nil (read_key now key (Inr None) (with_kind hash_of (\<lambda>m. Inr (hm_get m field))) ks)
      | _ \<Rightarrow> (wrong_args ''hget'', ks))"

text \<open>The removing commands drop the key when its container has become empty.\<close>

definition then_drop :: "bytes \<Rightarrow> 'r \<times> keyspace \<Rightarrow> 'r \<times> keyspace" where
  "then_drop key p = (case p of (r, ks) \<Rightarrow> (r, remove_if_empty key ks))"

definition lua_hdel :: "instant \<Rightarrow> bytes list \<Rightarrow> keyspace \<Rightarrow> lua_outcome \<times> keyspace" where
  "lua_hdel now args ks =
     (case args of
        key # f # fs \<Rightarrow>
          reply RInt
            (then_drop key
              (update_key now key (Inr 0)
                (modify_kind hash_of HashV
                  (\<lambda>m. let (n, m') = count_loop hdel_step (f # fs) m in (Inr n, m'))) ks))
      | _ \<Rightarrow> (wrong_args ''hdel'', ks))"

definition lua_hvals :: "instant \<Rightarrow> bytes list \<Rightarrow> keyspace \<Rightarrow> lua_outcome \<times> keyspace" where
  "lua_hvals now args ks =
     (case args of
        [key] \<Rightarrow> reply bulks (read_key now key (Inr []) (with_kind hash_of (\<lambda>m. Inr (map snd m))) ks)
      | _ \<Rightarrow> (wrong_args ''hvals'', ks))"

definition lua_hgetall :: "instant \<Rightarrow> bytes list \<Rightarrow> keyspace \<Rightarrow> lua_outcome \<times> keyspace" where
  "lua_hgetall now args ks =
     (case args of
        [key] \<Rightarrow> reply flat_pairs (read_key now key (Inr []) (with_kind hash_of Inr) ks)
      | _ \<Rightarrow> (wrong_args ''hgetall'', ks))"

definition lua_hexists :: "instant \<Rightarrow> bytes list \<Rightarrow> keyspace \<Rightarrow> lua_outcome \<times> keyspace" where
  "lua_hexists now args ks =
     (case args of
        [key, field] \<Rightarrow>
          reply flag_reply (read_key now key (Inr False) (with_kind hash_of (\<lambda>m. Inr (hm_contains m field))) ks)
      | _ \<Rightarrow> (wrong_args ''hexists'', ks))"

definition lua_hincrby :: "instant \<Rightarrow> bytes list \<Rightarrow> keyspace \<Rightarrow> lua_outcome \<times> keyspace" where
  "lua_hincrby now args ks =
     (case args of
        [key, field, by] \<Rightarrow>
          (case arg_i64 by of
             None \<Rightarrow> (Fail not_integer, ks)
           | Some increment \<Rightarrow>
               reply RInt
                 (create_key now key new_hash
                   (modify_kind hash_of HashV
                     (\<lambda>m. case hincrby_value (hm_get m field) increment of
                            Inl e \<Rightarrow> (Inl e, m)
                          | Inr new_val \<Rightarrow> (Inr new_val, hm_insert field (i64_str new_val) m))) ks))
      | _ \<Rightarrow> (wrong_args ''hincrby'', ks))"

section \<open>Sets\<close>

definition lua_sadd :: "instant \<Rightarrow> bytes list \<Rightarrow> keyspace \<Rightarrow> lua_outcome \<times> keyspace" where
  "lua_sadd now args ks =
     (case args of
        key # m # ms \<Rightarrow>
          reply RInt
            (create_key now key new_set
              (modify_kind set_of SetV
                (\<lambda>s. let (n, s') = count_loop sadd_step (m # ms) s in (Inr n, s'))) ks)
      | _ \<Rightarrow> (wrong_args ''sadd'', ks))"

definition lua_smembers :: "instant \<Rightarrow> bytes list \<Rightarrow> keyspace \<Rightarrow> lua_outcome \<times> keyspace" where
  "lua_smembers now args ks =
     (case args of
        [key] \<Rightarrow> reply bulks (read_key now key (Inr []) (with_kind set_of Inr) ks)
      | _ \<Rightarrow> (wrong_args ''smembers'', ks))"

definition lua_sismember :: "instant \<Rightarrow> bytes list \<Rightarrow> keyspace \<Rightarrow> lua_outcome \<times> keyspace" where
  "lua_sismember now args ks =
     (case args of
        [key, member] \<Rightarrow>
          reply flag_reply (read_key now key (Inr False) (with_kind set_of (\<lambda>s. Inr (member \<in> set s))) ks)
      | _ \<Rightarrow> (wrong_args ''sismember'', ks))"

definition lua_srem :: "instant \<Rightarrow> bytes list \<Rightarrow> keyspace \<Rightarrow> lua_outcome \<times> keyspace" where
  "lua_srem now args ks =
     (case args of
        key # m # ms \<Rightarrow>
          reply RInt
            (then_drop key
              (update_key now key (Inr 0)
                (modify_kind set_of SetV
                  (\<lambda>s. let (n, s') = count_loop srem_step (m # ms) s in (Inr n, s'))) ks))
      | _ \<Rightarrow> (wrong_args ''srem'', ks))"

section \<open>Sorted sets\<close>

text \<open>
  ZADD parses a score when it comes to it: an invalid one fails the call after the pairs
  before it have been added.
\<close>

fun lua_zadd_loop :: "(bytes \<times> bytes) list \<Rightarrow> int \<Rightarrow> sorted_set \<Rightarrow> (string + int) \<times> sorted_set" where
  "lua_zadd_loop [] added z = (Inr added, z)"
| "lua_zadd_loop ((s, member) # rest) added z =
     (case parse_f64 (utf8_lossy s) of
        None \<Rightarrow> (Inl ''ERR value is not a valid float'', z)
      | Some score \<Rightarrow>
          (let (fresh, z') = zs_insert member score z
           in lua_zadd_loop rest (if fresh then added + 1 else added) z'))"

text \<open>A reply that may still be the failure of the call.\<close>

definition reply_or_fail :: "('a \<Rightarrow> redis_value) \<Rightarrow> (string + 'a) result \<times> keyspace \<Rightarrow> lua_outcome \<times> keyspace" where
  "reply_or_fail f p =
     (case p of (r, ks) \<Rightarrow>
        (case r of
           Inl e \<Rightarrow> (Reply (RError (store_error_text e)), ks)
         | Inr (Inl msg) \<Rightarrow> (Fail msg, ks)
         | Inr (Inr v) \<Rightarrow> (Reply (f v), ks)))"

definition lua_zadd :: "instant \<Rightarrow> bytes list \<Rightarrow> keyspace \<Rightarrow> lua_outcome \<times> keyspace" where
  "lua_zadd now args ks =
     (case args of
        key # sms \<Rightarrow>
          if length args < 3 \<or> odd (length sms) then (wrong_args ''zadd'', ks)
          else reply_or_fail RInt
                 (create_key now key new_sorted_set
                   (modify_kind zset_of SortedSetV
                     (\<lambda>z. let (r, z') = lua_zadd_loop (pair_up sms) 0 z in (Inr r, z'))) ks)
      | [] \<Rightarrow> (wrong_args ''zadd'', ks))"

definition lua_zrem :: "instant \<Rightarrow> bytes list \<Rightarrow> keyspace \<Rightarrow> lua_outcome \<times> keyspace" where
  "lua_zrem now args ks =
     (case args of
        key # m # ms \<Rightarrow>
          reply RInt
            (then_drop key
              (update_key now key (Inr 0)
                (modify_kind zset_of SortedSetV
                  (\<lambda>z. let (n, z') = count_loop zs_remove (m # ms) z in (Inr n, z'))) ks))
      | _ \<Rightarrow> (wrong_args ''zrem'', ks))"

definition scored :: "(f64 \<Rightarrow> string) \<Rightarrow> bool \<Rightarrow> (f64 \<times> bytes) list \<Rightarrow> redis_value" where
  "scored disp withscores ps =
     RArray (concat (map (\<lambda>(score, member).
       if withscores then [RBulk member, RBulk (format_redis_score disp score)] else [RBulk member]) ps))"

definition lua_zrange :: "(f64 \<Rightarrow> string) \<Rightarrow> instant \<Rightarrow> bytes list \<Rightarrow> keyspace \<Rightarrow> lua_outcome \<times> keyspace" where
  "lua_zrange disp now args ks =
     (case args of
        key # a # b # flags \<Rightarrow>
          (case arg_i64 a of
             None \<Rightarrow> (Fail not_integer, ks)
           | Some start \<Rightarrow>
               (case arg_i64 b of
                  None \<Rightarrow> (Fail not_integer, ks)
                | Some stop \<Rightarrow>
                    (let withscores = (\<exists>f \<in> set flags. arg_upper f = ''WITHSCORES'')
                     in reply (scored disp withscores)
                          (read_key now key (Inr []) (with_kind zset_of (\<lambda>z. Inr (zs_range start stop z))) ks))))
      | _ \<Rightarrow> (wrong_args ''zrange'', ks))"

fun byscore_options :: "bytes list \<Rightarrow> bool \<times> (nat \<times> int) option \<Rightarrow> bool \<times> (nat \<times> int) option" where
  "byscore_options [] opts = opts"
| "byscore_options (a # rest) opts =
     (if arg_upper a = ''WITHSCORES'' then byscore_options rest (True, snd opts)
      else if arg_upper a = ''LIMIT'' then
        (case rest of
           offset # cnt # rest' \<Rightarrow>
             byscore_options rest'
               (fst opts,
                Some (case arg_u64 offset of Some w \<Rightarrow> unat w | None \<Rightarrow> 0,
                      case arg_i64 cnt of Some n \<Rightarrow> n | None \<Rightarrow> - 1))
         | _ \<Rightarrow> byscore_options rest opts)
      else byscore_options rest opts)"

text \<open>The scan between two bounds, each inclusive or exclusive.\<close>

definition bound_scan :: "score_bound \<Rightarrow> score_bound \<Rightarrow> sorted_set \<Rightarrow> (f64 \<times> bytes) list" where
  "bound_scan lo hi z =
     map fst
       (takeWhile (\<lambda>p. if bound_inclusive hi then f64_le (fst (fst p)) (bound_value hi)
                       else f64_lt (fst (fst p)) (bound_value hi))
         (dropWhile (\<lambda>p. \<not> bound_inclusive lo \<and> f64_eq (fst (fst p)) (bound_value lo))
           (bt_from score_key (of_rank (bound_value lo), []) (by_score z))))"

definition apply_limit :: "(nat \<times> int) option \<Rightarrow> 'a list \<Rightarrow> 'a list" where
  "apply_limit limit xs =
     (case limit of
        None \<Rightarrow> xs
      | Some (offset, n) \<Rightarrow> if n < 0 then drop offset xs else take (nat n) (drop offset xs))"

definition lua_zrangebyscore :: "(f64 \<Rightarrow> string) \<Rightarrow> instant \<Rightarrow> bytes list \<Rightarrow> keyspace \<Rightarrow> lua_outcome \<times> keyspace" where
  "lua_zrangebyscore disp now args ks =
     (case args of
        key # lo # hi # flags \<Rightarrow>
          (let (withscores, limit) = byscore_options flags (False, None)
           in reply (scored disp withscores)
                (read_key now key (Inr [])
                  (with_kind zset_of
                    (\<lambda>z. Inr (apply_limit limit (bound_scan (parse_score_arg lo) (parse_score_arg hi) z)))) ks))
      | _ \<Rightarrow> (wrong_args ''zrangebyscore'', ks))"

definition lua_zremrangebyscore :: "instant \<Rightarrow> bytes list \<Rightarrow> keyspace \<Rightarrow> lua_outcome \<times> keyspace" where
  "lua_zremrangebyscore now args ks =
     (case args of
        key # lo # hi # _ \<Rightarrow>
          reply RInt
            (then_drop key
              (update_key now key (Inr 0)
                (modify_kind zset_of SortedSetV
                  (\<lambda>z. let to_remove = map snd (bound_scan (parse_score_arg lo) (parse_score_arg hi) z)
                       in (Inr (int (length to_remove)), fold (\<lambda>m z. snd (zs_remove m z)) to_remove z))) ks))
      | _ \<Rightarrow> (wrong_args ''zremrangebyscore'', ks))"

definition lua_zcard :: "instant \<Rightarrow> bytes list \<Rightarrow> keyspace \<Rightarrow> lua_outcome \<times> keyspace" where
  "lua_zcard now args ks =
     (case args of
        [key] \<Rightarrow> reply RInt (read_key now key (Inr 0) (with_kind zset_of (\<lambda>z. Inr (int (zs_len z)))) ks)
      | _ \<Rightarrow> (wrong_args ''zcard'', ks))"

definition lua_zscore :: "(f64 \<Rightarrow> string) \<Rightarrow> instant \<Rightarrow> bytes list \<Rightarrow> keyspace \<Rightarrow> lua_outcome \<times> keyspace" where
  "lua_zscore disp now args ks =
     (case args of
        [key, member] \<Rightarrow>
          reply (\<lambda>s. bulk_or_nil (map_option disp s))
            (read_key now key (Inr None) (with_kind zset_of (\<lambda>z. Inr (hm_get (by_member z) member))) ks)
      | _ \<Rightarrow> (wrong_args ''zscore'', ks))"

end
