(* ===== verification/Lua_Streams.thy ===== *)
theory Lua_Streams
  imports Lua_Commands List_Ops Group_Facts Pubsub
begin

text \<open>
  The stream and list commands of \<open>dispatch_command_inner\<close> in
  \<^verbatim>\<open>src/src/scripting.rs\<close>, and PUBLISH.
\<close>

section \<open>Stream IDs in scripts\<close>

text \<open>A number that does not parse counts as zero (\<open>unwrap_or(0)\<close>).\<close>

definition u64_or_zero :: "string \<Rightarrow> u64" where
  "u64_or_zero s = (case parse_u64 s of Some n \<Rightarrow> n | None \<Rightarrow> 0)"

definition invalid_id :: string where
  "invalid_id = ''ERR Invalid stream ID specified as stream command argument''"

text \<open>The ID of XDEL and XACK: two parts, or the argument is skipped.\<close>

definition lenient_id :: "bytes \<Rightarrow> stream_id option" where
  "lenient_id a = map_option (\<lambda>(x, y). (u64_or_zero x, u64_or_zero y)) (split_once CHR ''-'' (utf8_lossy a))"

text \<open>The start of XREAD.\<close>

definition read_start :: "bytes \<Rightarrow> stream_id" where
  "read_start a =
     (let s = utf8_lossy a
      in if s = ''0'' \<or> s = ''0-0'' then (0, 0)
         else (case split_once CHR ''-'' s of
                 Some (x, y) \<Rightarrow> (u64_or_zero x, u64_or_zero y)
               | None \<Rightarrow> (u64_or_zero s, 0)))"

definition stream_entry :: "stream_id \<times> fields \<Rightarrow> redis_value" where
  "stream_entry p = RArray [RBulk (format_stream_id (fst p)), flat_pairs (snd p)]"

section \<open>Streams\<close>

definition lua_xadd_id :: "u64 \<Rightarrow> string \<Rightarrow> stream_id \<Rightarrow> lua_outcome + stream_id" where
  "lua_xadd_id ms id_str prev =
     (if id_str = ''*'' then Inr (next_stream_id ms prev)
      else (case split_once CHR ''-'' id_str of
              None \<Rightarrow> Inl (Reply (RError invalid_id))
            | Some (a, b) \<Rightarrow>
                (case parse_u64 a of
                   None \<Rightarrow> Inl (Fail invalid_id)
                 | Some m \<Rightarrow>
                     (case parse_u64 b of
                        None \<Rightarrow> Inl (Fail invalid_id)
                      | Some q \<Rightarrow>
                          if (m, q) \<le> prev
                          then Inl (Reply (RError ''ERR The ID specified in XADD is equal or smaller than the target stream top item''))
                          else Inr (m, q)))))"

definition lua_xadd_stream :: "u64 \<Rightarrow> string \<Rightarrow> fields \<Rightarrow> stream \<Rightarrow> lua_outcome result \<times> stream" where
  "lua_xadd_stream ms id_str flds s =
     (case lua_xadd_id ms id_str (last_id s) of
        Inl r \<Rightarrow> (Inr r, s)
      | Inr i \<Rightarrow>
          (Inr (Reply (RBulk (format_stream_id i))), s\<lparr>entries := btree_insert i flds (entries s), last_id := i\<rparr>))"

text \<open>A command whose answer is already the outcome of the call.\<close>

definition outcome :: "lua_outcome result \<times> keyspace \<Rightarrow> lua_outcome \<times> keyspace" where
  "outcome p = (case p of (r, ks) \<Rightarrow> (case r of Inl e \<Rightarrow> Reply (RError (store_error_text e)) | Inr r \<Rightarrow> r, ks))"

definition lua_xadd :: "u64 \<Rightarrow> instant \<Rightarrow> bytes list \<Rightarrow> keyspace \<Rightarrow> lua_outcome \<times> keyspace" where
  "lua_xadd ms now args ks =
     (case args of
        key # i # fvs \<Rightarrow>
          if length args < 4 \<or> odd (length fvs) then (wrong_args ''xadd'', ks)
          else outcome
                 (create_key now key new_stream
                   (modify_kind stream_of StreamV
                     (lua_xadd_stream ms (utf8_lossy i) (hm_collect (pair_up fvs)))) ks)
      | _ \<Rightarrow> (wrong_args ''xadd'', ks))"

fun xread_options :: "bytes list \<Rightarrow> usize option \<Rightarrow> lua_outcome + (usize option \<times> bytes list)" where
  "xread_options [] cnt = Inr (cnt, [])"
| "xread_options (a # rest) cnt =
     (if arg_upper a = ''COUNT'' then
        (case rest of
           [] \<Rightarrow> Inl syntax_error
         | v # rest' \<Rightarrow>
             (case arg_u64 v of
                None \<Rightarrow> Inl (Fail not_integer)
              | Some n \<Rightarrow> xread_options rest' (Some (unat n))))
      else if arg_upper a = ''STREAMS'' then Inr (cnt, rest)
      else xread_options rest cnt)"

definition streams_reply :: "(bytes \<times> (stream_id \<times> fields) list) list \<Rightarrow> redis_value" where
  "streams_reply res =
     (if res = [] then RNil
      else RArray (map (\<lambda>(key, es). RArray [RBulk key, RArray (map stream_entry es)]) res))"

definition lua_xread :: "instant \<Rightarrow> bytes list \<Rightarrow> keyspace \<Rightarrow> lua_outcome \<times> keyspace" where
  "lua_xread now args ks =
     (if args = [] then (wrong_args ''xread'', ks)
      else (case xread_options args None of
              Inl r \<Rightarrow> (r, ks)
            | Inr (cnt, remaining) \<Rightarrow>
                if remaining = [] \<or> odd (length remaining)
                then (Reply (RError ''ERR Unbalanced XREAD list of streams: for each stream key an ID must be specified''), ks)
                else (let half = length remaining div 2
                      in reply streams_reply
                           (xread_loop now cnt (zip (take half remaining) (map read_start (drop half remaining))) ks))))"

definition lua_xdel :: "instant \<Rightarrow> bytes list \<Rightarrow> keyspace \<Rightarrow> lua_outcome \<times> keyspace" where
  "lua_xdel now args ks =
     (case args of
        key # i # is \<Rightarrow>
          reply RInt
            (update_key now key (Inr 0)
              (modify_kind stream_of StreamV
                (\<lambda>s. let (n, m) = count_loop xdel_step (List.map_filter lenient_id (i # is)) (entries s)
                     in (Inr n, s\<lparr>entries := m\<rparr>))) ks)
      | _ \<Rightarrow> (wrong_args ''xdel'', ks))"

definition lua_xack :: "instant \<Rightarrow> bytes list \<Rightarrow> keyspace \<Rightarrow> lua_outcome \<times> keyspace" where
  "lua_xack now args ks =
     (case args of
        key # grp # i # is \<Rightarrow>
          reply RInt
            (update_group now key grp (Inr 0)
              (\<lambda>s g. count_loop ack_step (List.map_filter lenient_id (i # is)) g) ks)
      | _ \<Rightarrow> (wrong_args ''xack'', ks))"

definition lua_xlen :: "instant \<Rightarrow> bytes list \<Rightarrow> keyspace \<Rightarrow> lua_outcome \<times> keyspace" where
  "lua_xlen now args ks =
     (case args of
        [key] \<Rightarrow> reply RInt (read_key now key (Inr 0) (with_kind stream_of (\<lambda>s. Inr (int (length (entries s))))) ks)
      | _ \<Rightarrow> (wrong_args ''xlen'', ks))"

text \<open>A bound of XRANGE: the ID, and whether it is excluded.\<close>

definition parse_bound :: "string \<Rightarrow> bool \<Rightarrow> (stream_id \<times> bool) option" where
  "parse_bound str is_low =
     (let (s, exclusive) =
        (case str of c # cs \<Rightarrow> if c = CHR ''('' then (cs, True) else (str, False) | [] \<Rightarrow> ([], False))
      in if s = ''-'' then Some ((0, 0), exclusive)
         else if s = ''+'' then Some ((u64_MAX, u64_MAX), exclusive)
         else (case split_once CHR ''-'' s of
                 Some (a, b) \<Rightarrow>
                   (case parse_u64 a of
                      None \<Rightarrow> None
                    | Some ms \<Rightarrow> map_option (\<lambda>seq. ((ms, seq), exclusive)) (parse_u64 b))
               | None \<Rightarrow> map_option (\<lambda>ms. ((ms, if is_low then 0 else u64_MAX), exclusive)) (parse_u64 s)))"

fun xrange_options :: "bytes list \<Rightarrow> usize option \<Rightarrow> lua_outcome + usize option" where
  "xrange_options [] cnt = Inr cnt"
| "xrange_options (a # rest) cnt =
     (if arg_upper a = ''COUNT'' then
        (case rest of
           [] \<Rightarrow> Inl syntax_error
         | v # rest' \<Rightarrow>
             (case arg_u64 v of
                None \<Rightarrow> Inl (Reply (RError not_integer))
              | Some n \<Rightarrow> xrange_options rest' (Some (unat n))))
      else Inl syntax_error)"

definition entries_in_bounds :: "stream_id \<times> bool \<Rightarrow> stream_id \<times> bool \<Rightarrow> stream \<Rightarrow> (stream_id \<times> fields) list" where
  "entries_in_bounds lo hi s =
     (if fst lo > fst hi \<or> (fst lo = fst hi \<and> (snd lo \<or> snd hi)) then []
      else filter (\<lambda>p. (if snd lo then fst lo < fst p else fst lo \<le> fst p) \<and>
                       (if snd hi then fst p < fst hi else fst p \<le> fst hi)) (entries s))"

definition lua_xrange_dir :: "bool \<Rightarrow> instant \<Rightarrow> bytes list \<Rightarrow> keyspace \<Rightarrow> lua_outcome \<times> keyspace" where
  "lua_xrange_dir reverse now args ks =
     (case args of
        key # x # y # flags \<Rightarrow>
          (let (lo_bytes, hi_bytes) = (if reverse then (y, x) else (x, y))
           in (case parse_bound (utf8_lossy lo_bytes) True of
                 None \<Rightarrow> (Reply (RError invalid_id), ks)
               | Some lo \<Rightarrow>
                   (case parse_bound (utf8_lossy hi_bytes) False of
                      None \<Rightarrow> (Reply (RError invalid_id), ks)
                    | Some hi \<Rightarrow>
                        (case xrange_options flags None of
                           Inl r \<Rightarrow> (r, ks)
                         | Inr cnt \<Rightarrow>
                             reply (\<lambda>es. RArray (map stream_entry es))
                               (read_key now key (Inr [])
                                 (with_kind stream_of
                                   (\<lambda>s. let es = entries_in_bounds lo hi s
                                        in Inr (take_opt cnt (if reverse then rev es else es)))) ks)))))
      | _ \<Rightarrow> (wrong_args (if reverse then ''xrevrange'' else ''xrange''), ks))"

definition lua_xrange :: "instant \<Rightarrow> bytes list \<Rightarrow> keyspace \<Rightarrow> lua_outcome \<times> keyspace" where
  "lua_xrange = lua_xrange_dir False"

definition lua_xrevrange :: "instant \<Rightarrow> bytes list \<Rightarrow> keyspace \<Rightarrow> lua_outcome \<times> keyspace" where
  "lua_xrevrange = lua_xrange_dir True"

record claim_options =
  claim_ids :: "stream_id list"
  claim_idle :: "u64 option"
  claim_force :: bool
  claim_justid :: bool
  claim_retry :: "u64 option"

text \<open>
  The words of XCLAIM after the minimal idle time; an argument that is neither an option nor
  an ID is skipped, and so is an option whose value is missing.
\<close>

fun xclaim_options :: "bytes list \<Rightarrow> claim_options \<Rightarrow> claim_options" where
  "xclaim_options [] o1 = o1"
| "xclaim_options (a # rest) o1 =
     (if arg_upper a = ''IDLE'' then
        (case rest of
           v # rest' \<Rightarrow> xclaim_options rest' (o1\<lparr>claim_idle := Some (u64_or_zero (utf8_lossy v))\<rparr>)
         | [] \<Rightarrow> o1)
      else if arg_upper a = ''RETRYCOUNT'' then
        (case rest of
           v # rest' \<Rightarrow> xclaim_options rest' (o1\<lparr>claim_retry := Some (u64_or_zero (utf8_lossy v))\<rparr>)
         | [] \<Rightarrow> o1)
      else if arg_upper a = ''FORCE'' then xclaim_options rest (o1\<lparr>claim_force := True\<rparr>)
      else if arg_upper a = ''JUSTID'' then xclaim_options rest (o1\<lparr>claim_justid := True\<rparr>)
      else xclaim_options rest
             (case parse_stream_id (utf8_lossy a) of
                Some i \<Rightarrow> o1\<lparr>claim_ids := claim_ids o1 @ [i]\<rparr>
              | None \<Rightarrow> o1))"

definition claimed_reply :: "stream_id \<times> fields option \<Rightarrow> redis_value" where
  "claimed_reply p =
     (case snd p of
        None \<Rightarrow> RBulk (format_stream_id (fst p))
      | Some f \<Rightarrow> stream_entry (fst p, f))"

definition lua_no_group :: "bytes \<Rightarrow> bytes \<Rightarrow> string" where
  "lua_no_group key grp =
     ''NOGROUP No such key '' @ quoted (utf8_lossy key) @ '' or consumer group '' @ quoted (utf8_lossy grp) @ '' in XCLAIM''"

definition lua_xclaim :: "instant \<Rightarrow> bytes list \<Rightarrow> keyspace \<Rightarrow> lua_outcome \<times> keyspace" where
  "lua_xclaim now args ks =
     (case args of
        key # grp # cname # idle_arg # i # is \<Rightarrow>
          (case arg_u64 idle_arg of
             None \<Rightarrow> (Fail ''ERR Invalid min-idle-time argument for XCLAIM'', ks)
           | Some min_idle \<Rightarrow>
               (let opts = xclaim_options (i # is)
                      \<lparr>claim_ids = [], claim_idle = None, claim_force = False, claim_justid = False, claim_retry = None\<rparr>
                in outcome
                     (update_group now key grp (Inl (SyntaxErr (lua_no_group key grp)))
                       (\<lambda>s g. case xclaim_loop (xclaim_step now cname min_idle (claim_idle opts) (claim_retry opts)
                                                 (claim_force opts) (claim_justid opts) s) (claim_ids opts) g of
                                None \<Rightarrow> (Panic, g)
                              | Some (r, g') \<Rightarrow> (Reply (RArray (map claimed_reply r)), g')) ks)))
      | _ \<Rightarrow> (wrong_args ''xclaim'', ks))"

section \<open>Publishing\<close>

text \<open>
  PUBLISH in a script hands one "message" to the broadcast sender, if there is one, whoever
  is subscribed, and answers 0.
\<close>

definition lua_publish :: "bool \<Rightarrow> bytes list \<Rightarrow> lua_outcome \<times> pubsub_message list" where
  "lua_publish has_sender args =
     (case args of
        [channel, message] \<Rightarrow>
          (Reply (RInt 0),
           if has_sender
           then [\<lparr>msg_kind = ''message'', msg_pattern = None, msg_channel = channel, msg_data = message\<rparr>] else [])
      | _ \<Rightarrow> (wrong_args ''publish'', []))"

end
