(* ===== verification/Lua_Dispatch.thy ===== *)
theory Lua_Dispatch
  imports Lua_Streams Store_State
begin

text \<open>
  The list commands of \<open>dispatch_command_inner\<close>, the dispatcher with its mutation flags,
  the conversion of Lua values, and the execution of a script (\<open>LuaEngine::execute\<close> of
  \<^verbatim>\<open>src/src/scripting.rs\<close>, \<open>eval\<close> and \<open>evalsha\<close> of \<^verbatim>\<open>src/src/store.rs\<close>).
\<close>

section \<open>Lists\<close>

definition lua_push :: "string \<Rightarrow> list_end \<Rightarrow> instant \<Rightarrow> bytes list \<Rightarrow> keyspace \<Rightarrow> lua_outcome \<times> keyspace" where
  "lua_push cmd side now args ks =
     (case args of
        key # v # vs \<Rightarrow>
          reply RInt
            (create_key now key new_list
              (modify_kind list_of ListV
                (\<lambda>xs. let ys = fold (push_end side) (v # vs) xs in (Inr (int (length ys)), ys))) ks)
      | _ \<Rightarrow> (wrong_args cmd, ks))"

definition lua_lpush :: "instant \<Rightarrow> bytes list \<Rightarrow> keyspace \<Rightarrow> lua_outcome \<times> keyspace" where
  "lua_lpush = lua_push ''lpush'' LeftEnd"

definition lua_rpush :: "instant \<Rightarrow> bytes list \<Rightarrow> keyspace \<Rightarrow> lua_outcome \<times> keyspace" where
  "lua_rpush = lua_push ''rpush'' RightEnd"

fun pop_reply :: "lpop_result \<Rightarrow> redis_value" where
  "pop_reply PopNil = RNil"
| "pop_reply (PopSingle v) = RBulk v"
| "pop_reply (PopArray vs) = bulks vs"

definition lua_pop :: "string \<Rightarrow> list_end \<Rightarrow> instant \<Rightarrow> bytes list \<Rightarrow> keyspace \<Rightarrow> lua_outcome \<times> keyspace" where
  "lua_pop cmd side now args ks =
     (case args of
        [key] \<Rightarrow> reply pop_reply (update_list_key now key (Inr PopNil) (pop_list side None) ks)
      | [key, c] \<Rightarrow>
          (case arg_i64 c of
             None \<Rightarrow> (Reply (RError not_integer), ks)
           | Some n \<Rightarrow>
               if n < 0 then (Reply (RError ''ERR value is out of range, must be positive''), ks)
               else reply pop_reply (update_list_key now key (Inr PopNil) (pop_list side (Some (nat n))) ks))
      | _ \<Rightarrow> (wrong_args cmd, ks))"

definition lua_lpop :: "instant \<Rightarrow> bytes list \<Rightarrow> keyspace \<Rightarrow> lua_outcome \<times> keyspace" where
  "lua_lpop = lua_pop ''lpop'' LeftEnd"

definition lua_rpop :: "instant \<Rightarrow> bytes list \<Rightarrow> keyspace \<Rightarrow> lua_outcome \<times> keyspace" where
  "lua_rpop = lua_pop ''rpop'' RightEnd"

text \<open>An integer argument of the list commands: an error value if it does not parse.\<close>

definition with_int :: "bytes \<Rightarrow> keyspace \<Rightarrow> (int \<Rightarrow> lua_outcome \<times> keyspace) \<Rightarrow> lua_outcome \<times> keyspace" where
  "with_int a ks f = (case arg_i64 a of None \<Rightarrow> (Reply (RError not_integer), ks) | Some n \<Rightarrow> f n)"

definition lua_lrange :: "instant \<Rightarrow> bytes list \<Rightarrow> keyspace \<Rightarrow> lua_outcome \<times> keyspace" where
  "lua_lrange now args ks =
     (case args of
        [key, a, b] \<Rightarrow>
          with_int a ks (\<lambda>start. with_int b ks (\<lambda>stop.
            reply bulks
              (read_key now key (Inr [])
                (with_kind list_of
                  (\<lambda>xs. case normalize_range_indices start stop (length xs) of
                          None \<Rightarrow> Inr []
                        | Some (s, e) \<Rightarrow> Inr (take (e - s + 1) (drop s xs)))) ks)))
      | _ \<Rightarrow> (wrong_args ''lrange'', ks))"

definition lua_llen :: "instant \<Rightarrow> bytes list \<Rightarrow> keyspace \<Rightarrow> lua_outcome \<times> keyspace" where
  "lua_llen now args ks =
     (case args of
        [key] \<Rightarrow> reply RInt (read_key now key (Inr 0) (with_kind list_of (\<lambda>xs. Inr (int (length xs)))) ks)
      | _ \<Rightarrow> (wrong_args ''llen'', ks))"

definition lua_lindex :: "instant \<Rightarrow> bytes list \<Rightarrow> keyspace \<Rightarrow> lua_outcome \<times> keyspace" where
  "lua_lindex now args ks =
     (case args of
        [key, a] \<Rightarrow>
          with_int a ks (\<lambda>index.
            reply bulk_or_nil
              (read_key now key (Inr None)
                (with_kind list_of
                  (\<lambda>xs. case list_position (length xs) index of
                          None \<Rightarrow> Inr None | Some i \<Rightarrow> Inr (Some (xs ! i)))) ks))
      | _ \<Rightarrow> (wrong_args ''lindex'', ks))"

definition lua_linsert :: "instant \<Rightarrow> bytes list \<Rightarrow> keyspace \<Rightarrow> lua_outcome \<times> keyspace" where
  "lua_linsert now args ks =
     (case args of
        [key, place, pivot, v] \<Rightarrow>
          (case parse_linsert_where (utf8_lossy place) of
             Inl e \<Rightarrow> (Reply (RError (store_error_text e)), ks)
           | Inr position \<Rightarrow>
               reply RInt
                 (update_list_key now key (Inr 0)
                   (\<lambda>xs. case find_position (\<lambda>x. x = pivot) xs of
                           None \<Rightarrow> (Inr (- 1), Some xs)
                         | Some pos \<Rightarrow>
                             (let i = (case position of Before \<Rightarrow> pos | After \<Rightarrow> pos + 1);
                                  ys = insert_at i v xs
                              in (Inr (int (length ys)), Some ys))) ks))
      | _ \<Rightarrow> (wrong_args ''linsert'', ks))"

definition lua_lrem :: "instant \<Rightarrow> bytes list \<Rightarrow> keyspace \<Rightarrow> lua_outcome \<times> keyspace" where
  "lua_lrem now args ks =
     (case args of
        [key, c, v] \<Rightarrow>
          with_int c ks (\<lambda>cnt.
            reply RInt
              (update_list_key now key (Inr 0)
                (\<lambda>xs. let (removed, ys) = lrem_list cnt v xs in (Inr (int removed), unless_empty ys)) ks))
      | _ \<Rightarrow> (wrong_args ''lrem'', ks))"

definition lua_lset :: "instant \<Rightarrow> bytes list \<Rightarrow> keyspace \<Rightarrow> lua_outcome \<times> keyspace" where
  "lua_lset now args ks =
     (case args of
        [key, a, v] \<Rightarrow>
          with_int a ks (\<lambda>index.
            reply (\<lambda>_. ok_status)
              (update_list_key now key (Inl NoSuchKey)
                (\<lambda>xs. case list_position (length xs) index of
                        None \<Rightarrow> (Inl (SyntaxErr ''ERR index out of range''), Some xs)
                      | Some i \<Rightarrow> (Inr (), Some (xs[i := v]))) ks))
      | _ \<Rightarrow> (wrong_args ''lset'', ks))"

definition lua_ltrim :: "instant \<Rightarrow> bytes list \<Rightarrow> keyspace \<Rightarrow> lua_outcome \<times> keyspace" where
  "lua_ltrim now args ks =
     (case args of
        [key, a, b] \<Rightarrow>
          with_int a ks (\<lambda>start. with_int b ks (\<lambda>stop.
            reply (\<lambda>_. ok_status)
              (update_list_key now key (Inr ())
                (\<lambda>xs. case normalize_range_indices start stop (length xs) of
                        None \<Rightarrow> (Inr (), None)
                      | Some (s, e) \<Rightarrow> (Inr (), unless_empty (take (e - s + 1) (drop s xs)))) ks)))
      | _ \<Rightarrow> (wrong_args ''ltrim'', ks))"

text \<open>The arms of LMOVE and RPOPLPUSH repeat \<open>Store::lmove_atomic\<close> line by line.\<close>

definition move_reply :: "bytes option result \<times> bool \<times> keyspace \<Rightarrow> lua_outcome \<times> keyspace" where
  "move_reply p = (case p of (r, woke, ks) \<Rightarrow> reply bulk_or_nil (r, ks))"

definition lua_lmove :: "instant \<Rightarrow> bytes list \<Rightarrow> keyspace \<Rightarrow> lua_outcome \<times> keyspace" where
  "lua_lmove now args ks =
     (case args of
        [src, dst, a, b] \<Rightarrow>
          (case parse_list_end (utf8_lossy a) of
             Inl e \<Rightarrow> (Reply (RError (store_error_text e)), ks)
           | Inr src_from \<Rightarrow>
               (case parse_list_end (utf8_lossy b) of
                  Inl e \<Rightarrow> (Reply (RError (store_error_text e)), ks)
                | Inr dst_to \<Rightarrow> move_reply (lmove_atomic now src dst src_from dst_to ks)))
      | _ \<Rightarrow> (wrong_args ''lmove'', ks))"

definition lua_rpoplpush :: "instant \<Rightarrow> bytes list \<Rightarrow> keyspace \<Rightarrow> lua_outcome \<times> keyspace" where
  "lua_rpoplpush now args ks =
     (case args of
        [src, dst] \<Rightarrow> move_reply (lmove_atomic now src dst RightEnd LeftEnd ks)
      | _ \<Rightarrow> (wrong_args ''rpoplpush'', ks))"

section \<open>The dispatcher\<close>

text \<open>The commands by name.  \<open>ms\<close> is the system time in milliseconds, read by XADD only.\<close>

definition lua_commands :: "(f64 \<Rightarrow> string) \<Rightarrow> u64 \<Rightarrow>
    (string \<times> (instant \<Rightarrow> bytes list \<Rightarrow> keyspace \<Rightarrow> lua_outcome \<times> keyspace)) list" where
  "lua_commands disp ms =
     [(''GET'', lua_get), (''SET'', lua_set), (''DEL'', lua_del), (''EXISTS'', lua_exists),
      (''HSET'', lua_hset), (''HGET'', lua_hget), (''HDEL'', lua_hdel), (''HVALS'', lua_hvals),
      (''HGETALL'', lua_hgetall), (''HEXISTS'', lua_hexists), (''HINCRBY'', lua_hincrby),
      (''SADD'', lua_sadd), (''SMEMBERS'', lua_smembers), (''SISMEMBER'', lua_sismember), (''SREM'', lua_srem),
      (''ZADD'', lua_zadd), (''ZREM'', lua_zrem), (''ZRANGE'', lua_zrange disp),
      (''ZRANGEBYSCORE'', lua_zrangebyscore disp), (''ZREMRANGEBYSCORE'', lua_zremrangebyscore),
      (''ZCARD'', lua_zcard), (''ZSCORE'', lua_zscore disp), (''EXPIRE'', lua_expire), (''PEXPIRE'', lua_pexpire),
      (''XADD'', lua_xadd ms), (''XREAD'', lua_xread), (''XDEL'', lua_xdel), (''XACK'', lua_xack),
      (''XLEN'', lua_xlen), (''XRANGE'', lua_xrange), (''XREVRANGE'', lua_xrevrange), (''XCLAIM'', lua_xclaim),
      (''LPUSH'', lua_lpush), (''RPUSH'', lua_rpush), (''LPOP'', lua_lpop), (''RPOP'', lua_rpop),
      (''LRANGE'', lua_lrange), (''LLEN'', lua_llen), (''LINDEX'', lua_lindex), (''LINSERT'', lua_linsert),
      (''LREM'', lua_lrem), (''LSET'', lua_lset), (''LTRIM'', lua_ltrim), (''LMOVE'', lua_lmove),
      (''RPOPLPUSH'', lua_rpoplpush)]"

text \<open>What a script changes and sends.\<close>

record lua_state =
  lua_data :: keyspace
  lua_sent :: "pubsub_message list"
  lua_xadds :: bool
  lua_list_growth :: bool

definition dispatch_command_inner :: "(f64 \<Rightarrow> string) \<Rightarrow> u64 \<Rightarrow> bool \<Rightarrow> instant \<Rightarrow> string \<Rightarrow> bytes list \<Rightarrow> keyspace \<Rightarrow>
    lua_outcome \<times> keyspace \<times> pubsub_message list" where
  "dispatch_command_inner disp ms has_sender now cmd args ks =
     (case map_of (lua_commands disp ms) cmd of
        Some f \<Rightarrow> (let (r, ks') = f now args ks in (r, ks', []))
      | None \<Rightarrow>
          if cmd = ''PUBLISH'' then (let (r, msgs) = lua_publish has_sender args in (r, ks, msgs))
          else if cmd \<in> {''BLPOP'', ''BRPOP'', ''BLMOVE''}
          then (Reply (RError ''ERR This Redis command is not allowed from script''), ks, [])
          else (Reply (RError (''ERR unknown command '' @ quoted cmd)), ks, []))"

text \<open>The flags of a call: a successful XADD, and a list that has grown.\<close>

definition is_xadd_success :: "string \<Rightarrow> redis_value \<Rightarrow> bool" where
  "is_xadd_success cmd v \<longleftrightarrow> cmd = ''XADD'' \<and> (case v of RError _ \<Rightarrow> False | _ \<Rightarrow> True)"

definition is_list_mutation :: "string \<Rightarrow> redis_value \<Rightarrow> bool" where
  "is_list_mutation cmd v \<longleftrightarrow>
     (if cmd = ''LPUSH'' \<or> cmd = ''RPUSH'' then (case v of RInt _ \<Rightarrow> True | _ \<Rightarrow> False)
      else if cmd = ''LINSERT'' then (case v of RInt n \<Rightarrow> n > 0 | _ \<Rightarrow> False)
      else if cmd = ''LMOVE'' \<or> cmd = ''RPOPLPUSH'' then (case v of RBulk _ \<Rightarrow> True | _ \<Rightarrow> False)
      else False)"

definition dispatch_command :: "(f64 \<Rightarrow> string) \<Rightarrow> u64 \<Rightarrow> bool \<Rightarrow> instant \<Rightarrow> string \<Rightarrow> bytes list \<Rightarrow> keyspace \<Rightarrow>
    lua_outcome \<times> bool \<times> bool \<times> keyspace \<times> pubsub_message list" where
  "dispatch_command disp ms has_sender now cmd args ks =
     (let (r, ks', msgs) = dispatch_command_inner disp ms has_sender now cmd args ks
      in (case r of
            Reply v \<Rightarrow> (r, is_xadd_success cmd v, is_list_mutation cmd v, ks', msgs)
          | _ \<Rightarrow> (r, False, False, ks', msgs)))"

section \<open>Lua values\<close>

text \<open>
  The values of the mlua library.  A table is its contents; what is neither of these
  (functions, threads, user data) is \<open>LOther\<close>.
\<close>

datatype lua_value =
    LNil
  | LBool bool
  | LInt i64
  | LNum f64
  | LStr bytes
  | LTable "(lua_value \<times> lua_value) list"
  | LOther

fun into_lua :: "redis_value \<Rightarrow> lua_value" where
  "into_lua (RBulk b) = LStr b"
| "into_lua (RInt n) = LInt n"
| "into_lua (RArray items) = LTable (zip (map (\<lambda>i. LInt (int i + 1)) [0..<length items]) (map into_lua items))"
| "into_lua RNil = LBool False"
| "into_lua (RError msg) = LTable [(LStr ''err'', LStr msg)]"
| "into_lua (RStatus s) = LTable [(LStr ''ok'', LStr s)]"

definition table_get :: "(lua_value \<times> lua_value) list \<Rightarrow> lua_value \<Rightarrow> lua_value" where
  "table_get t k = (case map_of t k of Some v \<Rightarrow> v | None \<Rightarrow> LNil)"

lemma table_get_size: "table_get t k = v \<Longrightarrow> v \<noteq> LNil \<Longrightarrow> size v < size (LTable t)"
proof -
  assume "table_get t k = v" "v \<noteq> LNil"
  then have "(k, v) \<in> set t"
    by (auto simp: table_get_def dest: map_of_SomeD split: option.splits)
  then show ?thesis
    by (induction t) auto
qed

text \<open>The array part: the values under 1, 2, ... up to the first nil.\<close>

function lua_to_redis_value :: "lua_value \<Rightarrow> redis_value"
  and lua_array :: "(lua_value \<times> lua_value) list \<Rightarrow> nat \<Rightarrow> redis_value list" where
  "lua_to_redis_value v =
     (case v of
        LStr s \<Rightarrow> RBulk s
      | LInt n \<Rightarrow> RInt n
      | LNum x \<Rightarrow> RInt (f64_as_i64 x)
      | LBool b \<Rightarrow> if b then RInt 1 else RNil
      | LTable t \<Rightarrow>
          (case table_get t (LStr ''err'') of
             LStr s \<Rightarrow> RError (utf8_lossy s)
           | _ \<Rightarrow>
               (case table_get t (LStr ''ok'') of
                  LStr s \<Rightarrow> RStatus (utf8_lossy s)
                | _ \<Rightarrow> RArray (lua_array t 1)))
      | _ \<Rightarrow> RNil)"
| "lua_array t i =
     (if i > length t then []
      else if table_get t (LInt (int i)) = LNil then []
      else lua_to_redis_value (table_get t (LInt (int i))) # lua_array t (Suc i))"
  by pat_completeness auto
termination
  by (relation "measures [\<lambda>x. case x of Inl v \<Rightarrow> size v | Inr (t, i) \<Rightarrow> size (LTable t),
        \<lambda>x. case x of Inl v \<Rightarrow> (case v of LTable t \<Rightarrow> length t + 2 | _ \<Rightarrow> 0)
                     | Inr (t, i) \<Rightarrow> Suc (length t) - i]")
    (auto dest: table_get_size [OF refl])

section \<open>Calls from a script\<close>

text \<open>How a call from a script ends, and how a script does: a value, a Lua error, or a panic.\<close>

datatype lua_result = LuaOk lua_value | LuaErr string | LuaPanic

text \<open>The arguments of a command: strings and numbers only.\<close>

fun command_args :: "(f64 \<Rightarrow> string) \<Rightarrow> lua_value list \<Rightarrow> string + bytes list" where
  "command_args disp [] = Inr []"
| "command_args disp (v # vs) =
     (case (case v of LStr s \<Rightarrow> Some s | LInt n \<Rightarrow> Some (i64_str n) | LNum x \<Rightarrow> Some (disp x) | _ \<Rightarrow> None) of
        None \<Rightarrow> Inl ''ERR Lua redis lib command arguments must be strings or integers''
      | Some a \<Rightarrow> (case command_args disp vs of Inl e \<Rightarrow> Inl e | Inr as \<Rightarrow> Inr (a # as)))"

text \<open>\<open>redis.call\<close> raises a failure; \<open>redis.pcall\<close> answers it as a table with an \<open>err\<close> field.\<close>

definition lua_failure :: "bool \<Rightarrow> string \<Rightarrow> lua_result" where
  "lua_failure protected msg = (if protected then LuaOk (LTable [(LStr ''err'', LStr msg)]) else LuaErr msg)"

definition redis_call :: "(f64 \<Rightarrow> string) \<Rightarrow> u64 \<Rightarrow> bool \<Rightarrow> instant \<Rightarrow> bool \<Rightarrow> lua_value list \<Rightarrow> lua_state \<Rightarrow>
    lua_result \<times> lua_state" where
  "redis_call disp ms has_sender now protected args st =
     (case args of
        [] \<Rightarrow> (lua_failure protected (''ERR wrong number of arguments for '' @
                 quoted (if protected then ''redis.pcall'' else ''redis.call'')), st)
      | LStr s # rest \<Rightarrow>
          (case command_args disp rest of
             Inl msg \<Rightarrow> (lua_failure protected msg, st)
           | Inr cmd_args \<Rightarrow>
               (let (r, xadd_flag, list_mut_flag, ks, msgs) =
                      dispatch_command disp ms has_sender now (arg_upper s) cmd_args (lua_data st);
                    st1 = st\<lparr>lua_data := ks, lua_sent := lua_sent st @ msgs\<rparr>
                in (case r of
                      Panic \<Rightarrow> (LuaPanic, st1)
                    | Fail msg \<Rightarrow> (lua_failure protected msg, st1)
                    | Reply v \<Rightarrow>
                        (case v of
                           RError msg \<Rightarrow> (lua_failure protected msg, st1)
                         | _ \<Rightarrow> (LuaOk (into_lua v),
                                 st1\<lparr>lua_xadds := lua_xadds st1 \<or> xadd_flag,
                                     lua_list_growth := lua_list_growth st1 \<or> list_mut_flag\<rparr>)))))
      | _ \<Rightarrow> (lua_failure protected ''ERR first argument must be a string'', st))"

section \<open>Scripts\<close>

text \<open>
  A script as the store sees it: it ends, or it calls \<open>redis.call\<close> (\<open>redis.pcall\<close> when the
  flag is set) and goes on with what the call gave.  The Lua machine that turns the text of a
  script, KEYS and ARGV into such a run is a parameter \<open>vm\<close> of the definitions below; it may
  catch an error and go on, as \<open>pcall\<close> does.  A script that never ends has no run.
\<close>

datatype lua_run = Done lua_result | Invoke bool "lua_value list" "lua_result \<Rightarrow> lua_run"

text \<open>\<open>clock n\<close> is the time the \<open>n\<close>th call reads: the instant and the system time in ms.\<close>

primrec run_lua :: "(f64 \<Rightarrow> string) \<Rightarrow> (nat \<Rightarrow> instant \<times> u64) \<Rightarrow> bool \<Rightarrow> lua_run \<Rightarrow> nat \<Rightarrow> lua_state \<Rightarrow>
    lua_result \<times> lua_state" where
  "run_lua disp clock has_sender (Done r) n st = (r, st)"
| "run_lua disp clock has_sender (Invoke protected args k) n st =
     (let (r, st1) = redis_call disp (snd (clock n)) has_sender (fst (clock n)) protected args st
      in run_lua disp clock has_sender (k r) (Suc n) st1)"

type_synonym lua_vm = "string \<Rightarrow> bytes list \<Rightarrow> bytes list \<Rightarrow> lua_run"

text \<open>\<open>result\<close>, \<open>had_xadd\<close> and \<open>had_list_mutation\<close> of the outcome are read off the final state.\<close>

definition lua_execute :: "(f64 \<Rightarrow> string) \<Rightarrow> lua_vm \<Rightarrow> (nat \<Rightarrow> instant \<times> u64) \<Rightarrow> string \<Rightarrow> bytes list \<Rightarrow> bytes list \<Rightarrow>
    keyspace \<Rightarrow> bool \<Rightarrow> lua_result \<times> lua_state" where
  "lua_execute disp vm clock script keys argv ks has_sender =
     run_lua disp clock has_sender (vm script keys argv) 0
       \<lparr>lua_data = ks, lua_sent = [], lua_xadds = False, lua_list_growth = False\<rparr>"

text \<open>
  What EVAL and EVALSHA do with a script.  A panic leaves the method at once: the changes to
  the keys stay, and nobody is woken.
\<close>

datatype eval_result = EvalOk redis_value | EvalErr string | EvalPanic

definition run_script :: "(f64 \<Rightarrow> string) \<Rightarrow> lua_vm \<Rightarrow> (nat \<Rightarrow> instant \<times> u64) \<Rightarrow> string \<Rightarrow> bytes list \<Rightarrow> bytes list \<Rightarrow>
    store \<Rightarrow> eval_result \<times> pubsub_message list \<times> store" where
  "run_script disp vm clock script keys argv st =
     (let (r, l) = lua_execute disp vm clock script keys argv (data st) True;
          st1 = st\<lparr>data := lua_data l\<rparr>;
          st2 = (if lua_xadds l then notify_streams st1 else st1);
          st3 = (if lua_list_growth l then notify_lists st2 else st2)
      in (case r of
            LuaPanic \<Rightarrow> (EvalPanic, lua_sent l, st1)
          | LuaErr msg \<Rightarrow> (EvalErr msg, lua_sent l, st3)
          | LuaOk v \<Rightarrow> (EvalOk (lua_to_redis_value v), lua_sent l, st3)))"

definition eval :: "(f64 \<Rightarrow> string) \<Rightarrow> (string \<Rightarrow> string) \<Rightarrow> lua_vm \<Rightarrow> (nat \<Rightarrow> instant \<times> u64) \<Rightarrow> string \<Rightarrow>
    bytes list \<Rightarrow> bytes list \<Rightarrow> store \<Rightarrow> eval_result \<times> pubsub_message list \<times> store" where
  "eval disp sha1_hex vm clock script keys argv st =
     run_script disp vm clock script keys argv
       (st\<lparr>scripts := hm_insert (sha1_hex script) script (scripts st)\<rparr>)"

definition evalsha :: "(f64 \<Rightarrow> string) \<Rightarrow> lua_vm \<Rightarrow> (nat \<Rightarrow> instant \<times> u64) \<Rightarrow> string \<Rightarrow>
    bytes list \<Rightarrow> bytes list \<Rightarrow> store \<Rightarrow> eval_result \<times> pubsub_message list \<times> store" where
  "evalsha disp vm clock sha keys argv st =
     (case hm_get (scripts st) sha of
        None \<Rightarrow> (EvalErr ''NOSCRIPT No matching script. Use EVAL.'', [], st)
      | Some script \<Rightarrow> run_script disp vm clock script keys argv st)"


end
