(* ===== verification/Frames.thy ===== *)
theory Frames
  imports Key_Commands Hash_Ops Set_Ops Zset_Ops List_Ops Group_Facts "HOL-Library.Sublist"
begin

text \<open>
  What commands keep.  The locale \<open>command_frame\<close> states a relation between the keyspaces
  before and after a command that allows removing keys, changing the values under the
  structural invariant, and storing new ones, but no longer list and no new stream entries.
  The access patterns satisfy it, and with them every command except the few that grow a list
  or a stream.  It is interpreted as "no list has grown", as "no stream has new entries", and
  as the preservation of the structural invariant.
\<close>

section \<open>The interface\<close>

named_theorems frame_intros \<open>the commands that satisfy the frame\<close>

locale command_frame =
  fixes K :: "keyspace \<Rightarrow> keyspace \<Rightarrow> bool" and V :: "value_data option \<Rightarrow> value_data \<Rightarrow> bool"
  assumes K_refl: "K ks ks"
    and K_trans: "K a b \<Longrightarrow> K b c \<Longrightarrow> K a c"
    and K_remove: "K ks (hm_remove k ks)"
    and K_insert: "V (map_option vdata (hm_get ks k)) (vdata (e :: value_entry)) \<Longrightarrow> K ks (hm_insert k e ks)"
    and V_refl: "V (Some d) d"
    and V_string: "V old (StringV v)"
    and V_hash: "(\<forall>m. old = Some (HashV m) \<longrightarrow> hm_wf m) \<longrightarrow> hm_wf m' \<Longrightarrow> V old (HashV m')"
    and V_set: "(\<forall>ms. old = Some (SetV ms) \<longrightarrow> distinct ms) \<longrightarrow> distinct ms' \<Longrightarrow> V old (SetV ms')"
    and V_zset: "(\<forall>z. old = Some (SortedSetV z) \<longrightarrow> zs_wf z) \<longrightarrow> zs_wf z' \<Longrightarrow> V old (SortedSetV z')"
    and V_list: "length ys \<le> length xs \<Longrightarrow> V (Some (ListV xs)) (ListV ys)"
    and V_stream: "(stream_wf s \<longrightarrow> stream_wf s') \<Longrightarrow> subseq (entries s') (entries s) \<Longrightarrow>
      V (Some (StreamV s)) (StreamV s')"
    and V_new_stream: "stream_wf s \<Longrightarrow> entries s = [] \<Longrightarrow> V None (StreamV s)"
begin

section \<open>The access patterns\<close>

lemma K_expire: "K ks (expire_key now key ks)"
  by (auto simp: expire_key_def K_refl K_remove split: option.splits)

lemma K_read [frame_intros]: "K ks (snd (read_key now key dflt f ks))"
  by (auto simp: read_key_def K_refl K_remove split: option.splits)

lemma K_drop: "K ks ks' \<Longrightarrow> K ks (remove_if_empty key ks')"
  by (auto simp: remove_if_empty_def intro: K_trans K_remove split: option.splits)

lemma K_update:
  assumes "\<And>d v. proj d = Some v \<Longrightarrow> V (Some d) (wrap (snd (f v)))"
  shows "K ks (snd (update_key now key dflt (modify_kind proj wrap f) ks))"
proof -
  have "V (Some d) (snd (modify_kind proj wrap f d))" for d
    using assms [of d] by (auto simp: modify_kind_def V_refl split_beta split: option.splits)
  then show ?thesis
    by (auto simp: update_key_def K_refl K_remove split_beta Let_def intro!: K_insert split: option.splits)
qed

lemma K_create:
  assumes "\<And>d v. proj d = Some v \<Longrightarrow> V (Some d) (wrap (snd (f v)))"
    and "proj (vdata mk) = Some v0" and "V None (wrap (snd (f v0)))"
  shows "K ks (snd (create_key now key mk (modify_kind proj wrap f) ks))"
proof -
  let ?ks1 = "expire_key now key ks"
  have "V (Some d) (snd (modify_kind proj wrap f d))" for d
    using assms(1) [of d] by (auto simp: modify_kind_def V_refl split_beta split: option.splits)
  moreover have "V None (snd (modify_kind proj wrap f (vdata mk)))"
    using assms(2,3) by (auto simp: modify_kind_def split_beta)
  ultimately have "K ?ks1 (snd (create_key now key mk (modify_kind proj wrap f) ks))"
    by (auto simp: create_key_def split_beta Let_def intro!: K_insert split: option.splits)
  then show ?thesis by (rule K_trans [OF K_expire])
qed

lemma K_update_hash:
  "(\<And>m. hm_wf m \<Longrightarrow> hm_wf (snd (f m))) \<Longrightarrow> K ks (snd (update_key now key dflt (modify_kind hash_of HashV f) ks))"
  by (rule K_update, drule hash_kind.wrap_proj) (auto intro: V_hash)

lemma K_create_hash:
  "(\<And>m. hm_wf m \<Longrightarrow> hm_wf (snd (f m))) \<Longrightarrow> K ks (snd (create_key now key new_hash (modify_kind hash_of HashV f) ks))"
  by (rule K_create, drule hash_kind.wrap_proj) (auto simp: new_hash_def intro!: V_hash)

lemma K_update_set:
  "(\<And>m. distinct m \<Longrightarrow> distinct (snd (f m))) \<Longrightarrow> K ks (snd (update_key now key dflt (modify_kind set_of SetV f) ks))"
  by (rule K_update, drule set_kind.wrap_proj) (auto intro: V_set)

lemma K_create_set:
  "(\<And>m. distinct m \<Longrightarrow> distinct (snd (f m))) \<Longrightarrow> K ks (snd (create_key now key new_set (modify_kind set_of SetV f) ks))"
  by (rule K_create, drule set_kind.wrap_proj) (auto simp: new_set_def intro!: V_set)

lemma K_update_zset:
  "(\<And>z. zs_wf z \<Longrightarrow> zs_wf (snd (f z))) \<Longrightarrow> K ks (snd (update_key now key dflt (modify_kind zset_of SortedSetV f) ks))"
  by (rule K_update, drule zset_kind.wrap_proj) (auto intro: V_zset)

lemma K_create_zset:
  "(\<And>z. zs_wf z \<Longrightarrow> zs_wf (snd (f z))) \<Longrightarrow> K ks (snd (create_key now key new_sorted_set (modify_kind zset_of SortedSetV f) ks))"
  by (rule K_create, drule zset_kind.wrap_proj) (auto simp: new_sorted_set_def intro!: V_zset)

lemma K_update_stream:
  assumes "\<And>s. stream_wf s \<Longrightarrow> stream_wf (snd (f s))" and "\<And>s. subseq (entries (snd (f s))) (entries s)"
  shows "K ks (snd (update_key now key dflt (modify_kind stream_of StreamV f) ks))"
  by (rule K_update, drule stream_kind.wrap_proj) (auto intro: V_stream assms)

lemma K_list:
  assumes "\<And>xs ys. snd (f xs) = Some ys \<Longrightarrow> length ys \<le> length xs"
  shows "K ks (snd (update_list_key now key dflt f ks))"
proof -
  have "V (Some (ListV xs)) (ListV ys)" if "f xs = (r, Some ys)" for xs r ys
    using assms [of xs ys] that by (simp add: V_list)
  then show ?thesis
    by (auto simp: update_list_key_def K_refl K_remove intro!: K_insert split: option.splits value_data.splits prod.splits)
qed

lemma K_loop:
  assumes "\<And>x ks. K ks (snd (f x ks))"
  shows "K ks (snd (count_loop f xs ks))"
  by (rule count_loop_inv [where P = "K ks"]) (auto intro: K_refl K_trans assms)

end

section \<open>Lists that do not grow\<close>

lemma pop_end_length: "length (snd (pop_end e xs)) \<le> length xs"
  by (cases e; cases xs) auto

lemma pop_many_length: "length (snd (pop_many e n xs)) \<le> length xs"
proof (induction n arbitrary: xs)
  case (Suc n)
  obtain x ys where p: "pop_end e xs = (x, ys)" by fastforce
  then have "length ys \<le> length xs" using pop_end_length [of e xs] by simp
  with Suc [of ys] p show ?case
    by (cases x) (auto simp: split_beta Let_def)
qed simp

lemma unless_empty_eq: "unless_empty xs = Some ys \<longleftrightarrow> xs = ys \<and> ys \<noteq> []"
  by (auto simp: unless_empty_def)

lemma pop_list_length:
  assumes "snd (pop_list side cnt xs) = Some ys"
  shows "length ys \<le> length xs"
proof (cases "cnt = Some 0")
  case True
  with assms show ?thesis by (simp add: pop_list_def)
next
  case False
  obtain x zs where p: "pop_end side xs = (x, zs)" by fastforce
  with assms False pop_end_length [of side xs] show ?thesis
    using pop_many_length [of side "min (the cnt) (length xs)" xs]
    by (cases cnt; cases x) (auto simp: pop_list_def split_beta Let_def unless_empty_eq)
qed

lemma lrem_list_length: "length (snd (lrem_list n v xs)) \<le> length xs"
proof -
  have "length (snd (retain_upto t v r xs)) \<le> length xs" for t r
    by (induction t v r xs rule: retain_upto.induct) (auto simp: split_beta Let_def)
  moreover have "length (fold remove_at is xs) \<le> length xs" for "is"
  proof (induction "is" arbitrary: xs)
    case (Cons i "is")
    then show ?case using Cons.IH [of "remove_at i xs"] by (auto simp: remove_at_def)
  qed simp
  ultimately show ?thesis
    by (auto simp: lrem_list_def Let_def split: lrem_direction.splits)
qed

section \<open>Streams that do not grow\<close>

lemma xclaim_step_wf:
  "xclaim_step now cname min_idle idle retry force justid s i g = Some (out, g') \<Longrightarrow> group_wf g \<Longrightarrow> group_wf g'"
  by (auto simp: xclaim_step_def Let_def split: option.splits if_splits)

lemma xclaim_loop_wf:
  "xclaim_loop (xclaim_step now cname min_idle idle retry force justid s) ids g = Some (out, g') \<Longrightarrow>
   group_wf g \<Longrightarrow> group_wf g'"
  by (induction ids arbitrary: g out) (auto split: option.splits prod.splits dest: xclaim_step_wf)

lemma ack_loop_wf: "group_wf g \<Longrightarrow> group_wf (snd (count_loop ack_step ids g))"
  by (rule count_loop_inv [where P = group_wf]) (auto simp: ack_step_owner split: option.splits)

lemma stream_wf_insert_group: "stream_wf s \<Longrightarrow> group_wf g \<Longrightarrow> stream_wf (s\<lparr>groups := hm_insert n g (groups s)\<rparr>)"
  by (auto simp: stream_wf_def dest: set_hm_insert_subset [THEN subsetD])

lemma subseq_xdel_loop: "subseq (snd (count_loop xdel_step ids m)) m"
proof (induction ids arbitrary: m)
  case (Cons i ids)
  have "subseq (btree_remove i m) m" by (simp add: bt_remove_def)
  then show ?case using Cons.IH [of "btree_remove i m"]
    by (auto simp: xdel_step_def split_beta Let_def intro: subseq_order.trans)
qed simp

context command_frame begin

lemma K_xread_loop: "K ks (snd (xread_loop now cnt ps ks))"
proof (induction now cnt ps ks rule: xread_loop.induct)
  case (2 now cnt key start_id rest ks)
  show ?case
  proof (cases "hm_get ks key")
    case None
    with 2 show ?thesis by simp
  next
    case (Some e)
    show ?thesis
    proof (cases "is_expired now e")
      case True
      with 2 Some show ?thesis by (auto intro: K_trans [OF K_remove])
    next
      case False
      with 2(3) Some show ?thesis
        by (cases "vdata e") (auto simp: K_refl split_beta Let_def split: sum.split)
    qed
  qed
qed (simp add: K_refl)

lemma K_update_group:
  assumes "\<And>s g. group_wf g \<Longrightarrow> group_wf (snd (f s g))"
  shows "K ks (snd (update_group now key grp missing f ks))"
proof -
  have "group_wf g" if "stream_wf s" "hm_get (groups s) grp = Some g" for s g
    using that by (auto simp: stream_wf_def dest!: hm_get_Some_in)
  then show ?thesis
    unfolding update_group_def
    by (intro K_update_stream) (auto simp: split_beta Let_def intro!: stream_wf_insert_group assms split: option.split)
qed

lemma K_expire_both: "K ks (if src \<noteq> dst then expire_key now dst (expire_key now src ks) else expire_key now src ks)"
  by (auto intro: K_trans [OF K_expire] K_expire)

text \<open>A move that moves nothing changes nothing but expired entries.\<close>

lemma K_failed_move:
  assumes "\<nexists>v. fst (lmove_atomic now src dst a b ks) = Inr (Some v)"
  shows "K ks (snd (snd (lmove_atomic now src dst a b ks)))"
proof -
  define ks2 where "ks2 = (if src \<noteq> dst then expire_key now dst (expire_key now src ks) else expire_key now src ks)"
  have K2: "K ks ks2" unfolding ks2_def by (rule K_expire_both)
  have K3: "K ks (hm_insert src (e\<lparr>vdata := ListV ys\<rparr>) ks2)"
    if "hm_get ks2 src = Some e" "vdata e = ListV xs" "pop_end a xs = (r, ys)" for e xs r ys
    using that pop_end_length [of a xs] by (intro K_trans [OF K2 K_insert]) (simp add: V_list)
  have K4: "K ks (hm_remove src (hm_insert src (e\<lparr>vdata := ListV ys\<rparr>) ks2))"
    if "hm_get ks2 src = Some e" "vdata e = ListV xs" "pop_end a xs = (r, ys)" for e xs r ys
    using K_trans [OF K3 [OF that] K_remove] .
  show ?thesis
    using assms K2 K3 K4
    unfolding lmove_atomic_def Let_def ks2_def [symmetric]
    by (auto split: option.splits value_data.splits prod.splits)
qed

end

text \<open>Relations that do not look at lists.\<close>

locale list_free_frame = command_frame +
  assumes V_any_list: "V old (ListV ys)"
begin

lemma K_insert_list: "K ks (hm_insert k (e\<lparr>vdata := ListV ys\<rparr>) ks)"
  by (rule K_insert) (simp add: V_any_list)

lemma K_move: "K ks (snd (snd (lmove_atomic now src dst a b ks)))"
proof -
  define ks2 where "ks2 = (if src \<noteq> dst then expire_key now dst (expire_key now src ks) else expire_key now src ks)"
  have K2: "K ks ks2" unfolding ks2_def by (rule K_expire_both)
  have K3: "K ks (hm_insert src (e\<lparr>vdata := ListV ys\<rparr>) ks2)" for e ys
    by (rule K_trans [OF K2 K_insert_list])
  have K4: "K ks (hm_remove src (hm_insert src (e\<lparr>vdata := ListV ys\<rparr>) ks2))" for e ys
    by (rule K_trans [OF K3 K_remove])
  note K5 = K_trans [OF K3 K_insert_list] K_trans [OF K4 K_insert_list]
  show ?thesis
    unfolding lmove_atomic_def Let_def ks2_def [symmetric]
    by (auto simp: K2 K3 K4 K5 split: option.splits value_data.splits prod.splits)
qed

lemma K_list_update: "K ks (snd (update_list_key now key dflt f ks))"
  by (auto simp: update_list_key_def K_refl K_remove K_insert_list split: option.splits value_data.splits prod.splits)

end

text \<open>Relations that do not look at streams beyond their invariant.\<close>

locale stream_free_frame = command_frame +
  assumes V_any_stream: "(\<forall>s. old = Some (StreamV s) \<longrightarrow> stream_wf s) \<longrightarrow> stream_wf s' \<Longrightarrow> V old (StreamV s')"
begin

end

section \<open>Sizes of lists and streams\<close>

fun list_size :: "value_data \<Rightarrow> nat" where
  "list_size (ListV xs) = length xs"
| "list_size _ = 0"

text \<open>The entries of a stream whose ID is in a given set.\<close>

fun entry_count :: "(stream_id \<Rightarrow> bool) \<Rightarrow> value_data \<Rightarrow> nat" where
  "entry_count Q (StreamV s) = length (filter (\<lambda>p. Q (fst p)) (entries s))"
| "entry_count Q _ = 0"

definition size_at :: "(value_data \<Rightarrow> nat) \<Rightarrow> keyspace \<Rightarrow> bytes \<Rightarrow> nat" where
  "size_at m ks key = (case hm_get ks key of None \<Rightarrow> 0 | Some e \<Rightarrow> m (vdata e))"

definition not_larger :: "(value_data \<Rightarrow> nat) \<Rightarrow> keyspace \<Rightarrow> keyspace \<Rightarrow> bool" where
  "not_larger m ks ks' \<longleftrightarrow> (\<forall>key. size_at m ks' key \<le> size_at m ks key)"

definition smaller :: "(value_data \<Rightarrow> nat) \<Rightarrow> value_data option \<Rightarrow> value_data \<Rightarrow> bool" where
  "smaller m old d \<longleftrightarrow> m d \<le> (case old of None \<Rightarrow> 0 | Some d0 \<Rightarrow> m d0)"

lemma not_larger_refl: "not_larger m ks ks"
  by (simp add: not_larger_def)

lemma not_larger_trans: "not_larger m a b \<Longrightarrow> not_larger m b c \<Longrightarrow> not_larger m a c"
  unfolding not_larger_def using order_trans by blast

lemma not_larger_remove: "not_larger m ks (hm_remove k ks)"
  by (simp add: not_larger_def size_at_def)

lemma not_larger_insert: "smaller m (map_option vdata (hm_get ks k)) (vdata e) \<Longrightarrow> not_larger m ks (hm_insert k e ks)"
  by (auto simp: not_larger_def size_at_def smaller_def split: option.splits)

lemmas not_larger_frame = not_larger_refl not_larger_remove not_larger_insert

lemma subseq_count: "subseq xs ys \<Longrightarrow> length (filter P xs) \<le> length (filter P ys)"
  by (rule list_emb_length [OF subseq_filter])

interpretation lists: stream_free_frame "not_larger list_size" "smaller list_size"
  by unfold_locales (simp_all add: not_larger_frame, blast intro: not_larger_trans, simp_all add: smaller_def)

interpretation streams: list_free_frame "not_larger (entry_count Q)" "smaller (entry_count Q)" for Q
  by unfold_locales (simp_all add: not_larger_frame, blast intro: not_larger_trans, simp_all add: smaller_def subseq_count)

definition keeps_wf :: "keyspace \<Rightarrow> keyspace \<Rightarrow> bool" where
  "keeps_wf ks ks' \<longleftrightarrow> (ks_wf ks \<longrightarrow> ks_wf ks')"

definition wf_after :: "value_data option \<Rightarrow> value_data \<Rightarrow> bool" where
  "wf_after old d \<longleftrightarrow> ((\<forall>d0. old = Some d0 \<longrightarrow> value_wf d0) \<longrightarrow> value_wf d)"

lemma keeps_wf_insert: "wf_after (map_option vdata (hm_get ks k)) (vdata e) \<Longrightarrow> keeps_wf ks (hm_insert k e ks)"
  by (auto simp: keeps_wf_def wf_after_def intro!: ks_wf_insert dest: ks_wf_get)

interpretation wf_lists: list_free_frame keeps_wf wf_after
  by unfold_locales (simp_all add: keeps_wf_insert, auto simp: keeps_wf_def wf_after_def ks_wf_remove)

interpretation wf_streams: stream_free_frame keeps_wf wf_after
  by unfold_locales (auto simp: wf_after_def)

end
