(* ===== verification/Lua_Frame.thy ===== *)
theory Lua_Frame
  imports Lua_Dispatch Frames
begin

text \<open>
  The commands of a script satisfy the frame of \<open>command_frame\<close>, all but the few that grow
  a list or a stream.
\<close>

section \<open>Replies\<close>

context command_frame begin

lemma K_reply [simp]: "K ks (snd (reply f p)) = K ks (snd p)"
  by (auto simp: reply_def split: prod.splits sum.splits)

lemma K_reply_or_fail [simp]: "K ks (snd (reply_or_fail f p)) = K ks (snd p)"
  by (auto simp: reply_or_fail_def split: prod.splits sum.splits)

lemma K_outcome [simp]: "K ks (snd (outcome p)) = K ks (snd p)"
  by (auto simp: outcome_def split: prod.splits sum.splits)

lemma K_then_drop: "K ks (snd p) \<Longrightarrow> K ks (snd (then_drop key p))"
  by (auto simp: then_drop_def K_drop split: prod.splits)

lemma K_with_int: "(\<And>n. K ks (snd (f n))) \<Longrightarrow> K ks (snd (with_int a ks f))"
  by (auto simp: with_int_def K_refl split: option.splits)

end

section \<open>Keys, hashes, sets and sorted sets\<close>

context command_frame begin

lemma K_get [frame_intros]: "K ks (snd (lua_get now args ks))"
  by (auto simp: lua_get_def K_refl K_read split: list.split)

lemma K_set [frame_intros]: "K ks (snd (lua_set now args ks))"
proof -
  have "K ks (hm_insert key e (expire_key now key ks))" if "new_string now v ttl = Some e" for key v ttl e
  proof -
    from that have "vdata e = StringV v" by (auto simp: new_string_def split: option.splits)
    then show ?thesis by (intro K_trans [OF K_expire [where now = now and key = key] K_insert]) (simp add: V_string)
  qed
  then have "K ks (snd (case new_string now v ttl of None \<Rightarrow> (Panic, expire_key now key ks)
      | Some e \<Rightarrow> (Reply ok_status, hm_insert key e (expire_key now key ks))))" for key v ttl
    by (simp add: K_expire split: option.split)
  then show ?thesis
    by (simp add: lua_set_def Let_def K_refl split: list.split sum.split)
qed

lemma K_del [frame_intros]: "K ks (snd (lua_del now args ks))"
  by (auto simp: lua_del_def K_refl split_beta Let_def intro!: K_loop K_remove)

lemma K_exists [frame_intros]: "K ks (snd (lua_exists now args ks))"
  by (auto simp: lua_exists_def K_refl split_beta Let_def intro!: K_loop K_remove split: option.split)

lemma K_expire_in: "K ks (snd (lua_expire_in cmd unit_of now args ks))"
proof -
  have "K ks (hm_insert key (e\<lparr>expires_at := at\<rparr>) ks)" if "hm_get ks key = Some e" for key e at
    using that by (intro K_insert) (simp add: V_refl)
  then show ?thesis
    by (auto simp: lua_expire_in_def K_refl K_remove split: list.split option.split)
qed

lemma K_expire_cmds [frame_intros]:
  "K ks (snd (lua_expire now args ks))" "K ks (snd (lua_pexpire now args ks))"
  by (simp_all add: lua_expire_def lua_pexpire_def K_expire_in)

lemma K_hash_cmds [frame_intros]:
  "K ks (snd (lua_hset now args ks))" "K ks (snd (lua_hget now args ks))" "K ks (snd (lua_hdel now args ks))"
  "K ks (snd (lua_hvals now args ks))" "K ks (snd (lua_hgetall now args ks))"
  "K ks (snd (lua_hexists now args ks))" "K ks (snd (lua_hincrby now args ks))"
  by (auto simp: lua_hset_def lua_hget_def lua_hdel_def lua_hvals_def lua_hgetall_def lua_hexists_def
      lua_hincrby_def K_refl K_read split_beta hset_loop.loop_inv hdel_loop.loop_inv simp del: count_loop.simps
      intro!: K_create_hash K_update_hash K_then_drop split: list.split option.split sum.split)

lemma K_set_cmds [frame_intros]:
  "K ks (snd (lua_sadd now args ks))" "K ks (snd (lua_smembers now args ks))"
  "K ks (snd (lua_sismember now args ks))" "K ks (snd (lua_srem now args ks))"
  by (auto simp: lua_sadd_def lua_smembers_def lua_sismember_def lua_srem_def K_refl K_read split_beta
      sadd_loop.loop_inv srem_loop.loop_inv simp del: count_loop.simps
      intro!: K_create_set K_update_set K_then_drop split: list.split)

end

lemma lua_zadd_loop_wf: "zs_wf z \<Longrightarrow> zs_wf (snd (lua_zadd_loop ps n z))"
  by (induction ps n z rule: lua_zadd_loop.induct) (auto simp: split_beta Let_def zs_wf_insert split: option.splits)

context command_frame begin

lemma K_zset_cmds [frame_intros]:
  "K ks (snd (lua_zadd now args ks))" "K ks (snd (lua_zrem now args ks))"
  "K ks (snd (lua_zrange disp now args ks))" "K ks (snd (lua_zrangebyscore disp now args ks))"
  "K ks (snd (lua_zremrangebyscore now args ks))" "K ks (snd (lua_zcard now args ks))"
  "K ks (snd (lua_zscore disp now args ks))"
  by (auto simp: lua_zadd_def lua_zrem_def lua_zrange_def lua_zrangebyscore_def lua_zremrangebyscore_def
      lua_zcard_def lua_zscore_def K_refl K_read split_beta Let_def lua_zadd_loop_wf zs_fold_remove zrem_loop.loop_inv
      simp del: count_loop.simps intro!: K_create_zset K_update_zset K_then_drop split: list.split option.split)

end

section \<open>Lists that do not grow\<close>

context command_frame begin

lemma K_pop: "K ks (snd (lua_pop cmd side now args ks))"
  by (auto simp: lua_pop_def K_refl intro!: K_list pop_list_length split: list.split option.split)

lemma K_list_cmds [frame_intros]:
  "K ks (snd (lua_lpop now args ks))" "K ks (snd (lua_rpop now args ks))"
  "K ks (snd (lua_lrange now args ks))" "K ks (snd (lua_llen now args ks))"
  "K ks (snd (lua_lindex now args ks))"
  by (auto simp: lua_lpop_def lua_rpop_def lua_lrange_def lua_llen_def lua_lindex_def K_pop K_refl K_read
      intro!: K_with_int split: list.split)

lemma K_lrem [frame_intros]: "K ks (snd (lua_lrem now args ks))"
proof -
  have "length ys \<le> length xs" if "snd (let (removed, zs) = lrem_list n v xs in (Inr (int removed) :: i64 result, unless_empty zs)) = Some ys"
    for n v xs ys
    using that lrem_list_length [of n v xs] by (auto simp: split_beta Let_def unless_empty_eq)
  then show ?thesis
    by (auto simp: lua_lrem_def K_refl intro!: K_with_int K_list split: list.split)
qed

lemma K_lset [frame_intros]: "K ks (snd (lua_lset now args ks))"
  by (auto simp: lua_lset_def K_refl intro!: K_with_int K_list split: list.split option.splits)

lemma K_ltrim [frame_intros]: "K ks (snd (lua_ltrim now args ks))"
  by (auto simp: lua_ltrim_def K_refl unless_empty_eq min_le_iff_disj intro!: K_with_int K_list
      split: list.split option.splits)

end

section \<open>Streams that do not grow\<close>

context command_frame begin

lemma K_stream_reads [frame_intros]:
  "K ks (snd (lua_xread now args ks))" "K ks (snd (lua_xlen now args ks))"
  "K ks (snd (lua_xrange now args ks))" "K ks (snd (lua_xrevrange now args ks))"
  by (auto simp: lua_xread_def lua_xlen_def lua_xrange_def lua_xrevrange_def lua_xrange_dir_def K_refl K_read
      K_xread_loop Let_def split_beta split: list.split sum.split option.split)

lemma K_xdel [frame_intros]: "K ks (snd (lua_xdel now args ks))"
proof -
  have "stream_wf (s\<lparr>entries := snd (count_loop xdel_step ids (entries s))\<rparr>)" if "stream_wf s" for s ids
    using that by (auto simp: stream_wf_def xdel_loop_filter)
  then show ?thesis
    by (auto simp: lua_xdel_def K_refl split_beta Let_def subseq_xdel_loop intro!: K_update_stream
        simp del: count_loop.simps split: list.split)
qed

lemma K_xack [frame_intros]: "K ks (snd (lua_xack now args ks))"
  by (auto simp: lua_xack_def K_refl ack_loop_wf intro!: K_update_group simp del: count_loop.simps split: list.split)

lemma K_xclaim [frame_intros]: "K ks (snd (lua_xclaim now args ks))"
  by (auto simp: lua_xclaim_def K_refl Let_def intro!: K_update_group dest: xclaim_loop_wf
      simp del: xclaim_options.simps split: list.split option.split)

end

section \<open>Every command but the growing ones\<close>

definition growing_commands :: "string set" where
  "growing_commands = {''LPUSH'', ''RPUSH'', ''LINSERT'', ''LMOVE'', ''RPOPLPUSH'', ''XADD''}"

context command_frame begin

lemma K_command:
  assumes "map_of (lua_commands disp ms) cmd = Some f" and "cmd \<notin> growing_commands"
  shows "K ks (snd (f now args ks))"
proof -
  have "\<forall>(c, f) \<in> set (lua_commands disp ms). c \<in> growing_commands \<or> K ks (snd (f now args ks))"
    by (simp only: lua_commands_def list.set ball_simps prod.case)
       (simp add: frame_intros growing_commands_def)
  moreover from assms(1) have "(cmd, f) \<in> set (lua_commands disp ms)" by (rule map_of_SomeD)
  ultimately show ?thesis using assms(2) by blast
qed

end

section \<open>The growing commands\<close>

text \<open>An outcome that does not count as a list having grown.\<close>

definition no_list_growth :: "string \<Rightarrow> lua_outcome \<Rightarrow> bool" where
  "no_list_growth cmd r \<longleftrightarrow> (case r of Reply v \<Rightarrow> \<not> is_list_mutation cmd v | _ \<Rightarrow> True)"

context list_free_frame begin

lemma K_move_reply: "K ks (snd (move_reply (lmove_atomic now src dst a b ks)))"
  using K_move [of ks now src dst a b] by (simp add: move_reply_def split_beta)

lemma K_push: "K ks (snd (lua_push cmd side now args ks))"
  by (auto simp: lua_push_def K_refl Let_def intro!: K_create V_any_list split: list.split)

lemma K_growing_lists [frame_intros]:
  "K ks (snd (lua_lpush now args ks))" "K ks (snd (lua_rpush now args ks))"
  "K ks (snd (lua_linsert now args ks))" "K ks (snd (lua_lmove now args ks))"
  "K ks (snd (lua_rpoplpush now args ks))"
  by (auto simp: lua_lpush_def lua_rpush_def lua_linsert_def lua_lmove_def lua_rpoplpush_def K_push K_refl
      K_list_update K_move_reply split: list.split sum.split)

lemma K_command_lists:
  assumes "map_of (lua_commands disp ms) cmd = Some f" and "cmd \<noteq> ''XADD''"
  shows "K ks (snd (f now args ks))"
proof (cases "cmd \<in> growing_commands")
  case True
  with assms show ?thesis
    by (auto simp: growing_commands_def lua_commands_def frame_intros)
qed (rule K_command [OF assms(1)])

end

lemma lua_xadd_stream_wf:
  "hm_wf flds \<Longrightarrow> stream_wf s \<Longrightarrow> stream_wf (snd (lua_xadd_stream ms i flds s))"
  by (auto simp: lua_xadd_stream_def stream_wf_insert split: sum.split)

context stream_free_frame begin

lemma K_xadd [frame_intros]: "K ks (snd (lua_xadd ms now args ks))"
proof -
  have "K ks (snd (create_key now key new_stream (modify_kind stream_of StreamV (lua_xadd_stream ms i (hm_collect fvs))) ks))"
    for key i fvs
    by (rule K_create, drule stream_kind.wrap_proj) (auto intro!: V_any_stream lua_xadd_stream_wf)
  then show ?thesis
    by (auto simp: lua_xadd_def K_refl split: list.split)
qed

end

end
