(* ===== verification/Lua_Facts.thy ===== *)
theory Lua_Facts
  imports Lua_Frame
begin

text \<open>
  What scripts guarantee: the structural invariant is kept, blocked readers are woken when a
  list or a stream has grown, the cached scripts run as given, and the commands of a script
  agree with the methods of the store.
\<close>

section \<open>One command\<close>

lemma command_wf:
  assumes "map_of (lua_commands disp ms) cmd = Some f"
  shows "keeps_wf ks (snd (f now args ks))"
proof (cases "cmd = ''XADD''")
  case True
  with assms have "f = lua_xadd ms" by (simp add: lua_commands_def)
  then show ?thesis by (simp add: wf_streams.K_xadd)
qed (rule wf_lists.K_command_lists [OF assms])

lemma command_streams:
  assumes "map_of (lua_commands disp ms) cmd = Some f" and "cmd \<noteq> ''XADD''"
  shows "not_larger (entry_count Q) ks (snd (f now args ks))"
  by (rule streams.K_command_lists [OF assms])

text \<open>XADD says when it has added: a reply that is no error.\<close>

lemma xadd_streams:
  assumes "\<not> (\<exists>v. fst (lua_xadd ms now args ks) = Reply v \<and> is_xadd_success ''XADD'' v)"
  shows "not_larger (entry_count Q) ks (snd (lua_xadd ms now args ks))"
proof -
  have add: "not_larger (entry_count Q) ks (snd (create_key now key new_stream (modify_kind stream_of StreamV f) ks))"
    if f: "f = lua_xadd_stream ms i flds"
      and no: "\<not> (\<exists>v. fst (outcome (create_key now key new_stream (modify_kind stream_of StreamV f) ks)) = Reply v \<and>
                     is_xadd_success ''XADD'' v)" for key i flds f
  proof -
    let ?ks1 = "expire_key now key ks"
    define e where "e = (case live now ks key of None \<Rightarrow> new_stream | Some e \<Rightarrow> e)"
    have created: "fst (create_key now key new_stream g ks) = fst (g (vdata e))"
      "snd (create_key now key new_stream g ks) = hm_insert key (e\<lparr>vdata := snd (g (vdata e))\<rparr>) ?ks1"
      for g :: "value_data \<Rightarrow> lua_outcome result \<times> value_data"
      by (simp_all add: create_key_def e_def Let_def split_beta)
    have "smaller (entry_count Q) (map_option vdata (live now ks key)) (snd (modify_kind stream_of StreamV f (vdata e)))"
    proof (cases "stream_of (vdata e)")
      case None
      then show ?thesis
        by (auto simp: modify_kind_def smaller_def e_def split: option.splits)
    next
      case (Some s)
      then have d: "vdata e = StreamV s" by (rule stream_kind.wrap_proj)
      from no d have "snd (f s) = s"
        by (auto simp: f lua_xadd_stream_def created outcome_def modify_kind_def is_xadd_success_def split_beta
            split: sum.splits)
      with d show ?thesis
        by (auto simp: modify_kind_def smaller_def e_def new_stream_value_def split_beta split: option.splits)
    qed
    then have "not_larger (entry_count Q) ?ks1 (snd (create_key now key new_stream (modify_kind stream_of StreamV f) ks))"
      unfolding created by (intro not_larger_insert) simp
    then show ?thesis by (rule not_larger_trans [OF streams.K_expire])
  qed
  show ?thesis
    using assms by (auto simp: lua_xadd_def not_larger_refl intro!: add [OF refl] split: list.split)
qed

text \<open>
  A push answers the new length, an insertion a positive length and a move the element it
  moved; any other outcome leaves no list longer than it was.
\<close>

lemma push_lists:
  assumes "\<not> (\<exists>n. fst (lua_push cmd side now args ks) = Reply (RInt n))"
  shows "not_larger list_size ks (snd (lua_push cmd side now args ks))"
proof -
  have push: "not_larger list_size ks (snd (create_key now key new_list (modify_kind list_of ListV f) ks))"
    if f: "\<forall>xs. \<exists>n. fst (f xs) = Inr n"
      and no: "\<nexists>n. fst (create_key now key new_list (modify_kind list_of ListV f) ks) = Inr n"
    for key and f :: "bytes list \<Rightarrow> int result \<times> bytes list"
  proof -
    let ?ks1 = "expire_key now key ks"
    define e where "e = (case live now ks key of None \<Rightarrow> new_list | Some e \<Rightarrow> e)"
    have created: "fst (create_key now key new_list g ks) = fst (g (vdata e))"
      "snd (create_key now key new_list g ks) = hm_insert key (e\<lparr>vdata := snd (g (vdata e))\<rparr>) ?ks1"
      for g :: "value_data \<Rightarrow> int result \<times> value_data"
      by (simp_all add: create_key_def e_def Let_def split_beta)
    have "list_of (vdata e) = None"
      using no f unfolding created
      by (cases "list_of (vdata e)") (force simp: modify_kind_def split_beta)+
    moreover from this have "live now ks key = Some e"
      by (auto simp: e_def split: option.splits)
    ultimately show ?thesis
      unfolding created
      by (intro not_larger_trans [OF lists.K_expire not_larger_insert])
         (auto simp: smaller_def modify_kind_def)
  qed
  show ?thesis
    using assms
    by (auto simp: lua_push_def reply_def not_larger_refl split_beta Let_def
        intro!: push split: list.split sum.splits)
qed

lemma linsert_lists:
  assumes "\<not> (\<exists>n. fst (lua_linsert now args ks) = Reply (RInt n) \<and> 0 < n)"
  shows "not_larger list_size ks (snd (lua_linsert now args ks))"
proof -
  have insert_step: "not_larger list_size ks (snd (update_list_key now key (Inr 0) f ks))"
    if no: "\<nexists>n. fst (update_list_key now key (Inr 0) f ks) = Inr n \<and> 0 < n"
      and f: "\<forall>xs. snd (f xs) = Some xs \<or> (\<exists>n > 0. fst (f xs) = Inr n)"
    for key and f :: "bytes list \<Rightarrow> int result \<times> bytes list option"
  proof -
    have "snd (f xs) = Some xs" if "hm_get ks key = Some e" "\<not> is_expired now e" "vdata e = ListV xs" for e xs
      using no f that by (fastforce simp: update_list_key_def split: prod.splits option.splits)
    then have "smaller list_size (Some (vdata e)) (ListV ys)"
      if "hm_get ks key = Some e" "\<not> is_expired now e" "vdata e = ListV xs" "f xs = (r, Some ys)" for e xs ys r
      using that by (fastforce simp: smaller_def)
    then show ?thesis
      by (auto simp: update_list_key_def not_larger_refl not_larger_remove intro!: not_larger_insert
          split: option.splits value_data.splits prod.splits)
  qed
  define step :: "bytes \<Rightarrow> insert_position \<Rightarrow> bytes \<Rightarrow> bytes list \<Rightarrow> int result \<times> bytes list option" where
    "step pivot position v = (\<lambda>xs. case find_position (\<lambda>x. x = pivot) xs of
         None \<Rightarrow> (Inr (- 1), Some xs)
       | Some pos \<Rightarrow>
           (let i = (case position of Before \<Rightarrow> pos | After \<Rightarrow> pos + 1); ys = insert_at i v xs
            in (Inr (int (length ys)), Some ys)))" for pivot position v
  have "\<forall>xs. snd (step pivot position v xs) = Some xs \<or> (\<exists>n > 0. fst (step pivot position v xs) = Inr n)"
    for pivot position v
    by (auto simp: step_def insert_at_def Let_def split: option.split)
  note step = insert_step [OF _ this]
  show ?thesis
    using assms unfolding lua_linsert_def step_def [symmetric]
    by (auto simp: reply_def not_larger_refl split_beta intro!: step split: list.split sum.splits)
qed

lemma move_lists:
  assumes "\<not> (\<exists>v. fst (move_reply (lmove_atomic now src dst a b ks)) = Reply (RBulk v))"
  shows "not_larger list_size ks (snd (move_reply (lmove_atomic now src dst a b ks)))"
proof -
  have "\<nexists>v. fst (lmove_atomic now src dst a b ks) = Inr (Some v)"
    using assms by (auto simp: move_reply_def reply_def bulk_or_nil_def split_beta)
  from lists.K_failed_move [OF this] show ?thesis
    by (simp add: move_reply_def split_beta)
qed

lemma command_lists:
  assumes "map_of (lua_commands disp ms) cmd = Some f"
    and "\<not> (\<exists>v. fst (f now args ks) = Reply v \<and> is_list_mutation cmd v)"
  shows "not_larger list_size ks (snd (f now args ks))"
proof (cases "cmd \<in> growing_commands")
  case True
  then have "cmd = ''LPUSH'' \<or> cmd = ''RPUSH'' \<or> cmd = ''LINSERT'' \<or> cmd = ''LMOVE'' \<or>
      cmd = ''RPOPLPUSH'' \<or> cmd = ''XADD''"
    by (simp only: growing_commands_def insert_iff empty_iff simp_thms)
  then show ?thesis
  proof (elim disjE, goal_cases)
    case 1
    with assms have "f = lua_push ''lpush'' LeftEnd" by (simp add: lua_commands_def lua_lpush_def)
    with 1 assms(2) show ?thesis by (auto simp: is_list_mutation_def intro!: push_lists)
  next
    case 2
    with assms have "f = lua_push ''rpush'' RightEnd" by (simp add: lua_commands_def lua_rpush_def)
    with 2 assms(2) show ?thesis by (auto simp: is_list_mutation_def intro!: push_lists)
  next
    case 3
    with assms have "f = lua_linsert" by (simp add: lua_commands_def)
    with 3 assms(2) show ?thesis by (auto simp: is_list_mutation_def intro!: linsert_lists)
  next
    case 4
    with assms have "f = lua_lmove" by (simp add: lua_commands_def)
    with 4 assms(2) show ?thesis
      by (auto simp: is_list_mutation_def lua_lmove_def not_larger_refl intro!: move_lists split: list.split sum.split)
  next
    case 5
    with assms have "f = lua_rpoplpush" by (simp add: lua_commands_def)
    with 5 assms(2) show ?thesis
      by (auto simp: is_list_mutation_def lua_rpoplpush_def not_larger_refl intro!: move_lists split: list.split)
  next
    case 6
    with assms have "f = lua_xadd ms" by (simp add: lua_commands_def)
    then show ?thesis by (simp add: lists.K_xadd)
  qed
qed (rule lists.K_command [OF assms(1)])

section \<open>One call\<close>

lemma dispatch_inner_data:
  assumes "dispatch_command_inner disp ms has_sender now cmd args ks = (r, ks', msgs)"
  shows "(\<exists>f. map_of (lua_commands disp ms) cmd = Some f \<and> f now args ks = (r, ks')) \<or>
    (map_of (lua_commands disp ms) cmd = None \<and> ks' = ks)"
  using assms unfolding dispatch_command_inner_def
  by (cases "map_of (lua_commands disp ms) cmd") (auto simp: Let_def split: prod.splits if_splits)

lemma dispatch_facts:
  assumes "dispatch_command disp ms has_sender now cmd args ks = (r, x, l, ks', msgs)"
  shows "keeps_wf ks ks'" and "\<not> l \<Longrightarrow> not_larger list_size ks ks'" and "\<not> x \<Longrightarrow> not_larger (entry_count Q) ks ks'"
proof -
  obtain r' ks1 msgs' where inner: "dispatch_command_inner disp ms has_sender now cmd args ks = (r', ks1, msgs')"
    by (metis prod_cases3)
  with assms have eq: "r' = r" "ks1 = ks'"
    and l: "l = (case r of Reply v \<Rightarrow> is_list_mutation cmd v | _ \<Rightarrow> False)"
    and x: "x = (case r of Reply v \<Rightarrow> is_xadd_success cmd v | _ \<Rightarrow> False)"
    by (auto simp: dispatch_command_def split: lua_outcome.splits)
  have "keeps_wf ks ks' \<and> (\<not> l \<longrightarrow> not_larger list_size ks ks') \<and> (\<not> x \<longrightarrow> not_larger (entry_count Q) ks ks')"
  proof (cases "map_of (lua_commands disp ms) cmd")
    case None
    with dispatch_inner_data [OF inner] eq have "ks' = ks" by simp
    then show ?thesis by (simp add: keeps_wf_def not_larger_refl)
  next
    case (Some f)
    with dispatch_inner_data [OF inner] eq have f: "f now args ks = (r, ks')" by simp
    have "keeps_wf ks ks'"
      using command_wf [OF Some, of ks now args] f by simp
    moreover have "not_larger list_size ks ks'" if "\<not> l"
    proof -
      from that have "\<not> (\<exists>v. fst (f now args ks) = Reply v \<and> is_list_mutation cmd v)"
        using f l by auto
      from command_lists [OF Some this] f show ?thesis by simp
    qed
    moreover have "not_larger (entry_count Q) ks ks'" if "\<not> x"
    proof (cases "cmd = ''XADD''")
      case True
      with Some have "f = lua_xadd ms" by (simp add: lua_commands_def)
      from \<open>\<not> x\<close> have "\<not> (\<exists>v. fst (lua_xadd ms now args ks) = Reply v \<and> is_xadd_success ''XADD'' v)"
        using True f x \<open>f = lua_xadd ms\<close> by auto
      from xadd_streams [OF this] f \<open>f = lua_xadd ms\<close> show ?thesis by simp
    next
      case False
      from command_streams [OF Some this, where ks = ks and now = now and args = args] f show ?thesis by simp
    qed
    ultimately show ?thesis by blast
  qed
  then show "keeps_wf ks ks'" and "\<not> l \<Longrightarrow> not_larger list_size ks ks'" and "\<not> x \<Longrightarrow> not_larger (entry_count Q) ks ks'"
    by blast+
qed

text \<open>An error value raises no flag: the commands that raise one answer otherwise.\<close>

lemma error_no_flags: "\<not> is_list_mutation cmd (RError msg)" "\<not> is_xadd_success cmd (RError msg)"
  by (simp_all add: is_list_mutation_def is_xadd_success_def)

definition call_keeps :: "lua_state \<Rightarrow> lua_state \<Rightarrow> bool" where
  "call_keeps st st' \<longleftrightarrow>
     keeps_wf (lua_data st) (lua_data st') \<and>
     (lua_list_growth st \<longrightarrow> lua_list_growth st') \<and> (lua_xadds st \<longrightarrow> lua_xadds st') \<and>
     (\<not> lua_list_growth st' \<longrightarrow> not_larger list_size (lua_data st) (lua_data st')) \<and>
     (\<not> lua_xadds st' \<longrightarrow> (\<forall>Q. not_larger (entry_count Q) (lua_data st) (lua_data st')))"

lemma call_keeps_refl: "call_keeps st st"
  by (simp add: call_keeps_def keeps_wf_def not_larger_refl)

lemma call_keeps_trans: "call_keeps a b \<Longrightarrow> call_keeps b c \<Longrightarrow> call_keeps a c"
  unfolding call_keeps_def keeps_wf_def by (auto intro: not_larger_trans)

lemma redis_call_keeps: "call_keeps st (snd (redis_call disp ms has_sender now protected args st))"
proof -
  have step: "call_keeps st (snd (let st1 = st\<lparr>lua_data := ks, lua_sent := lua_sent st @ msgs\<rparr> in
      case r of
        Panic \<Rightarrow> (LuaPanic, st1)
      | Fail msg \<Rightarrow> (lua_failure protected msg, st1)
      | Reply v \<Rightarrow>
          (case v of
             RError msg \<Rightarrow> (lua_failure protected msg, st1)
           | _ \<Rightarrow> (LuaOk (into_lua v),
                   st1\<lparr>lua_xadds := lua_xadds st1 \<or> x, lua_list_growth := lua_list_growth st1 \<or> l\<rparr>))))"
    if d: "dispatch_command disp ms has_sender now cmd cmd_args (lua_data st) = (r, x, l, ks, msgs)"
    for cmd cmd_args r x l ks msgs
  proof -
    have "\<not> l \<and> \<not> x" if "\<exists>msg. r = Reply (RError msg) \<or> r = Fail msg \<or> r = Panic"
      using d that by (auto simp: dispatch_command_def error_no_flags split_beta Let_def split: lua_outcome.splits)
    with dispatch_facts [OF d] show ?thesis
      by (auto simp: call_keeps_def Let_def split: lua_outcome.split redis_value.split)
  qed
  show ?thesis
    unfolding redis_call_def
    by (auto simp: call_keeps_refl Let_def simp del: lua_state.simps split: list.split lua_value.split sum.split prod.split intro!: step [unfolded Let_def])
qed

lemma run_lua_keeps: "call_keeps st (snd (run_lua disp clock has_sender t n st))"
proof (induction t arbitrary: n st)
  case (Done r)
  then show ?case by (simp add: call_keeps_refl)
next
  case (Invoke protected args k)
  obtain r st1 where c: "redis_call disp (snd (clock n)) has_sender (fst (clock n)) protected args st = (r, st1)"
    by fastforce
  have "call_keeps st st1"
    using redis_call_keeps [of st disp "snd (clock n)" has_sender "fst (clock n)" protected args] c by simp
  moreover have "call_keeps st1 (snd (run_lua disp clock has_sender (k r) (Suc n) st1))"
    by (rule Invoke) simp
  ultimately show ?case using c by (auto intro: call_keeps_trans)
qed

section \<open>Scripts\<close>

lemma run_script_state:
  assumes "run_script disp vm clock script keys argv st = (r, msgs, st')"
  obtains l where "call_keeps \<lparr>lua_data = data st, lua_sent = [], lua_xadds = False, lua_list_growth = False\<rparr> l"
    and "data st' = lua_data l" and "msgs = lua_sent l"
    and "scripts st' = scripts st" and "pubsub st' = pubsub st" and "shutdown_flag st' = shutdown_flag st"
    and "r \<noteq> EvalPanic \<Longrightarrow> lua_xadds l \<Longrightarrow> stream_notify st' = Suc (stream_notify st)"
    and "r \<noteq> EvalPanic \<Longrightarrow> lua_list_growth l \<Longrightarrow> list_notify st' = Suc (list_notify st)"
proof -
  obtain res l where e: "lua_execute disp vm clock script keys argv (data st) True = (res, l)" by fastforce
  have "call_keeps \<lparr>lua_data = data st, lua_sent = [], lua_xadds = False, lua_list_growth = False\<rparr> l"
    using run_lua_keeps e unfolding lua_execute_def by (metis snd_conv)
  then show thesis
    using assms e
    by (intro that [of l])
       (auto simp: run_script_def Let_def notify_streams_def notify_lists_def split: lua_result.splits if_splits)
qed

text \<open>
  C34. Whatever script EVAL or EVALSHA runs, and however it ends, the stored values are
  well-formed afterwards if they were before, and the subscriptions and the shutdown flag are
  untouched.
\<close>

theorem scripts_keep_types:
  assumes "ks_wf (data st)"
    and "eval disp sha1_hex vm clock script keys argv st = (r, msgs, st') \<or>
         evalsha disp vm clock sha keys argv st = (r, msgs, st')"
  shows "ks_wf (data st') \<and> pubsub st' = pubsub st \<and> shutdown_flag st' = shutdown_flag st"
proof -
  have run: "ks_wf (data st2) \<and> pubsub st2 = pubsub st1 \<and> shutdown_flag st2 = shutdown_flag st1"
    if "run_script disp vm clock s keys argv st1 = (r, msgs, st2)" "ks_wf (data st1)" for s st1 st2
    by (rule run_script_state [OF that(1)]) (use that(2) in \<open>auto simp: call_keeps_def keeps_wf_def\<close>)
  show ?thesis
    using assms run by (fastforce simp: eval_def evalsha_def split: option.splits)
qed

lemma script_wakes_readers:
  assumes "eval disp sha1_hex vm clock script keys argv st = (r, msgs, st') \<or>
           evalsha disp vm clock sha keys argv st = (r, msgs, st')"
    and "r \<noteq> EvalPanic"
  shows "((\<exists>key. size_at list_size (data st) key < size_at list_size (data st') key) \<longrightarrow>
            list_notify st' = Suc (list_notify st)) \<and>
    ((\<exists>key Q. size_at (entry_count Q) (data st) key < size_at (entry_count Q) (data st') key) \<longrightarrow>
            stream_notify st' = Suc (stream_notify st))"
proof -
  have run: "((\<exists>key. size_at list_size (data st1) key < size_at list_size (data st2) key) \<longrightarrow>
            list_notify st2 = Suc (list_notify st1)) \<and>
    ((\<exists>key Q. size_at (entry_count Q) (data st1) key < size_at (entry_count Q) (data st2) key) \<longrightarrow>
            stream_notify st2 = Suc (stream_notify st1))"
    if "run_script disp vm clock s keys argv st1 = (r, msgs, st2)" for s st1 st2
    by (rule run_script_state [OF that])
       (use assms(2) in \<open>auto simp: call_keeps_def not_larger_def not_le [symmetric]\<close>)
  show ?thesis
  proof (cases "eval disp sha1_hex vm clock script keys argv st = (r, msgs, st')")
    case True
    then show ?thesis using run [of script "st\<lparr>scripts := hm_insert (sha1_hex script) script (scripts st)\<rparr>" st']
      by (simp add: eval_def)
  next
    case False
    with assms(1) have e: "evalsha disp vm clock sha keys argv st = (r, msgs, st')" by blast
    show ?thesis
    proof (cases "hm_get (scripts st) sha")
      case None
      with e show ?thesis by (simp add: evalsha_def)
    next
      case (Some s)
      with e run [of s st st'] show ?thesis by (simp add: evalsha_def)
    qed
  qed
qed

text \<open>
  Blocked readers are woken: when a script that did not panic, finished or failed, has
  left a list or a stream longer than it found it, the handle of the list readers or of the
  stream readers has been notified.
\<close>

theorem scripts_wake_readers:
  assumes "eval disp sha1_hex vm clock script keys argv st = (r, msgs, st') \<or>
           evalsha disp vm clock sha keys argv st = (r, msgs, st')"
    and "r \<noteq> EvalPanic"
  shows "((\<exists>key. size_at list_size (data st) key < size_at list_size (data st') key) \<longrightarrow>
            list_notify st' = Suc (list_notify st)) \<and>
    ((\<exists>key Q. size_at (entry_count Q) (data st) key < size_at (entry_count Q) (data st') key) \<longrightarrow>
            stream_notify st' = Suc (stream_notify st))"
  using assms by (rule script_wakes_readers)

text \<open>
  EVALSHA with the digest of a cached script is EVAL of that script; with any other
  digest it fails with NOSCRIPT and changes nothing.  A script that was evaluated once, or
  loaded, is cached.
\<close>

theorem evalsha_is_eval:
  assumes "scripts_ok sha1_hex (scripts st)"
  shows "(\<forall>script. hm_get (scripts st) sha = Some script \<longrightarrow>
            evalsha disp vm clock sha keys argv st = eval disp sha1_hex vm clock script keys argv st) \<and>
    (hm_get (scripts st) sha = None \<longrightarrow>
       evalsha disp vm clock sha keys argv st = (EvalErr ''NOSCRIPT No matching script. Use EVAL.'', [], st)) \<and>
    hm_get (scripts (snd (script_load sha1_hex s st))) (sha1_hex s) = Some s \<and>
    hm_get (scripts (snd (snd (eval disp sha1_hex vm clock s keys argv st)))) (sha1_hex s) = Some s"
proof (intro conjI allI impI)
  fix script assume g: "hm_get (scripts st) sha = Some script"
  with assms have sha: "sha = sha1_hex script" by (auto simp: scripts_ok_def)
  with g have "hm_insert (sha1_hex script) script (scripts st) = scripts st"
    by (intro hm_insert_same) simp
  with g show "evalsha disp vm clock sha keys argv st = eval disp sha1_hex vm clock script keys argv st"
    by (simp add: evalsha_def eval_def)
next
  obtain r msgs st' where e: "run_script disp vm clock s keys argv (st\<lparr>scripts := hm_insert (sha1_hex s) s (scripts st)\<rparr>) = (r, msgs, st')"
    by (metis prod_cases3)
  have "scripts st' = hm_insert (sha1_hex s) s (scripts st)"
    by (rule run_script_state [OF e]) simp
  then show "hm_get (scripts (snd (snd (eval disp sha1_hex vm clock s keys argv st)))) (sha1_hex s) = Some s"
    unfolding eval_def e by simp
qed (simp_all add: evalsha_def script_load_def)

section \<open>Witnesses\<close>

text \<open>A script that pushes an element and then fails with a Lua error.\<close>

definition push_then_fail :: lua_vm where
  "push_then_fail script keys argv =
     Invoke False [LStr ''LPUSH'', LStr ''q'', LStr ''x''] (\<lambda>_. Done (LuaErr script))"

lemma arg_upper_ascii: "list_all (\<lambda>c. code c < 128) s \<Longrightarrow> arg_upper s = to_ascii_uppercase s"
  by (simp add: arg_upper_def list_all_iff utf8_lossy_valid [OF utf8_valid_ascii] to_uppercase_ascii)

lemma upper_samples:
  "arg_upper ''LPUSH'' = ''LPUSH''" "arg_upper ''SET'' = ''SET''" "arg_upper ''EX'' = ''EX''"
  by (subst arg_upper_ascii; code_simp)+

lemma lpush_sample:
  "redis_call disp ms has_sender now protected [LStr ''LPUSH'', LStr ''q'', LStr ''x'']
     \<lparr>lua_data = [], lua_sent = [], lua_xadds = False, lua_list_growth = False\<rparr> =
   (LuaOk (LInt 1), \<lparr>lua_data = [(''q'', \<lparr>vdata = ListV [''x''], expires_at = None\<rparr>)], lua_sent = [],
                     lua_xadds = False, lua_list_growth = True\<rparr>)"
proof -
  have f: "map_of (lua_commands disp ms) ''LPUSH'' = Some lua_lpush"
    by (simp add: lua_commands_def)
  have p: "lua_lpush now [''q'', ''x''] [] =
      (Reply (RInt 1), [(''q'', \<lparr>vdata = ListV [''x''], expires_at = None\<rparr>)])"
    by (simp add: lua_lpush_def lua_push_def reply_def create_key_def expire_key_def hm_get_def hm_insert_def
        modify_kind_def new_list_def)
  show ?thesis
    by (simp add: redis_call_def upper_samples dispatch_command_def dispatch_command_inner_def f p
        is_list_mutation_def is_xadd_success_def)
qed

lemma push_then_fail_run:
  "eval disp sha1_hex push_then_fail clock ''boom'' [] [] new_store =
     (EvalErr ''boom'', [],
      \<lparr>data = [(''q'', \<lparr>vdata = ListV [''x''], expires_at = None\<rparr>)], scripts = [(sha1_hex ''boom'', ''boom'')],
       pubsub = new_registry, stream_notify = 0, list_notify = 1, shutdown_flag = False\<rparr>)"
  by (simp add: eval_def run_script_def lua_execute_def push_then_fail_def lpush_sample new_store_def hm_insert_def
      notify_lists_def)

theorem scripts_keep_types_witness:
  "\<exists>r msgs st'. eval (\<lambda>_. []) (\<lambda>s. s) push_then_fail (\<lambda>_. (0, 0)) ''boom'' [] [] new_store = (r, msgs, st') \<and>
     r = EvalErr ''boom'' \<and> data st' \<noteq> [] \<and> ks_wf (data st') \<and> pubsub st' = new_registry"
proof -
  have "ks_wf (data new_store)" by (simp add: new_store_def ks_wf_def)
  from scripts_keep_types [OF this disjI1 [OF push_then_fail_run]] show ?thesis
    unfolding push_then_fail_run by (simp add: new_store_def)
qed

theorem scripts_wake_readers_witness:
  "\<exists>r msgs st'. eval (\<lambda>_. []) (\<lambda>s. s) push_then_fail (\<lambda>_. (0, 0)) ''boom'' [] [] new_store = (r, msgs, st') \<and>
     r = EvalErr ''boom'' \<and> size_at list_size (data st') ''q'' = 1 \<and> list_notify st' = 1"
proof -
  let ?st = "\<lparr>data = [(''q'', \<lparr>vdata = ListV [''x''], expires_at = None\<rparr>)], scripts = [(''boom'', ''boom'')],
       pubsub = new_registry, stream_notify = 0, list_notify = 1, shutdown_flag = False\<rparr>"
  have s: "size_at list_size (data new_store) ''q'' < size_at list_size (data ?st) ''q''" "size_at list_size (data ?st) ''q'' = 1"
    by (simp_all add: size_at_def new_store_def hm_get_def)
  have "list_notify ?st = Suc (list_notify new_store)"
    using scripts_wake_readers [OF disjI1 [OF push_then_fail_run [where disp = "\<lambda>_. []" and sha1_hex = "\<lambda>s. s" and clock = "\<lambda>_. (0, 0)"]]] s(1)
    by blast
  with s(2) show ?thesis unfolding push_then_fail_run by (simp add: new_store_def)
qed

theorem evalsha_is_eval_witness:
  "\<exists>st. evalsha (\<lambda>_. []) push_then_fail (\<lambda>_. (0, 0)) ''boom'' [] [] st =
        eval (\<lambda>_. []) (\<lambda>s. s) push_then_fail (\<lambda>_. (0, 0)) ''boom'' [] [] st \<and>
     evalsha (\<lambda>_. []) push_then_fail (\<lambda>_. (0, 0)) ''other'' [] [] st =
        (EvalErr ''NOSCRIPT No matching script. Use EVAL.'', [], st)"
proof -
  let ?st = "snd (script_load (\<lambda>s. s) ''boom'' new_store)"
  have ok: "scripts_ok (\<lambda>s. s) (scripts ?st)"
    by (rule scripts_ok_load) (simp add: new_store_def)
  have "hm_get (scripts ?st) ''boom'' = Some ''boom''" "hm_get (scripts ?st) ''other'' = None"
    by (simp_all add: script_load_def new_store_def)
  then show ?thesis
    using evalsha_is_eval [OF ok, of "''boom''"] evalsha_is_eval [OF ok, of "''other''"] by blast
qed

end
