(* ===== verification/Lua_Agreement.thy ===== *)
theory Lua_Agreement
  imports Lua_Facts
begin

text \<open>
  The commands of a script and the methods of the store.  The dispatcher of
  \<^verbatim>\<open>src/src/scripting.rs\<close> repeats the code of \<^verbatim>\<open>src/src/store.rs\<close>; here the two copies are
  compared: where they agree, and where they differ.
\<close>

section \<open>Arguments printed and parsed\<close>

lemma arg_i64_str [simp]: "in_i64 n \<Longrightarrow> arg_i64 (i64_str n) = Some n"
  by (simp add: arg_i64_def utf8_lossy_valid utf8_valid_i64_str parse_i64_i64_str)

definition flatten :: "('a \<times> 'a) list \<Rightarrow> 'a list" where
  "flatten ps = concat (map (\<lambda>(a, b). [a, b]) ps)"

lemma pair_up_flatten [simp]: "pair_up (flatten ps) = ps"
  by (induction ps) (auto simp: flatten_def)

lemma length_flatten [simp]: "length (flatten ps) = 2 * length ps"
  by (induction ps) (auto simp: flatten_def)

section \<open>Agreement\<close>

lemma get_agrees: "lua_get now [key] ks = reply bulk_or_nil (get_cmd now now key ks)"
  by (auto simp: lua_get_def get_cmd_def get_peek_def get_evict_def read_key_def with_kind_def
      split: option.split value_data.split)

lemma del_agrees:
  "lua_del now (k # keys) ks = (let (n, ks') = delete_cmd now (k # keys) ks in (Reply (RInt n), ks'))"
proof -
  have "(\<lambda>key ks. ((case hm_get ks key of Some e \<Rightarrow> \<not> is_expired now e | None \<Rightarrow> False), hm_remove key ks)) = delete_step now"
    by (simp add: delete_step_def fun_eq_iff)
  then show ?thesis by (simp only: lua_del_def delete_cmd_def list.distinct if_False)
qed

lemma expire_agrees:
  "in_i64 n \<Longrightarrow>
   (case expire_cmd now key n ks of
      Some (found, ks') \<Rightarrow> lua_expire now [key, i64_str n] ks = (Reply (flag_reply found), ks')
    | None \<Rightarrow> lua_expire now [key, i64_str n] ks = (Panic, ks))"
  by (auto simp: lua_expire_def lua_expire_in_def expire_cmd_def flag_reply_def split: option.split)

lemma hash_agrees:
  "ps \<noteq> [] \<Longrightarrow> lua_hset now (key # flatten ps) ks = reply RInt (hset now key ps ks)"
  "lua_hdel now (key # f # fs) ks = reply RInt (hdel now key (f # fs) ks)"
  "in_i64 n \<Longrightarrow> lua_hincrby now [key, f, i64_str n] ks = reply RInt (hincrby now key f n ks)"
  by (cases ps; simp add: lua_hset_def hset_def)
     (simp_all add: lua_hdel_def hdel_def then_drop_def lua_hincrby_def hincrby_def)

lemma set_agrees:
  "lua_sadd now (key # m # ms) ks = reply RInt (sadd now key (m # ms) ks)"
  "lua_srem now (key # m # ms) ks = reply RInt (srem now key (m # ms) ks)"
  by (simp_all add: lua_sadd_def sadd_def lua_srem_def srem_def then_drop_def)

lemma zset_agrees:
  "lua_zrem now (key # m # ms) ks = reply RInt (zrem now key (m # ms) ks)"
  "in_i64 i \<Longrightarrow> in_i64 j \<Longrightarrow>
   lua_zrange disp now [key, i64_str i, i64_str j] ks = reply (\<lambda>r. bulks (map fst r)) (zrange now key i j False ks)"
proof -
  show "lua_zrem now (key # m # ms) ks = reply RInt (zrem now key (m # ms) ks)"
    by (simp add: lua_zrem_def zrem_def then_drop_def)
  have "scored disp False ps = bulks (map fst (map (with_scores False) ps))" for ps
    by (induction ps) (auto simp: scored_def bulks_def with_scores_def)
  then show "in_i64 i \<Longrightarrow> in_i64 j \<Longrightarrow>
   lua_zrange disp now [key, i64_str i, i64_str j] ks = reply (\<lambda>r. bulks (map fst r)) (zrange now key i j False ks)"
    by (simp add: lua_zrange_def zrange_def reply_def read_key_def with_kind_def split: option.split)
qed

lemma push_agrees:
  "lua_lpush now (key # v # vs) ks = (let (r, woke, ks') = lpush now key (v # vs) ks in reply RInt (r, ks'))"
  "lua_rpush now (key # v # vs) ks = (let (r, woke, ks') = rpush now key (v # vs) ks in reply RInt (r, ks'))"
  by (simp_all add: lua_lpush_def lua_rpush_def lua_push_def lpush_def rpush_def split_beta Let_def)

lemma list_agrees:
  "lua_lpop now [key] ks = reply pop_reply (lpop now key None ks)"
  "lua_rpop now [key] ks = reply pop_reply (rpop now key None ks)"
  "in_i64 i \<Longrightarrow> in_i64 j \<Longrightarrow> lua_lrange now [key, i64_str i, i64_str j] ks = reply bulks (lrange now key i j ks)"
  "in_i64 n \<Longrightarrow> lua_lrem now [key, i64_str n, v] ks = reply RInt (lrem now key n v ks)"
  "in_i64 i \<Longrightarrow> lua_lset now [key, i64_str i, v] ks = reply (\<lambda>_. ok_status) (lset now key i v ks)"
  "in_i64 i \<Longrightarrow> in_i64 j \<Longrightarrow> lua_ltrim now [key, i64_str i, i64_str j] ks = reply (\<lambda>_. ok_status) (ltrim now key i j ks)"
  by (simp_all add: lua_lpop_def lua_rpop_def lua_pop_def lpop_def rpop_def lua_lrange_def lrange_def lua_lrem_def
      lrem_def lua_lset_def lset_def lua_ltrim_def ltrim_def with_int_def)

lemma end_samples:
  "parse_list_end (utf8_lossy ''LEFT'') = Inr LeftEnd" "parse_list_end (utf8_lossy ''RIGHT'') = Inr RightEnd"
  "parse_linsert_where (utf8_lossy ''BEFORE'') = Inr Before"
  by code_simp+

lemma move_agrees:
  "lua_lmove now [src, dst, ''LEFT'', ''RIGHT''] ks =
     (let (r, woke, ks') = lmove_atomic now src dst LeftEnd RightEnd ks in reply bulk_or_nil (r, ks'))"
  "lua_rpoplpush now [src, dst] ks =
     (let (r, woke, ks') = rpoplpush_atomic now src dst ks in reply bulk_or_nil (r, ks'))"
  "lua_linsert now [key, ''BEFORE'', pivot, v] ks = reply RInt (linsert now key Before pivot v ks)"
  by (simp_all add: lua_lmove_def end_samples move_reply_def lua_rpoplpush_def rpoplpush_atomic_def lua_linsert_def
      linsert_def del: utf8_lossy.simps)

lemma star_sample: "utf8_lossy ''*'' = ''*''"
  by code_simp

lemma xadd_agrees:
  assumes "fvs \<noteq> []"
  shows "lua_xadd ms now (key # ''*'' # flatten fvs) ks =
    (let (r, woke, ks') = xadd now ms key (hm_collect fvs) None ks in reply (\<lambda>i. RBulk (format_stream_id i)) (r, ks'))"
proof -
  have "outcome (create_key now key new_stream (modify_kind stream_of StreamV (lua_xadd_stream ms ''*'' fs)) ks) =
      reply (\<lambda>i. RBulk (format_stream_id i))
        (create_key now key new_stream (modify_kind stream_of StreamV (xadd_stream ms fs None)) ks)" for fs
    by (simp add: create_key_def outcome_def reply_def modify_kind_def lua_xadd_stream_def lua_xadd_id_def
        xadd_stream_def Let_def split_beta split: option.split)
  then show ?thesis
    using assms by (cases fvs) (simp_all add: lua_xadd_def star_sample xadd_def split_beta Let_def del: utf8_lossy.simps)
qed



section \<open>Where they differ\<close>

text \<open>
  ZADD in a script parses its scores one by one while it adds: the method of the store gets
  scores that are already numbers.
\<close>

definition add_scores :: "(bytes \<times> bytes) list \<Rightarrow> sorted_set \<Rightarrow> sorted_set" where
  "add_scores ps z = fold (\<lambda>(s, m) z. snd (zs_insert m (f64_or_zero (parse_f64 (utf8_lossy s))) z)) ps z"

lemma lua_zadd_loop_partial:
  assumes "\<forall>p \<in> set ps. parse_f64 (utf8_lossy (fst p)) \<noteq> None" and "parse_f64 (utf8_lossy s) = None"
  shows "lua_zadd_loop (ps @ (s, m) # rest) n z = (Inl ''ERR value is not a valid float'', add_scores ps z)"
  using assms
proof (induction ps arbitrary: n z)
  case (Cons p ps)
  then obtain x where "parse_f64 (utf8_lossy (fst p)) = Some x" by auto
  with Cons show ?case
    by (cases p) (simp add: add_scores_def f64_or_zero_def split_beta Let_def)
qed (simp add: add_scores_def)

text \<open>
  C36. A ZADD in a script that meets an invalid score fails after it has added the pairs before
  it, and when there are none it leaves an empty sorted set under a key that was missing.
\<close>

theorem lua_zadd_partial:
  assumes "pair_up sms = ps @ (s, m) # rest" and "even (length sms)"
    and "\<forall>p \<in> set ps. parse_f64 (utf8_lossy (fst p)) \<noteq> None" and "parse_f64 (utf8_lossy s) = None"
    and "kind_at zset_of now ks key = Inr v"
  shows "\<exists>ks'. lua_zadd now (key # sms) ks = (Fail ''ERR value is not a valid float'', ks') \<and>
    live now ks' =
      put key (SortedSetV (add_scores ps (case v of None \<Rightarrow> new_sorted_set_value | Some z \<Rightarrow> z))) (live now ks)"
proof -
  let ?f = "\<lambda>z. let (r, z') = lua_zadd_loop (pair_up sms) 0 z in (Inr r :: (string + int) result, z')"
  let ?c = "create_key now key new_sorted_set (modify_kind zset_of SortedSetV ?f) ks"
  have f: "?f z = (Inr (Inl ''ERR value is not a valid float''), add_scores ps z)" for z
    by (simp add: assms(1) lua_zadd_loop_partial [OF assms(3,4)])
  have "length sms \<ge> 2"
    using assms(1) by (induction sms rule: pair_up.induct) auto
  then have "lua_zadd now (key # sms) ks = reply_or_fail RInt ?c"
    using assms(2) by (simp add: lua_zadd_def)
  moreover have "fst ?c = Inr (Inl ''ERR value is not a valid float'')"
    unfolding f using assms(5) by (subst zset_kind.create_typed_result [where ?v0.0 = new_sorted_set_value]) simp_all
  moreover have "live now (snd ?c) =
      put key (SortedSetV (add_scores ps (case v of None \<Rightarrow> new_sorted_set_value | Some z \<Rightarrow> z))) (live now ks)"
    unfolding f using assms(5) by (subst zset_kind.create_typed_view [where ?v0.0 = new_sorted_set_value]) simp_all
  ultimately show ?thesis
    by (auto simp: reply_or_fail_def split_beta)
qed

theorem lua_zadd_partial_witness:
  "\<exists>ks'. lua_zadd 0 [''z'', ''bad'', ''m''] [] = (Fail ''ERR value is not a valid float'', ks') \<and>
     live 0 ks' ''z'' = Some \<lparr>vdata = SortedSetV new_sorted_set_value, expires_at = None\<rparr>"
proof -
  have "parse_f64 (utf8_lossy ''bad'') = None" by code_simp
  from lua_zadd_partial [where sms = "[''bad'', ''m'']" and ps = "[]" and rest = "[]" and s = "''bad''" and m = "''m''"
      and now = 0 and ks = "[]" and key = "''z''" and v = None, OF _ _ _ this]
  obtain ks' where "lua_zadd 0 [''z'', ''bad'', ''m''] [] = (Fail ''ERR value is not a valid float'', ks')"
    "live 0 ks' = put ''z'' (SortedSetV new_sorted_set_value) (live 0 [])"
    by (auto simp: kind_at_def add_scores_def)
  then show ?thesis by (auto simp: put_def)
qed

section \<open>A panic in a script\<close>

text \<open>A script that pushes an element and then calls SET with a time to live that overflows.\<close>

definition push_then_overflow :: lua_vm where
  "push_then_overflow script keys argv =
     Invoke False [LStr ''LPUSH'', LStr ''q'', LStr ''x'']
       (\<lambda>_. Invoke False [LStr ''SET'', LStr ''k'', LStr ''v'', LStr ''EX'', LStr ''10000000000000000000''] Done)"

lemma huge_seconds: "arg_u64 ''10000000000000000000'' = Some 10000000000000000000"
proof -
  have d: "digit_val CHR ''0'' = Some 0" "digit_val CHR ''1'' = Some 1" by code_simp+
  have "utf8_lossy ''10000000000000000000'' = ''10000000000000000000''" by code_simp
  then show ?thesis
    unfolding arg_u64_def by (simp only:) (simp add: parse_u64_def parse_nat_def d)
qed

lemma overflowing_set:
  assumes "0 \<le> now"
  shows "fst (lua_set now [''k'', ''v'', ''EX'', ''10000000000000000000''] ks) = Panic"
    and "size_at m (snd (lua_set now [''k'', ''v'', ''EX'', ''10000000000000000000''] ks)) ''q'' = size_at m ks ''q''"
proof -
  have o: "set_options [''EX'', ''10000000000000000000''] (False, False, None) =
      Inr (False, False, Some (from_secs 10000000000000000000))"
    by (simp add: upper_samples huge_seconds)
  have n: "new_string now ''v'' (Some (from_secs 10000000000000000000)) = None"
    using assms by (simp add: new_string_def instant_checked_add_def from_secs_def)
  show "fst (lua_set now [''k'', ''v'', ''EX'', ''10000000000000000000''] ks) = Panic"
    by (simp only: lua_set_def list.case o) (simp add: n)
  show "size_at m (snd (lua_set now [''k'', ''v'', ''EX'', ''10000000000000000000''] ks)) ''q'' = size_at m ks ''q''"
    by (simp only: lua_set_def list.case o) (simp add: n size_at_def)
qed



end
