(* ===== verification/Store_Frame.thy ===== *)
theory Store_Frame
  imports Frames
begin

text \<open>
  The commands of the store satisfy the frame of \<open>command_frame\<close>: all but LPUSH, RPUSH,
  LINSERT, LMOVE, RPOPLPUSH and XADD, which grow a list or a stream.
\<close>

section \<open>Lemmas on the operations\<close>

lemma subseq_fold_remove: "subseq (fold btree_remove ids m) m"
proof (induction ids arbitrary: m)
  case (Cons i ids)
  have "subseq (btree_remove i m) m" by (simp add: bt_remove_def)
  with Cons [of "btree_remove i m"] show ?case by (auto intro: subseq_order.trans)
qed simp

lemma subseq_btree_remove: "subseq (btree_remove i m) m"
  by (simp add: bt_remove_def)

lemma subseq_trim_maxlen: "subseq (snd (trim_maxlen mx m)) m"
proof (induction mx m rule: trim_maxlen.induct)
  case (1 mx m)
  show ?case
  proof (cases "mx < length m")
    case True
    then obtain p ps where m: "m = p # ps" by (cases m) auto
    have "subseq (snd (trim_maxlen mx (btree_remove (fst p) (p # ps)))) (btree_remove (fst p) (p # ps))"
      by (rule 1 [OF True m])
    then show ?thesis
      using True m by (subst trim_maxlen.simps)
        (auto simp: split_beta Let_def intro: subseq_order.trans subseq_btree_remove)
  qed (simp add: trim_maxlen.simps)
qed

lemma subseq_xtrim: "subseq (entries (snd (xtrim_stream maxlen minid s))) (entries s)"
  by (auto simp: xtrim_stream_def trim_minid_def split_beta Let_def
      intro: subseq_fold_remove subseq_trim_maxlen subseq_order.trans split: option.split)

lemma group_wf_read_step: "group_wf g \<Longrightarrow> group_wf (snd (read_group_step now cname id_str cnt s g))"
  by (auto simp: read_group_step_def Let_def deliver_wf split: option.split)

lemma group_wf_autoclaim: "group_wf g \<Longrightarrow> group_wf (snd (autoclaim_group now cname min_idle start cnt s g))"
proof -
  have "group_wf (snd (snd (fold (autoclaim_step now cname s) qs (c, d, g))))" if "group_wf g" for qs c d g
    using that
    by (induction qs arbitrary: c d g) (auto simp: autoclaim_step_def split_beta Let_def split: option.split)
  then show "group_wf g \<Longrightarrow> group_wf (snd (autoclaim_group now cname min_idle start cnt s g))"
    by (simp add: autoclaim_group_def split_beta Let_def)
qed

section \<open>Keys and aggregates\<close>

context command_frame begin

lemma K_set_cmd: "set_cmd now key v ttl nx xx ks = Some (ok, ks') \<Longrightarrow> K ks ks'"
  by (auto simp: set_cmd_def Let_def K_refl new_string_def intro!: K_insert V_string split: if_splits option.splits)

lemma K_expire_cmd: "expire_cmd now key secs ks = Some (ok, ks') \<Longrightarrow> K ks ks'"
  by (auto simp: expire_cmd_def K_refl K_remove V_refl intro!: K_insert split: option.splits if_splits)

lemma K_fold_remove: "K ks (fold hm_remove keys ks)"
  by (induction keys arbitrary: ks) (auto intro: K_refl K_trans K_remove)

lemma K_key_cmds [frame_intros]:
  "K ks (snd (get_cmd now1 now2 key ks))" "K ks (snd (delete_cmd now keys ks))" "K ks (snd (ttl_cmd now1 now2 key ks))"
  "K ks (snd (sweep_expired now ks))"
  by (auto simp: get_cmd_def get_evict_def delete_cmd_def delete_step_def ttl_cmd_def sweep_expired_def K_refl Let_def
      K_remove K_fold_remove intro!: K_loop split: option.split)

lemma K_hash_store [frame_intros]:
  "K ks (snd (hset now key fvs ks))" "K ks (snd (hget now key f ks))" "K ks (snd (hdel now key fs ks))"
  "K ks (snd (hvals now key ks))" "K ks (snd (hgetall now key ks))" "K ks (snd (hexists now key f ks))"
  "K ks (snd (hincrby now key f n ks))"
  by (auto simp: hset_def hget_def hdel_def hvals_def hgetall_def hexists_def hincrby_def K_read split_beta Let_def
      hset_loop.loop_inv hdel_loop.loop_inv intro!: K_create_hash K_update_hash K_drop split: sum.split)

lemma K_set_store [frame_intros]:
  "K ks (snd (sadd now key ms ks))" "K ks (snd (smembers now key ks))" "K ks (snd (sismember now key m ks))"
  "K ks (snd (srem now key ms ks))"
  by (auto simp: sadd_def smembers_def sismember_def srem_def K_read split_beta Let_def
      sadd_loop.loop_inv srem_loop.loop_inv intro!: K_create_set K_update_set K_drop)

lemma K_zset_store [frame_intros]:
  "K ks (snd (zadd now key ps nx xx gt lt ch ks))" "K ks (snd (zrem now key ms ks))"
  "K ks (snd (zrange now key i j ws ks))" "K ks (snd (zrangebyscore now key lo hi ws ks))"
  "K ks (snd (zremrangebyscore now key lo hi ks))" "K ks (snd (zcard now key ks))"
  "K ks (snd (zscore now key m ks))" "K ks (snd (zcount now key lo hi ks))"
  by (auto simp: zadd_def zrem_def zrange_def zrangebyscore_def zremrangebyscore_def zcard_def zscore_def zcount_def
      K_read split_beta Let_def zadd_loop_wf zrem_loop.loop_inv zs_fold_remove
      intro!: K_create_zset K_update_zset K_drop)

lemma K_zrangestore [frame_intros]: "K ks (snd (zrangestore now dst src lo hi ks))"
proof -
  let ?p = "read_key now src (Inr []) (with_kind zset_of (\<lambda>z. Inr (zs_scan lo hi z))) ks"
  have r: "K ks (snd ?p)" by (rule K_read)
  have "K (snd ?p) (hm_remove dst (snd ?p))" by (rule K_remove)
  moreover have "K (snd ?p) (hm_insert dst \<lparr>vdata = SortedSetV (zs_of_list ms), expires_at = None\<rparr> (snd ?p))" for ms
    by (rule K_insert) (simp add: V_zset zs_of_list_wf)
  ultimately show ?thesis
    using r unfolding zrangestore_def split_beta Let_def
    by (auto intro: K_trans split: sum.split)
qed

section \<open>Lists\<close>

lemma K_list_store [frame_intros]:
  "K ks (snd (llen now key ks))" "K ks (snd (lindex now key i ks))" "K ks (snd (lrange now key i j ks))"
  "K ks (snd (lpop now key cnt ks))" "K ks (snd (rpop now key cnt ks))"
  "K ks (snd (lset now key i v ks))" "K ks (snd (ltrim now key i j ks))"
  by (auto simp: llen_def lindex_def lrange_def lpop_def rpop_def lset_def ltrim_def K_read unless_empty_eq
      min_le_iff_disj intro!: K_list dest: pop_list_length split: option.splits)

lemma K_lrem_store [frame_intros]: "K ks (snd (lrem now key n v ks))"
  unfolding lrem_def
proof (rule K_list)
  fix xs ys
  show "snd (let (removed, ys) = lrem_list n v xs in (Inr (int removed), unless_empty ys)) = Some ys \<Longrightarrow>
      length ys \<le> length xs"
    using lrem_list_length [of n v xs] by (auto simp: split_beta Let_def unless_empty_eq)
qed

lemma K_pop_poll [frame_intros]: "K ks (snd (pop_poll side now keys ks))"
proof (induction keys arbitrary: ks)
  case (Cons k keys)
  let ?ks1 = "expire_key now k ks"
  have e: "K ks ?ks1" by (rule K_expire)
  have "K ?ks1 (hm_insert k (x\<lparr>vdata := ListV ys\<rparr>) ?ks1)"
    if "live now ks k = Some x" "vdata x = ListV xs" "pop_end side xs = (r, ys)" for x xs r ys
    using that pop_end_length [of side xs] by (intro K_insert) (simp add: V_list)
  then show ?case
    using e K_trans [OF e Cons.IH] K_trans [OF e K_remove]
    by (auto simp: Let_def intro: K_trans [OF e] split: option.split value_data.split prod.split)
qed (simp add: K_refl)

lemma K_polls [frame_intros]: "K ks (snd (blpop_poll now keys ks))" "K ks (snd (brpop_poll now keys ks))"
  by (simp_all add: blpop_poll_def brpop_poll_def K_pop_poll)

section \<open>Streams and groups\<close>

lemma K_stream_store [frame_intros]:
  "K ks (snd (xread now keys ids cnt ks))" "K ks (snd (xlen now key ks))" "K ks (snd (stream_last_id now key ks))"
  "K ks (snd (xrange now key lo hi cnt ks))"
  by (simp_all add: xread_def xlen_def stream_last_id_def xrange_def K_read K_xread_loop)

lemma K_xtrim_store [frame_intros]: "K ks (snd (xtrim now key maxlen minid ks))"
  unfolding xtrim_def by (rule K_update_stream) (simp_all add: stream_wf_xtrim subseq_xtrim)

lemma K_xdel_store [frame_intros]: "K ks (snd (xdel now key ids ks))"
  unfolding xdel_def
  by (rule K_update_stream) (auto simp: split_beta Let_def subseq_xdel_loop xdel_loop_filter stream_wf_def)

lemma K_xack_store [frame_intros]: "K ks (snd (xack now key grp ids ks))"
  unfolding xack_def by (rule K_update_group) (rule ack_loop_wf)

lemma K_xautoclaim_store [frame_intros]: "K ks (snd (xautoclaim now key grp cname min_idle start cnt ks))"
  unfolding xautoclaim_def by (rule K_update_group) (rule group_wf_autoclaim)

lemma K_xclaim_store [frame_intros]: "K ks (snd (xclaim now key grp cname min_idle ids idle retry force justid ks))"
  unfolding xclaim_def by (rule K_update_group) (auto split: option.split dest: xclaim_loop_wf)

lemma K_group_reads [frame_intros]:
  "K ks (snd (xinfo_stream now key ks))" "K ks (snd (xinfo_groups now key ks))"
  "K ks (snd (xinfo_consumers now key grp ks))"
  "K ks (snd (xpending_range now key grp lo hi cnt filt idle ks))" "K ks (snd (xpending_summary now key grp ks))"
  by (simp_all add: xinfo_stream_def xinfo_groups_def xinfo_consumers_def xpending_range_def xpending_summary_def
      read_group_def K_read)

lemma K_xgroup_destroy [frame_intros]: "K ks (snd (xgroup_destroy now key grp ks))"
  unfolding xgroup_destroy_def
  by (rule K_update_stream) (auto simp: stream_wf_def set_hm_remove)

lemma K_xgroup_create [frame_intros]: "K ks (snd (xgroup_create now key grp sid mk ks))"
proof -
  have wf: "stream_wf (snd (xgroup_create_stream grp sid s))" if "stream_wf s" for s
    using that by (auto simp: xgroup_create_stream_def Let_def group_wf_def intro!: stream_wf_insert_group)
  have es: "entries (snd (xgroup_create_stream grp sid s)) = entries s" for s
    by (simp add: xgroup_create_stream_def Let_def)
  have "K ks (snd (create_key now key new_stream (modify_kind stream_of StreamV (xgroup_create_stream grp sid)) ks))"
    by (rule K_create, drule stream_kind.wrap_proj)
       (auto simp: es intro!: V_stream V_new_stream wf, simp add: new_stream_value_def)
  then show ?thesis by (simp add: xgroup_create_def K_expire)
qed

lemma K_xreadgroup_loop: "K ks (snd (xreadgroup_loop now grp cname cnt ps ks))"
proof (induction now grp cname cnt ps ks rule: xreadgroup_loop.induct)
  case (2 now grp cname cnt key id_str rest ks)
  let ?ks1 = "expire_key now key ks"
  show ?case
  proof (cases "\<exists>e s g. live now ks key = Some e \<and> vdata e = StreamV s \<and> hm_get (groups s) grp = Some g")
    case True
    then obtain e s g where *: "live now ks key = Some e" "vdata e = StreamV s" "hm_get (groups s) grp = Some g"
      by blast
    obtain es g' where r: "read_group_step now cname id_str cnt s g = (es, g')" by fastforce
    let ?s = "s\<lparr>groups := hm_insert grp g' (groups s)\<rparr>"
    have "stream_wf ?s" if "stream_wf s"
    proof (rule stream_wf_insert_group [OF that])
      have "group_wf g" using that *(3) by (auto simp: stream_wf_def dest!: hm_get_Some_in)
      from group_wf_read_step [OF this, of now cname id_str cnt s] r show "group_wf g'" by simp
    qed
    then have "K ?ks1 (hm_insert key (e\<lparr>vdata := StreamV ?s\<rparr>) ?ks1)"
      using * by (intro K_insert) (simp add: V_stream)
    then show ?thesis
      using 2 [of ?ks1 e s g "(es, g')" es g' "hm_insert key (e\<lparr>vdata := StreamV ?s\<rparr>) ?ks1"] * r
      by (auto simp: split_beta Let_def intro: K_trans K_expire split: sum.split)
  next
    case False
    then show ?thesis
      using K_expire [of ks now key]
      by (auto simp: Let_def split: option.split value_data.split)
  qed
qed (simp add: K_refl)

lemma K_xreadgroup [frame_intros]: "K ks (snd (xreadgroup now grp cname keys ids cnt ks))"
  by (simp add: xreadgroup_def K_xreadgroup_loop)

end

context list_free_frame begin

lemma K_push_store [frame_intros]:
  "K ks (snd (snd (lpush now key vs ks)))" "K ks (snd (snd (rpush now key vs ks)))"
  by (auto simp: lpush_def rpush_def K_refl split_beta Let_def intro!: K_create V_any_list)

lemma K_move_store [frame_intros]:
  "K ks (snd (snd (lmove_atomic now src dst a b ks)))" "K ks (snd (snd (rpoplpush_atomic now src dst ks)))"
  "K ks (snd (linsert now key place pivot v ks))"
  by (simp_all add: rpoplpush_atomic_def linsert_def K_move K_list_update)

end

context stream_free_frame begin

lemma K_xadd_store [frame_intros]: "hm_wf flds \<Longrightarrow> K ks (snd (snd (xadd now ms key flds sid ks)))"
  unfolding xadd_def split_beta Let_def snd_conv
  by (rule K_create, drule stream_kind.wrap_proj) (auto intro!: V_any_stream stream_wf_xadd)

end

end
