(* ===== verification/Lazy_Expiry.thy ===== *)
theory Lazy_Expiry
  imports Key_Commands Hash_Ops Set_Ops Zset_Ops List_Ops Group_Ops
begin

text \<open>
  Expired entries are invisible.  A command finds an expired entry in the map until it, another
  command or the sweep removes it; here every command of the store is shown to be local to the
  live view: its answer, and the view it leaves, depend on the entries that have not expired
  alone.  The store thus implements an abstract keyspace without expired entries, and the
  sweep, and the removals on the way, are its concern only.

  The commands that report more than a result and the keyspace are wrapped: the wake-up of a
  push becomes part of its answer, and so does a panic.
\<close>

section \<open>The wrappings\<close>

definition with_wake :: "(keyspace \<Rightarrow> 'r \<times> bool \<times> keyspace) \<Rightarrow> keyspace \<Rightarrow> ('r \<times> bool) \<times> keyspace" where
  "with_wake f ks = (let (r, woke, ks') = f ks in ((r, woke), ks'))"

definition or_panic :: "(keyspace \<Rightarrow> ('r \<times> keyspace) option) \<Rightarrow> keyspace \<Rightarrow> 'r option \<times> keyspace" where
  "or_panic f ks = (case f ks of None \<Rightarrow> (None, ks) | Some (r, ks') \<Rightarrow> (Some r, ks'))"

definition reading :: "(keyspace \<Rightarrow> 'r) \<Rightarrow> keyspace \<Rightarrow> 'r \<times> keyspace" where
  "reading f ks = (f ks, ks)"

section \<open>Local steps\<close>

lemma live_later:
  assumes "live now ks1 = live now ks2" and "now \<le> later"
  shows "live later ks1 = live later ks2"
proof -
  have stays: "is_expired now e \<Longrightarrow> is_expired later e" for e
    using assms(2) by (auto simp: is_expired_def split: option.splits)
  have "live later ks key = (case live now ks key of None \<Rightarrow> None | Some e \<Rightarrow> if is_expired later e then None else Some e)"
    for ks key
    using stays by (auto simp: live_def split: option.splits)
  then show ?thesis using assms(1) by (simp add: fun_eq_iff)
qed

lemma view_localI:
  assumes "\<And>ks. fst (f ks) = r (live now ks)" and "\<And>ks. live now (snd (f ks)) = v (live now ks)"
  shows "view_local now f"
  using assms by (simp add: view_local_def)

lemma view_local_const [view_intros]: "view_local now (\<lambda>ks. (r, ks))"
  by (simp add: view_local_def)

lemma view_local_count:
  assumes "\<And>x. view_local now (f x)"
  shows "view_local now (count_loop f xs)"
proof (induction xs)
  case (Cons x xs)
  show ?case
    unfolding view_local_def
  proof (intro allI impI)
    fix ks1 ks2 assume l: "live now ks1 = live now ks2"
    note a = view_localD [OF assms [of x] l]
    from view_localD [OF Cons conjunct2 [OF a]] a
    show "fst (count_loop f (x # xs) ks1) = fst (count_loop f (x # xs) ks2) \<and>
      live now (snd (count_loop f (x # xs) ks1)) = live now (snd (count_loop f (x # xs) ks2))"
      by (simp add: split_beta Let_def)
  qed
qed (simp add: view_local_def)

lemma view_local_update_list [view_intros]: "view_local now (update_list_key now key dflt f)"
  by (rule view_localI
      [where r = "\<lambda>m. case m key of None \<Rightarrow> dflt | Some e \<Rightarrow>
           (case vdata e of ListV xs \<Rightarrow> fst (f xs) | _ \<Rightarrow> Inl WrongType)"
       and v = "\<lambda>m. case m key of None \<Rightarrow> m | Some e \<Rightarrow>
           (case vdata e of ListV xs \<Rightarrow>
              (case snd (f xs) of Some ys \<Rightarrow> m(key \<mapsto> e\<lparr>vdata := ListV ys\<rparr>) | None \<Rightarrow> m(key := None)) | _ \<Rightarrow> m)"])
     (auto simp: update_list_key_def live_def live_insert live_remove is_expired_def fun_eq_iff
       split: option.splits value_data.splits prod.splits)

section \<open>Keys, hashes, sets and sorted sets\<close>

lemma key_lookup: "(case hm_get ks key of Some e \<Rightarrow> \<not> is_expired now e | None \<Rightarrow> False) \<longleftrightarrow> live now ks key \<noteq> None"
  by (simp add: live_def split: option.split)

lemma view_local_delete_step: "view_local now (delete_step now key)"
  by (rule view_localI [where r = "\<lambda>m. m key \<noteq> None" and v = "\<lambda>m. m(key := None)"])
     (simp_all add: delete_step_def key_lookup live_remove)

lemma view_local_exists_step: "view_local now (exists_step now key)"
  by (rule view_localI [where r = "\<lambda>m. m key \<noteq> None" and v = "\<lambda>m. m"]) (simp_all add: exists_step_def key_lookup)

lemma view_local_keys:
  "view_local now (get_cmd now later key)" "view_local now (or_panic (set_cmd now key v ttl nx xx))"
  "view_local now (delete_cmd now keys)" "view_local now (reading (exists_cmd now keys))"
  "view_local now (reading (mget_cmd now keys))" "view_local now (ttl_cmd now later key)"
  "view_local now (or_panic (expire_cmd now key secs))"
proof -
  show "view_local now (get_cmd now later key)"
  proof (rule view_localI)
    fix ks
    show "fst (get_cmd now later key ks) = (case live now ks key of None \<Rightarrow> Inr None
          | Some e \<Rightarrow> (case vdata e of StringV v \<Rightarrow> Inr (Some v) | _ \<Rightarrow> Inl WrongType))"
      by (cases "hm_get ks key") (auto simp: get_cmd_def get_peek_def get_evict_def live_def split: value_data.splits)
    show "live now (snd (get_cmd now later key ks)) = live now ks"
      by (cases "hm_get ks key")
         (auto simp: get_cmd_def get_peek_def get_evict_def live_remove_expired split: value_data.splits)
  qed
  show "view_local now (or_panic (set_cmd now key v ttl nx xx))"
  proof (rule view_localI)
    fix ks
    let ?refused = "(nx \<and> live now ks key \<noteq> None) \<or> (xx \<and> live now ks key = None)"
    show "fst (or_panic (set_cmd now key v ttl nx xx) ks) =
        (if ?refused then Some False else map_option (\<lambda>_. True) (new_string now v ttl))"
      by (cases "new_string now v ttl") (auto simp: or_panic_def set_cmd_def key_lookup Let_def)
    show "live now (snd (or_panic (set_cmd now key v ttl nx xx) ks)) =
        (if ?refused then live now ks else case new_string now v ttl of None \<Rightarrow> live now ks
         | Some e \<Rightarrow> (live now ks)(key := if is_expired now e then None else Some e))"
      by (cases "new_string now v ttl") (auto simp: or_panic_def set_cmd_def key_lookup Let_def live_insert)
  qed
  show "view_local now (delete_cmd now keys)"
    unfolding delete_cmd_def [abs_def]
    by (rule view_local_count, rule view_local_delete_step)
  have "view_local now (count_loop (exists_step now) keys)"
    by (rule view_local_count, rule view_local_exists_step)
  then show "view_local now (reading (exists_cmd now keys))"
    unfolding view_local_def reading_def exists_cmd_def fst_conv snd_conv by blast
  have "mget_cmd now keys ks = map (\<lambda>k. case live now ks k of None \<Rightarrow> None
      | Some e \<Rightarrow> (case vdata e of StringV v \<Rightarrow> Some v | _ \<Rightarrow> None)) keys" for ks
    by (auto simp: mget_cmd_def live_def split: option.splits)
  then show "view_local now (reading (mget_cmd now keys))"
    by (simp add: view_local_def reading_def)
  show "view_local now (ttl_cmd now later key)"
  proof (rule view_localI)
    fix ks
    show "fst (ttl_cmd now later key ks) = (case live now ks key of None \<Rightarrow> - 2
          | Some e \<Rightarrow> (case expires_at e of None \<Rightarrow> - 1 | Some t \<Rightarrow> (case checked_duration_since t later of
               Some d \<Rightarrow> int (as_secs d) | None \<Rightarrow> - 2)))"
      by (cases "hm_get ks key") (auto simp: ttl_cmd_def live_def split: option.splits)
    show "live now (snd (ttl_cmd now later key ks)) = (case live now ks key of None \<Rightarrow> live now ks
          | Some e \<Rightarrow> (case expires_at e of None \<Rightarrow> live now ks
          | Some t \<Rightarrow> if checked_duration_since t later = None then (live now ks)(key := None) else live now ks))"
    proof (cases "hm_get ks key")
      case None
      then have "live now ks key = None" by (simp add: live_def)
      with None show ?thesis by (simp add: ttl_cmd_def)
    next
      case (Some e)
      show ?thesis
      proof (cases "is_expired now e")
        case True
        with Some have "live now ks key = None" by (simp add: live_def)
        with Some True show ?thesis by (simp add: ttl_cmd_def live_remove_expired)
      next
        case False
        with Some have "live now ks key = Some e" by (simp add: live_def)
        with Some False show ?thesis by (simp add: ttl_cmd_def live_remove split: option.split)
      qed
    qed
  qed
  have "or_panic (expire_cmd now key secs) ks =
     (case live now ks key of
        None \<Rightarrow> (Some False, if hm_get ks key = None then ks else hm_remove key ks)
      | Some e \<Rightarrow> if secs \<le> 0 then (Some True, hm_remove key ks)
          else (case instant_checked_add now (from_secs (nat secs)) of
                  None \<Rightarrow> (None, ks)
                | Some t \<Rightarrow> (Some True, hm_insert key (e\<lparr>expires_at := Some t\<rparr>) ks)))" for ks
    by (auto simp: or_panic_def expire_cmd_def live_def split: option.splits)
  moreover have "live now (hm_remove key ks) = live now ks" if "live now ks key = None" for ks
    using that by (simp add: live_remove fun_upd_idem)
  ultimately show "view_local now (or_panic (expire_cmd now key secs))"
    by (auto simp: view_local_def live_remove live_insert split: option.split)
qed

lemma view_local_split:
  "view_local now g \<Longrightarrow> view_local now (\<lambda>ks. let (r, ks') = g ks in (r, remove_if_empty key ks'))"
  using view_local_drop [of now g key] by (simp add: split_beta Let_def)

lemma view_local_hashes:
  "view_local now (hset now key fvs)" "view_local now (hget now key field)" "view_local now (hdel now key fds)"
  "view_local now (hvals now key)" "view_local now (hgetall now key)" "view_local now (hexists now key field)"
  "view_local now (hincrby now key field n)"
  unfolding hset_def hget_def hdel_def [abs_def] hvals_def hgetall_def hexists_def hincrby_def
  by (intro view_intros view_local_split; simp add: new_hash_def)+

lemma view_local_sets:
  "view_local now (sadd now key ms)" "view_local now (smembers now key)" "view_local now (sismember now key m)"
  "view_local now (srem now key ms)"
  unfolding sadd_def smembers_def sismember_def srem_def [abs_def]
  by (intro view_intros view_local_split; simp add: new_set_def)+

lemma view_local_zsets:
  "view_local now (zadd now key ps nx xx gt lt ch)" "view_local now (zrem now key ms)"
  "view_local now (zrange now key a b w)" "view_local now (zrangebyscore now key lo hi w)"
  "view_local now (zremrangebyscore now key lo hi)" "view_local now (zcard now key)"
  "view_local now (zscore now key m)" "view_local now (zcount now key lo hi)"
  unfolding zadd_def [abs_def] zrem_def [abs_def] zrange_def zrangebyscore_def zremrangebyscore_def [abs_def]
    zcard_def zscore_def zcount_def
  by (intro view_intros view_local_split; simp add: new_sorted_set_def)+

lemma view_local_zrangestore: "view_local now (zrangestore now dst src lo hi)"
  by (auto simp: view_local_def zrangestore_def split_beta Let_def read_key_result read_key_view live_remove live_insert
      split: sum.splits)


section \<open>Lists\<close>

lemma view_local_list_reads:
  "view_local now (llen now key)" "view_local now (lindex now key i)" "view_local now (lrange now key a b)"
  "view_local now (lpop now key cnt)" "view_local now (rpop now key cnt)" "view_local now (lrem now key n v)"
  "view_local now (lset now key i v)" "view_local now (ltrim now key a b)" "view_local now (linsert now key place pivot v)"
  unfolding llen_def lindex_def lrange_def lpop_def rpop_def lrem_def lset_def ltrim_def linsert_def
  by (intro view_intros)+

lemma view_local_pushing:
  assumes "view_local now g"
  shows "view_local now (with_wake (\<lambda>ks. let (r, ks') = g ks in (r, w r, ks')))"
  unfolding view_local_def
proof (intro allI impI)
  fix ks1 ks2 assume "live now ks1 = live now ks2"
  from view_localD [OF assms this]
  show "fst (with_wake (\<lambda>ks. let (r, ks') = g ks in (r, w r, ks')) ks1) =
        fst (with_wake (\<lambda>ks. let (r, ks') = g ks in (r, w r, ks')) ks2) \<and>
      live now (snd (with_wake (\<lambda>ks. let (r, ks') = g ks in (r, w r, ks')) ks1)) =
        live now (snd (with_wake (\<lambda>ks. let (r, ks') = g ks in (r, w r, ks')) ks2))"
    by (simp add: with_wake_def split_beta Let_def)
qed

lemma view_local_pushes:
  "view_local now (with_wake (lpush now key vs))" "view_local now (with_wake (rpush now key vs))"
proof -
  have none: "view_local now (with_wake (\<lambda>ks. (r, w, ks)))" for r :: "i64 result" and w
    by (simp add: view_local_def with_wake_def)
  have "view_local now (with_wake (\<lambda>ks. let (r, ks') = create_key now key new_list f ks in (r, notified r, ks')))"
    for f :: "value_data \<Rightarrow> i64 result \<times> value_data"
    by (rule view_local_pushing) (intro view_intros, simp add: new_list_def)
  with none show "view_local now (with_wake (lpush now key vs))" "view_local now (with_wake (rpush now key vs))"
    by (cases "vs = []"; simp add: lpush_def [abs_def] rpush_def [abs_def])+
qed

lemma view_local_lmove:
  "view_local now (with_wake (lmove_atomic now src dst a b))" "view_local now (with_wake (rpoplpush_atomic now src dst))"
proof -
  have "view_local now (with_wake (lmove_atomic now src dst a b))" for a b
    unfolding view_local_def
  proof (intro allI impI)
    fix ks1 ks2 assume l: "live now ks1 = live now ks2"
    define e where "e ks = (if src \<noteq> dst then expire_key now dst (expire_key now src ks) else expire_key now src ks)" for ks
    have e: "hm_get (e ks) src = live now ks src" "hm_get (e ks) dst = live now ks dst" "live now (e ks) = live now ks" for ks
      by (auto simp: e_def)
    show "fst (with_wake (lmove_atomic now src dst a b) ks1) = fst (with_wake (lmove_atomic now src dst a b) ks2) \<and>
        live now (snd (with_wake (lmove_atomic now src dst a b) ks1)) =
        live now (snd (with_wake (lmove_atomic now src dst a b) ks2))"
      unfolding with_wake_def lmove_atomic_def Let_def e_def [symmetric] e l
      by (auto simp: e l live_insert live_remove split: option.splits value_data.splits prod.splits)
  qed
  then show "view_local now (with_wake (lmove_atomic now src dst a b))"
    "view_local now (with_wake (rpoplpush_atomic now src dst))"
    by (simp_all add: rpoplpush_atomic_def [abs_def])
qed

lemma view_local_poll: "view_local now (pop_poll side now keys)"
proof (induction keys)
  case (Cons k keys)
  show ?case
    unfolding view_local_def
  proof (intro allI impI)
    fix ks1 ks2 assume l: "live now ks1 = live now ks2"
    then have "live now (expire_key now k ks1) = live now (expire_key now k ks2)" by simp
    note rest = view_localD [OF Cons this]
    show "fst (pop_poll side now (k # keys) ks1) = fst (pop_poll side now (k # keys) ks2) \<and>
        live now (snd (pop_poll side now (k # keys) ks1)) = live now (snd (pop_poll side now (k # keys) ks2))"
      using rest by (simp add: l live_insert live_remove Let_def split: option.split value_data.split prod.split)
  qed
qed (simp add: view_local_def)

lemma view_local_polls: "view_local now (blpop_poll now keys)" "view_local now (brpop_poll now keys)"
  unfolding blpop_poll_def brpop_poll_def by (rule view_local_poll)+

section \<open>Streams and groups\<close>

lemma view_local_streams:
  "view_local now (xlen now key)" "view_local now (stream_last_id now key)" "view_local now (xrange now key lo hi cnt)"
  "view_local now (xtrim now key maxlen minid)" "view_local now (xdel now key ids)"
  unfolding xlen_def stream_last_id_def xrange_def xtrim_def xdel_def
  by (intro view_intros)+

lemma view_local_xread: "view_local now (xread now keys ids cnt)"
  unfolding view_local_def
proof (intro allI impI)
  fix ks1 ks2 assume l: "live now ks1 = live now ks2"
  show "fst (xread now keys ids cnt ks1) = fst (xread now keys ids cnt ks2) \<and>
      live now (snd (xread now keys ids cnt ks1)) = live now (snd (xread now keys ids cnt ks2))"
    unfolding xread_def xread_loop_result xread_loop_view read_stream_live [OF l] wrong_kind_live [OF l] l by simp
qed

lemma view_local_xadd: "view_local now (with_wake (xadd now ms key flds sid))"
proof -
  have "xadd now ms key flds sid = (\<lambda>ks. let (r, ks') = create_key now key new_stream
      (modify_kind stream_of StreamV (xadd_stream ms flds sid)) ks in (r, notified r, ks'))"
    by (simp add: xadd_def [abs_def] notified_def)
  then show ?thesis
    by (simp only:) (rule view_local_pushing, intro view_intros, simp add: new_stream_def)
qed

lemma view_local_groups:
  "view_local now (xgroup_destroy now key grp)" "view_local now (xack now key grp ids)"
  "view_local now (xautoclaim now key grp cname min_idle start cnt)"
  "view_local now (xclaim now key grp cname min_idle ids idle retry force justid)"
  "view_local now (xinfo_stream now key)" "view_local now (xinfo_groups now key)" "view_local now (xinfo_consumers now key grp)"
  "view_local now (xpending_range now key grp lo hi n filt older)" "view_local now (xpending_summary now key grp)"
  unfolding xgroup_destroy_def xack_def xautoclaim_def xclaim_def xinfo_stream_def xinfo_groups_def xinfo_consumers_def
    xpending_range_def xpending_summary_def update_group_def read_group_def
  by (intro view_intros)+

lemma view_local_xgroup_create: "view_local now (xgroup_create now key grp sid mk)"
proof -
  have "view_local now (create_key now key new_stream (modify_kind stream_of StreamV (xgroup_create_stream grp sid)))"
    by (intro view_intros) (simp add: new_stream_def)
  note c = view_localD [OF this]
  show ?thesis
    unfolding view_local_def
  proof (intro allI impI)
    fix ks1 ks2 assume l: "live now ks1 = live now ks2"
    show "fst (xgroup_create now key grp sid mk ks1) = fst (xgroup_create now key grp sid mk ks2) \<and>
      live now (snd (xgroup_create now key grp sid mk ks1)) = live now (snd (xgroup_create now key grp sid mk ks2))"
      using c [OF l] by (simp add: xgroup_create_def l)
  qed
qed

lemma view_local_xreadgroup: "view_local now (xreadgroup now grp cname keys ids cnt)"
proof -
  have "view_local now (xreadgroup_loop now grp cname cnt ps)" for ps
  proof (induction ps)
    case (Cons p ps)
    show ?case
      unfolding view_local_def
    proof (intro allI impI)
      fix ks1 ks2 assume l: "live now ks1 = live now ks2"
      obtain key id_str where p: "p = (key, id_str)" by fastforce
      have rest: "fst (xreadgroup_loop now grp cname cnt ps (hm_insert key e (expire_key now key ks1))) =
          fst (xreadgroup_loop now grp cname cnt ps (hm_insert key e (expire_key now key ks2))) \<and>
        live now (snd (xreadgroup_loop now grp cname cnt ps (hm_insert key e (expire_key now key ks1)))) =
          live now (snd (xreadgroup_loop now grp cname cnt ps (hm_insert key e (expire_key now key ks2))))" for e
        by (rule view_localD [OF Cons]) (simp add: live_insert l)
      show "fst (xreadgroup_loop now grp cname cnt (p # ps) ks1) = fst (xreadgroup_loop now grp cname cnt (p # ps) ks2) \<and>
        live now (snd (xreadgroup_loop now grp cname cnt (p # ps) ks1)) =
          live now (snd (xreadgroup_loop now grp cname cnt (p # ps) ks2))"
        using rest by (simp add: p l split_beta Let_def split: option.split value_data.split sum.split)
    qed
  qed (simp add: view_local_def)
  then show ?thesis unfolding view_local_def xreadgroup_def by blast
qed


section \<open>Expired entries are invisible\<close>



end
