(* ===== verification/Py_Objects.thy ===== *)
theory Py_Objects
  imports Lua_Dispatch
begin

text \<open>
  Python objects at the border of \<^verbatim>\<open>src/src/lib.rs\<close>, and the helpers that convert them
  (\<^verbatim>\<open>src/src/lib.rs\<close>, \<^verbatim>\<open>commands/strings.rs\<close>, \<^verbatim>\<open>commands/sorted_sets.rs\<close>,
  \<^verbatim>\<open>commands/streams.rs\<close>).

  An object that comes from Python has an abstract type \<open>'o\<close>.  What the code asks the
  interpreter about one, through the PyO3 library, is the record \<open>py_api\<close>: a parameter of
  every definition.  A query that fails gives the exception that PyO3 raises.  A value that
  goes back to Python is the tree of PyO3 constructors the code calls.
\<close>

section \<open>Values and exceptions\<close>

datatype py_error =
    TypeErr string
  | ValueErr string
  | RuntimeErr string
  | IoError string
  | IndexErr string
  | PlainException string
  | ResponseError string
  | NoScriptError string
  | Foreign string \<comment> \<open>raised by Python code or by PyO3 itself\<close>

datatype py_value =
    PyNone
  | PyBool bool
  | PyInt int
  | PyFloat f64
  | PyBytes bytes
  | PyStr string
  | PyList "py_value list"
  | PyTuple "py_value list"
  | PyDict "(py_value \<times> py_value) list"
  | PySet "py_value list"
  | PyErrorValue py_error \<comment> \<open>an exception object, as a value\<close>

text \<open>\<open>extract_string\<close> to \<open>extract_objects\<close> are \<open>obj.extract::<T>()\<close>; the \<open>as_\<close> queries are downcasts.\<close>

record 'o py_api =
  extract_string :: "'o \<Rightarrow> py_error + string"
  extract_u8s :: "'o \<Rightarrow> py_error + bytes"
  extract_bool :: "'o \<Rightarrow> py_error + bool"
  extract_i64 :: "'o \<Rightarrow> py_error + i64"
  extract_u64 :: "'o \<Rightarrow> py_error + u64"
  extract_usize :: "'o \<Rightarrow> py_error + usize"
  extract_f64 :: "'o \<Rightarrow> py_error + f64"
  extract_objects :: "'o \<Rightarrow> py_error + 'o list"
  as_tuple :: "'o \<Rightarrow> py_error + 'o list"
  as_dict :: "'o \<Rightarrow> py_error + ('o \<times> 'o) list"
  dict_lookup :: "'o \<Rightarrow> string \<Rightarrow> py_error + 'o option" \<comment> \<open>of an object that is a dict\<close>
  is_none :: "'o \<Rightarrow> bool"
  is_string :: "'o \<Rightarrow> bool"
  is_bytes :: "'o \<Rightarrow> bool"
  is_bytearray :: "'o \<Rightarrow> bool"
  is_memoryview :: "'o \<Rightarrow> bool"
  is_sequence :: "'o \<Rightarrow> bool"
  seq_len :: "'o \<Rightarrow> py_error + usize"
  seq_item :: "'o \<Rightarrow> nat \<Rightarrow> py_error + 'o"
  call_tobytes :: "'o \<Rightarrow> py_error + 'o"
  call_total_seconds :: "'o \<Rightarrow> py_error + 'o"
  has_response_error :: bool \<comment> \<open>\<open>redis.exceptions.ResponseError\<close> can be imported\<close>
  has_noscript_error :: bool \<comment> \<open>a \<open>NoScriptError\<close> of \<open>burner_redis\<close> or \<open>redis.exceptions\<close> can be imported\<close>

text \<open>A method of the bindings returns, raises, or panics, which PyO3 raises as a \<open>PanicException\<close>.\<close>

datatype 'a answer = Return 'a | Raised py_error | Panicked

section \<open>Sequencing\<close>

text \<open>\<open>collect::<PyResult<Vec<_>>>()\<close>: the first failure ends the loop.\<close>

fun traverse :: "('a \<Rightarrow> 'e + 'b) \<Rightarrow> 'a list \<Rightarrow> 'e + 'b list" where
  "traverse f [] = Inr []"
| "traverse f (x # xs) =
     (case f x of
        Inl e \<Rightarrow> Inl e
      | Inr y \<Rightarrow> (case traverse f xs of Inl e \<Rightarrow> Inl e | Inr ys \<Rightarrow> Inr (y # ys)))"

lemma traverse_cong [fundef_cong]:
  "xs = ys \<Longrightarrow> (\<And>x. x \<in> set ys \<Longrightarrow> f x = g x) \<Longrightarrow> traverse f xs = traverse g ys"
  by (induction xs arbitrary: ys) (auto split: sum.split)

lemma traverse_map: "(\<And>x. x \<in> set xs \<Longrightarrow> f x = Inr (g x)) \<Longrightarrow> traverse f xs = Inr (map g xs)"
  by (induction xs) auto

text \<open>\<open>r?\<close>, and \<open>match r { Ok .. Err .. }\<close> as a choice between two ways to go on.\<close>

definition and_then :: "'e + 'a \<Rightarrow> ('a \<Rightarrow> 'e + 'b) \<Rightarrow> 'e + 'b" where
  "and_then r f = (case r of Inl e \<Rightarrow> Inl e | Inr x \<Rightarrow> f x)"

definition ok :: "'e + 'a \<Rightarrow> 'a option" where
  "ok r = (case r of Inl e \<Rightarrow> None | Inr x \<Rightarrow> Some x)"

definition ok_or :: "'e \<Rightarrow> 'a option \<Rightarrow> 'e + 'a" where
  "ok_or e x = (case x of None \<Rightarrow> Inl e | Some v \<Rightarrow> Inr v)"

definition map_err :: "('e \<Rightarrow> 'd) \<Rightarrow> 'e + 'a \<Rightarrow> 'd + 'a" where
  "map_err f r = (case r of Inl e \<Rightarrow> Inl (f e) | Inr x \<Rightarrow> Inr x)"

lemma and_then_simps [simp]: "and_then (Inl e) f = Inl e" "and_then (Inr x) f = f x"
  by (simp_all add: and_then_def)

lemma ok_simps [simp]: "ok (Inl e) = None" "ok (Inr x) = Some x"
  by (simp_all add: ok_def)

lemma ok_or_simps [simp]: "ok_or e None = Inl e" "ok_or e (Some v) = Inr v"
  by (simp_all add: ok_or_def)

lemma map_err_simps [simp]: "map_err f (Inl e) = Inl (f e)" "map_err f (Inr x) = Inr x"
  by (simp_all add: map_err_def)

section \<open>Exceptions\<close>

definition make_response_error :: "'o py_api \<Rightarrow> string \<Rightarrow> py_error" where
  "make_response_error py msg = (if has_response_error py then ResponseError msg else PlainException msg)"

definition make_noscript_error :: "'o py_api \<Rightarrow> string \<Rightarrow> py_error" where
  "make_noscript_error py msg = (if has_noscript_error py then NoScriptError msg else PlainException msg)"

definition store_err_to_py :: "'o py_api \<Rightarrow> store_error \<Rightarrow> py_error" where
  "store_err_to_py py e = make_response_error py (store_error_text e)"

definition store_err_to_py_for_cmd :: "'o py_api \<Rightarrow> string \<Rightarrow> store_error \<Rightarrow> py_error" where
  "store_err_to_py_for_cmd py cmd e =
     make_response_error py
       (case e of NoGroup g k \<Rightarrow> store_error_text e @ '' in '' @ cmd | _ \<Rightarrow> store_error_text e)"

section \<open>Arguments\<close>

definition extract_bytes :: "'o py_api \<Rightarrow> 'o \<Rightarrow> py_error + bytes" where
  "extract_bytes py obj =
     (case extract_string py obj of
        Inr s \<Rightarrow> Inr s
      | Inl _ \<Rightarrow>
          (case extract_u8s py obj of
             Inr b \<Rightarrow> Inr b
           | Inl _ \<Rightarrow> Inl (TypeErr ''expected str or bytes'')))"

definition extract_token_str :: "'o py_api \<Rightarrow> 'o \<Rightarrow> py_error + string" where
  "extract_token_str py obj =
     (case extract_string py obj of
        Inr s \<Rightarrow> Inr s
      | Inl _ \<Rightarrow>
          (case extract_u8s py obj of
             Inr b \<Rightarrow> Inr (if utf8_valid b then b else utf8_lossy b)
           | Inl _ \<Rightarrow> Inl (TypeErr ''expected str or bytes'')))"

text \<open>The ID of a stream command: a str, or bytes decoded lossily; the second failure is raised.\<close>

definition extract_id_str :: "'o py_api \<Rightarrow> 'o \<Rightarrow> py_error + string" where
  "extract_id_str py obj =
     (case extract_string py obj of
        Inr s \<Rightarrow> Inr s
      | Inl _ \<Rightarrow> (case extract_u8s py obj of Inr b \<Rightarrow> Inr (utf8_lossy b) | Inl e \<Rightarrow> Inl e))"

text \<open>
  \<open>Duration::from_secs_f64\<close>: the nearest nanosecond, ties to even; it panics (\<open>None\<close>) on
  a negative number, a NaN and from \<open>2 ^ 64\<close> seconds on.
\<close>

definition from_secs_f64 :: "f64 \<Rightarrow> duration option" where
  "from_secs_f64 x =
     (case f64_parts x of (m, e) \<Rightarrow>
        if f64_lt x f64_zero \<or> m * 2 ^ nat e \<ge> 2 ^ 64 * 2 ^ nat (- e) then None
        else Some (div_round_even (m * 10 ^ 9 * 2 ^ nat e) (2 ^ nat (- e))))"

definition extract_expiry :: "'o py_api \<Rightarrow> 'o \<Rightarrow> bool \<Rightarrow> duration answer" where
  "extract_expiry py obj unit_millis =
     (case extract_u64 py obj of
        Inr v \<Rightarrow> Return (if unit_millis then from_millis (unat v) else from_secs (unat v))
      | Inl _ \<Rightarrow>
          (case and_then (call_total_seconds py obj) (extract_f64 py) of
             Inr total_secs \<Rightarrow>
               if f64_lt total_secs f64_zero then Raised (ValueErr ''expiration must be non-negative'')
               else (case from_secs_f64 total_secs of Some d \<Rightarrow> Return d | None \<Rightarrow> Panicked)
           | Inl _ \<Rightarrow> Raised (TypeErr ''expected int or timedelta for expiration'')))"

definition parse_score_bound :: "'o py_api \<Rightarrow> 'o \<Rightarrow> py_error + f64" where
  "parse_score_bound py obj =
     (let invalid = Inl (ValueErr (''min/max must be a float or '' @ quoted ''-inf'' @ ''/'' @ quoted ''+inf''))
      in case extract_f64 py obj of
           Inr f \<Rightarrow> Inr f
         | Inl _ \<Rightarrow>
             (case extract_string py obj of
                Inr s \<Rightarrow>
                  if s = ''-inf'' then Inr f64_NEG_INFINITY
                  else if s = ''+inf'' \<or> s = ''inf'' then Inr f64_INFINITY
                  else (case parse_f64 s of Some f \<Rightarrow> Inr f | None \<Rightarrow> invalid)
              | Inl _ \<Rightarrow> invalid))"

definition extract_pair :: "'o py_api \<Rightarrow> 'o \<times> 'o \<Rightarrow> py_error + bytes \<times> bytes" where
  "extract_pair py p =
     and_then (extract_bytes py (fst p)) (\<lambda>k. and_then (extract_bytes py (snd p)) (\<lambda>v. Inr (k, v)))"

definition extract_stream_fields :: "'o py_api \<Rightarrow> ('o \<times> 'o) list \<Rightarrow> py_error + fields" where
  "extract_stream_fields py dict = and_then (traverse (extract_pair py) dict) (\<lambda>ps. Inr (hm_collect ps))"

text \<open>A sequence is read item by item; each is converted before the next is read.\<close>

definition normalize_key_list :: "'o py_api \<Rightarrow> 'o \<Rightarrow> py_error + bytes list" where
  "normalize_key_list py keys =
     (if is_string py keys \<or> is_bytes py keys \<or> is_bytearray py keys
      then and_then (extract_bytes py keys) (\<lambda>k. Inr [k])
      else if is_memoryview py keys
      then and_then (call_tobytes py keys) (\<lambda>b. and_then (extract_bytes py b) (\<lambda>k. Inr [k]))
      else if is_sequence py keys
      then and_then (seq_len py keys)
             (\<lambda>len. traverse (\<lambda>i. and_then (seq_item py keys i) (extract_bytes py)) [0 ..< len])
      else and_then (extract_bytes py keys) (\<lambda>k. Inr [k]))"

definition expire_seconds :: "'o py_api \<Rightarrow> 'o \<Rightarrow> py_error + i64" where
  "expire_seconds py time =
     (case extract_i64 py time of
        Inr seconds \<Rightarrow> Inr seconds
      | Inl _ \<Rightarrow>
          (case call_total_seconds py time of
             Inr secs \<Rightarrow> and_then (extract_f64 py secs) (\<lambda>f. Inr (f64_as_i64 f))
           | Inl _ \<Rightarrow> Inl (TypeErr ''expire time must be int (seconds) or timedelta'')))"

text \<open>\<open>t * 1000.0\<close>, rounded to the nearest binary64, and \<open>x.ceil() as u64\<close>, which saturates.\<close>

definition f64_times_1000 :: "f64 \<Rightarrow> f64" where
  "f64_times_1000 x =
     (if f64_nan x \<or> f64_infinite x then x
      else case f64_parts x of (m, e) \<Rightarrow>
        signed_f64 (f64_neg x) (f64_of_ratio (m * 1000 * 2 ^ nat e) (2 ^ nat (- e))))"

definition f64_ceil_as_u64 :: "f64 \<Rightarrow> u64" where
  "f64_ceil_as_u64 x =
     (if f64_nan x \<or> f64_neg x then 0
      else case f64_parts x of (m, e) \<Rightarrow>
        of_nat (min (2 ^ 64 - 1) ((m * 2 ^ nat e + 2 ^ nat (- e) - 1) div 2 ^ nat (- e))))"

definition timeout_to_ms :: "f64 option \<Rightarrow> py_error + u64" where
  "timeout_to_ms timeout =
     (case timeout of
        None \<Rightarrow> Inr 0
      | Some t \<Rightarrow>
          if f64_lt t f64_zero then Inl (ValueErr ''timeout must be a non-negative number'')
          else if f64_eq t f64_zero then Inr 0
          else Inr (max (f64_ceil_as_u64 (f64_times_1000 t)) 1))"

section \<open>Results\<close>

text \<open>
  An awaitable that is done: the first \<open>__next__\<close> ends the iteration with the value, a later
  one with \<open>None\<close>.
\<close>

record resolved_future =
  future_result :: "py_value option"

definition resolved :: "py_value \<Rightarrow> resolved_future" where
  "resolved v = \<lparr>future_result = Some v\<rparr>"

definition future_next :: "resolved_future \<Rightarrow> py_value \<times> resolved_future" where
  "future_next f =
     ((case future_result f of Some v \<Rightarrow> v | None \<Rightarrow> PyNone), f\<lparr>future_result := None\<rparr>)"

fun redis_value_to_py :: "'o py_api \<Rightarrow> redis_value \<Rightarrow> py_error + py_value" where
  "redis_value_to_py py (RBulk b) = Inr (PyBytes b)"
| "redis_value_to_py py (RInt n) = Inr (PyInt n)"
| "redis_value_to_py py RNil = Inr PyNone"
| "redis_value_to_py py (RStatus s) = Inr (PyBytes s)"
| "redis_value_to_py py (RError msg) = Inl (make_response_error py msg)"
| "redis_value_to_py py (RArray items) =
     and_then (traverse (redis_value_to_py py) items) (\<lambda>vs. Inr (PyList vs))"

definition bytes_or_none :: "bytes option \<Rightarrow> py_value" where
  "bytes_or_none v = (case v of Some b \<Rightarrow> PyBytes b | None \<Rightarrow> PyNone)"

definition true_or_none :: "bool \<Rightarrow> py_value" where
  "true_or_none success = (if success then PyBool True else PyNone)"

definition bytes_dict :: "(bytes \<times> bytes) list \<Rightarrow> py_value" where
  "bytes_dict m = PyDict (map (\<lambda>(k, v). (PyBytes k, PyBytes v)) m)"

definition id_bytes :: "stream_id \<Rightarrow> py_value" where
  "id_bytes i = PyBytes (format_stream_id i)"

definition entry_tuple :: "stream_id \<times> fields \<Rightarrow> py_value" where
  "entry_tuple p = PyTuple [id_bytes (fst p), bytes_dict (snd p)]"

definition scored_members :: "bool \<Rightarrow> (bytes \<times> f64 option) list \<Rightarrow> py_value" where
  "scored_members withscores results =
     PyList (map (\<lambda>(m, s). if withscores then PyTuple [PyBytes m, PyFloat (f64_or_zero s)] else PyBytes m) results)"

definition build_xread_pylist :: "(bytes \<times> (stream_id \<times> fields) list) list \<Rightarrow> py_value" where
  "build_xread_pylist results =
     PyList (map (\<lambda>(name, es). PyList [PyBytes name, PyList (map entry_tuple es)]) results)"

definition format_xreadgroup_result_with_py :: "(bytes \<times> (stream_id \<times> fields) list) list \<Rightarrow> py_value" where
  "format_xreadgroup_result_with_py results =
     (if results = [] then PyList []
      else PyList (map (\<lambda>(name, es). PyList [PyBytes name, PyList (map entry_tuple es)]) results))"

text \<open>A task outside the interpreter attaches to it first, which fails while it shuts down.\<close>

definition try_attach :: "bool \<Rightarrow> py_value \<Rightarrow> py_error + py_value" where
  "try_attach attached v =
     (if attached then Inr v else Inl (RuntimeErr ''failed to attach to Python interpreter''))"

definition format_xreadgroup_result ::
    "bool \<Rightarrow> (bytes \<times> (stream_id \<times> fields) list) list \<Rightarrow> py_error + py_value" where
  "format_xreadgroup_result attached results =
     (if results = [] then try_attach attached (PyList [])
      else try_attach attached (format_xreadgroup_result_with_py results))"

definition format_xread_result ::
    "bool \<Rightarrow> (bytes \<times> (stream_id \<times> fields) list) list \<Rightarrow> py_error + py_value" where
  "format_xread_result attached results =
     try_attach attached (if results = [] then PyNone else build_xread_pylist results)"

definition build_xinfo_stream_dict :: "xinfo_stream_snapshot \<Rightarrow> py_value" where
  "build_xinfo_stream_dict snapshot =
     (let format_entry = (\<lambda>e. case e of Some p \<Rightarrow> entry_tuple p | None \<Rightarrow> PyNone);
          n = int (snap_length snapshot)
      in PyDict
           [(PyStr ''length'', PyInt n), (PyStr ''radix-tree-keys'', PyInt n), (PyStr ''radix-tree-nodes'', PyInt (n + 1)),
            (PyStr ''last-generated-id'', id_bytes (snap_last_id snapshot)),
            (PyStr ''groups'', PyInt (int (snap_groups_count snapshot))),
            (PyStr ''first-entry'', format_entry (snap_first_entry snapshot)),
            (PyStr ''last-entry'', format_entry (snap_last_entry snapshot))])"

text \<open>The rows of XINFO arrive as texts; a number is parsed, or 0.\<close>

definition text_field :: "string \<Rightarrow> (string, string) hashmap \<Rightarrow> (py_value \<times> py_value) list" where
  "text_field k info = (case hm_get info k of Some v \<Rightarrow> [(PyStr k, PyBytes v)] | None \<Rightarrow> [])"

definition int_field :: "string \<Rightarrow> (string, string) hashmap \<Rightarrow> (py_value \<times> py_value) list" where
  "int_field k info =
     (case hm_get info k of
        Some v \<Rightarrow> [(PyStr k, PyInt (case parse_i64 v of Some n \<Rightarrow> n | None \<Rightarrow> 0))]
      | None \<Rightarrow> [])"

definition group_dict :: "(string, string) hashmap \<Rightarrow> py_value" where
  "group_dict info =
     PyDict (text_field ''name'' info @ int_field ''consumers'' info @ int_field ''pending'' info @
             text_field ''last-delivered-id'' info)"

definition consumer_dict :: "(string, string) hashmap \<Rightarrow> py_value" where
  "consumer_dict info = PyDict (text_field ''name'' info @ int_field ''pending'' info @ int_field ''idle'' info)"

text \<open>The idle time and the delivery count are cast to \<open>i64\<close>, which wraps.\<close>

definition pending_dict :: "stream_id \<times> bytes \<times> nat \<times> u64 \<Rightarrow> py_value" where
  "pending_dict row =
     (case row of (entry_id, consumer_name, idle, deliveries) \<Rightarrow>
        PyDict [(PyBytes ''message_id'', id_bytes entry_id), (PyBytes ''consumer'', PyBytes consumer_name),
                (PyBytes ''time_since_delivered'', PyInt (sint (of_nat idle :: u64))),
                (PyBytes ''times_delivered'', PyInt (sint deliveries))])"

definition summary_dict :: "usize \<times> stream_id option \<times> stream_id option \<times> (bytes \<times> usize) list \<Rightarrow> py_value" where
  "summary_dict summary =
     (case summary of (n_all, min_id, max_id, cs) \<Rightarrow>
        let id_str = (\<lambda>x. case x of Some i \<Rightarrow> PyStr (format_stream_id i) | None \<Rightarrow> PyNone)
        in PyDict [(PyStr ''pending'', PyInt (int n_all)), (PyStr ''min'', id_str min_id), (PyStr ''max'', id_str max_id),
                   (PyStr ''consumers'',
                    PyList (map (\<lambda>(cname, n). PyDict [(PyStr ''name'', PyBytes cname), (PyStr ''pending'', PyInt (int n))])
                              cs))])"

definition claimed_list :: "bool \<Rightarrow> (stream_id \<times> fields option) list \<Rightarrow> py_value" where
  "claimed_list justid results =
     PyList (concat (map (\<lambda>(i, flds). if justid then [id_bytes i]
                                      else (case flds of Some f \<Rightarrow> [entry_tuple (i, f)] | None \<Rightarrow> [])) results))"

definition autoclaim_tuple :: "stream_id \<times> (stream_id \<times> fields) list \<times> stream_id list \<Rightarrow> py_value" where
  "autoclaim_tuple r =
     (case r of (next_start, claimed, deleted) \<Rightarrow>
        PyTuple [id_bytes next_start, PyList (map entry_tuple claimed), PyList (map id_bytes deleted)])"

fun pop_value :: "lpop_result \<Rightarrow> py_value" where
  "pop_value PopNil = PyNone"
| "pop_value (PopSingle b) = PyBytes b"
| "pop_value (PopArray vs) = PyList (map PyBytes vs)"

definition reports_value :: "(bytes \<times> i64) list \<Rightarrow> py_value" where
  "reports_value results = PyList (map (\<lambda>(ch, n). PyTuple [PyBytes ch, PyInt n]) results)"

end
