(* ===== verification/Py_Methods.thy ===== *)
theory Py_Methods
  imports Py_Objects Key_Commands Hash_Ops Set_Ops Zset_Ops List_Ops Store_State
begin

text \<open>
  The methods that \<^verbatim>\<open>src/src/lib.rs\<close> gives to Python: each converts its arguments, calls the
  store once (XREAD may look up last IDs first), and converts the result or the error.  The
  arguments have the types of the Rust functions; PyO3 has converted those that are not
  Python objects.  Keyword arguments that the caller leaves out have got their defaults.

  The blocking calls are in the theory \<open>Blocking\<close>.
\<close>

section \<open>Actions on the shared store\<close>

text \<open>What all handles of one \<open>BurnerRedis\<close> share, and the messages sent on its broadcast channel.\<close>

record server =
  shared :: store
  broadcast :: "pubsub_message list"

type_synonym 'a action = "server \<Rightarrow> 'a answer \<times> server"

text \<open>The clock: what the n-th reading in a method gives, as an instant and as Unix milliseconds.\<close>

type_synonym clock = "nat \<Rightarrow> instant \<times> u64"

definition read_clock :: "clock \<Rightarrow> nat \<Rightarrow> instant" where
  "read_clock clock n = fst (clock n)"

definition finish :: "'a \<Rightarrow> 'a action" where
  "finish v s = (Return v, s)"

definition raising :: "py_error \<Rightarrow> 'a action" where
  "raising e s = (Raised e, s)"

definition given :: "py_error + 'a \<Rightarrow> ('a \<Rightarrow> 'b action) \<Rightarrow> 'b action" where
  "given r f = (case r of Inl e \<Rightarrow> raising e | Inr x \<Rightarrow> f x)"

definition bind :: "'a action \<Rightarrow> ('a \<Rightarrow> 'b action) \<Rightarrow> 'b action" where
  "bind a f s =
     (case a s of
        (Return x, s1) \<Rightarrow> f x s1
      | (Raised e, s1) \<Rightarrow> (Raised e, s1)
      | (Panicked, s1) \<Rightarrow> (Panicked, s1))"

definition attempt :: "'a answer \<Rightarrow> ('a \<Rightarrow> 'b action) \<Rightarrow> 'b action" where
  "attempt r = bind (\<lambda>s. (r, s))"

text \<open>
  Calls of the store: on its keyspace, with a wake-up of the blocked readers when the method
  gives one, with a panic that leaves the keyspace as it was, and on the registry.
\<close>

definition on_data :: "(keyspace \<Rightarrow> 'a \<times> keyspace) \<Rightarrow> store \<Rightarrow> 'a \<times> store" where
  "on_data f st = (let (r, ks) = f (data st) in (r, st\<lparr>data := ks\<rparr>))"

definition growing :: "(store \<Rightarrow> store) \<Rightarrow> (keyspace \<Rightarrow> 'a \<times> bool \<times> keyspace) \<Rightarrow> store \<Rightarrow> 'a \<times> store" where
  "growing wake f st =
     (let (r, woke, ks) = f (data st); st1 = st\<lparr>data := ks\<rparr> in (r, if woke then wake st1 else st1))"

definition on_registry :: "(registry \<Rightarrow> 'a \<times> registry) \<Rightarrow> store \<Rightarrow> 'a \<times> store" where
  "on_registry f st = (let (r, reg) = f (pubsub st) in (r, st\<lparr>pubsub := reg\<rparr>))"

definition call :: "(store \<Rightarrow> 'a \<times> store) \<Rightarrow> 'a action" where
  "call f s = (let (r, st) = f (shared s) in (Return r, s\<lparr>shared := st\<rparr>))"

definition checked_call :: "(keyspace \<Rightarrow> ('a \<times> keyspace) option) \<Rightarrow> 'a action" where
  "checked_call f s =
     (case f (data (shared s)) of
        None \<Rightarrow> (Panicked, s)
      | Some (r, ks) \<Rightarrow> (Return r, s\<lparr>shared := (shared s)\<lparr>data := ks\<rparr>\<rparr>))"

definition sending :: "(store \<Rightarrow> 'a \<times> pubsub_message list \<times> store) \<Rightarrow> 'a action" where
  "sending f s =
     (let (r, msgs, st) = f (shared s) in (Return r, s\<lparr>shared := st, broadcast := broadcast s @ msgs\<rparr>))"

text \<open>A call whose error is converted and raised.\<close>

definition stored :: "(store_error \<Rightarrow> py_error) \<Rightarrow> (store \<Rightarrow> 'a result \<times> store) \<Rightarrow> ('a \<Rightarrow> 'b action) \<Rightarrow> 'b action" where
  "stored err f k = bind (call f) (\<lambda>r. given (map_err err r) k)"

definition answer :: "py_value \<Rightarrow> resolved_future action" where
  "answer v = finish (resolved v)"

section \<open>Keys and strings\<close>

definition expiry_arg :: "'o py_api \<Rightarrow> 'o option \<Rightarrow> 'o option \<Rightarrow> duration option answer" where
  "expiry_arg py ex px =
     (let some = (\<lambda>r. case r of Return d \<Rightarrow> Return (Some d) | Raised e \<Rightarrow> Raised e | Panicked \<Rightarrow> Panicked)
      in case px of
           Some px_val \<Rightarrow> some (extract_expiry py px_val True)
         | None \<Rightarrow> (case ex of Some ex_val \<Rightarrow> some (extract_expiry py ex_val False) | None \<Rightarrow> Return None))"

definition py_set :: "'o py_api \<Rightarrow> clock \<Rightarrow> 'o \<Rightarrow> 'o \<Rightarrow> 'o option \<Rightarrow> 'o option \<Rightarrow> bool \<Rightarrow> bool \<Rightarrow> resolved_future action" where
  "py_set py clock name val ex px nx xx =
     given (extract_bytes py name) (\<lambda>key.
     given (extract_bytes py val) (\<lambda>v.
     attempt (expiry_arg py ex px) (\<lambda>ttl.
     bind (checked_call (set_cmd (read_clock clock 0) key v ttl nx xx)) (\<lambda>success.
     answer (true_or_none success)))))"

definition py_get :: "'o py_api \<Rightarrow> clock \<Rightarrow> 'o \<Rightarrow> resolved_future action" where
  "py_get py clock name =
     given (extract_bytes py name) (\<lambda>key.
     stored (store_err_to_py py) (on_data (get_cmd (read_clock clock 0) (read_clock clock 1) key)) (\<lambda>r.
     answer (bytes_or_none r)))"

definition py_delete :: "'o py_api \<Rightarrow> clock \<Rightarrow> 'o list \<Rightarrow> resolved_future action" where
  "py_delete py clock names =
     given (traverse (extract_bytes py) names) (\<lambda>keys.
     bind (call (on_data (delete_cmd (read_clock clock 0) keys))) (\<lambda>n.
     answer (PyInt n)))"

definition py_exists :: "'o py_api \<Rightarrow> clock \<Rightarrow> 'o list \<Rightarrow> resolved_future action" where
  "py_exists py clock names =
     given (traverse (extract_bytes py) names) (\<lambda>keys.
     bind (call (on_data (\<lambda>ks. (exists_cmd (read_clock clock 0) keys ks, ks)))) (\<lambda>n.
     answer (PyInt n)))"

definition py_expire :: "'o py_api \<Rightarrow> clock \<Rightarrow> 'o \<Rightarrow> 'o \<Rightarrow> resolved_future action" where
  "py_expire py clock name time =
     given (extract_bytes py name) (\<lambda>key.
     given (expire_seconds py time) (\<lambda>seconds.
     bind (checked_call (expire_cmd (read_clock clock 0) key seconds)) (\<lambda>r.
     answer (PyBool r))))"

definition py_keys :: "clock \<Rightarrow> string \<Rightarrow> resolved_future action" where
  "py_keys clock pattern =
     bind (call (on_data (\<lambda>ks. (keys_cmd (read_clock clock 0) pattern ks, ks)))) (\<lambda>keys.
     answer (PyList (map PyBytes keys)))"

definition py_ttl :: "'o py_api \<Rightarrow> clock \<Rightarrow> 'o \<Rightarrow> resolved_future action" where
  "py_ttl py clock name =
     given (extract_bytes py name) (\<lambda>key.
     bind (call (on_data (ttl_cmd (read_clock clock 0) (read_clock clock 1) key))) (\<lambda>n.
     answer (PyInt n)))"

definition py_mget :: "'o py_api \<Rightarrow> clock \<Rightarrow> 'o list \<Rightarrow> resolved_future action" where
  "py_mget py clock keys =
     given (traverse (extract_bytes py) keys) (\<lambda>key_list.
     bind (call (on_data (\<lambda>ks. (mget_cmd (read_clock clock 0) key_list ks, ks)))) (\<lambda>rs.
     answer (PyList (map bytes_or_none rs))))"

section \<open>Hashes and sets\<close>

definition hset_fields :: "'o py_api \<Rightarrow> 'o option \<Rightarrow> 'o option \<Rightarrow> ('o \<times> 'o) list option \<Rightarrow> py_error + (bytes \<times> bytes) list" where
  "hset_fields py key val mapping =
     traverse (extract_pair py)
       ((case (key, val) of (Some k, Some v) \<Rightarrow> [(k, v)] | _ \<Rightarrow> []) @
        (case mapping of Some dict \<Rightarrow> dict | None \<Rightarrow> []))"

definition py_hset :: "'o py_api \<Rightarrow> clock \<Rightarrow> 'o \<Rightarrow> 'o option \<Rightarrow> 'o option \<Rightarrow> ('o \<times> 'o) list option \<Rightarrow>
    resolved_future action" where
  "py_hset py clock name key val mapping =
     given (extract_bytes py name) (\<lambda>name_bytes.
     given (hset_fields py key val mapping) (\<lambda>fvs.
     stored (store_err_to_py py) (on_data (hset (read_clock clock 0) name_bytes fvs)) (\<lambda>n.
     answer (PyInt n))))"

definition py_hget :: "'o py_api \<Rightarrow> clock \<Rightarrow> 'o \<Rightarrow> 'o \<Rightarrow> resolved_future action" where
  "py_hget py clock name key =
     given (extract_bytes py name) (\<lambda>name_bytes.
     given (extract_bytes py key) (\<lambda>field_bytes.
     stored (store_err_to_py py) (on_data (hget (read_clock clock 0) name_bytes field_bytes)) (\<lambda>r.
     answer (bytes_or_none r))))"

definition py_hdel :: "'o py_api \<Rightarrow> clock \<Rightarrow> 'o \<Rightarrow> 'o list \<Rightarrow> resolved_future action" where
  "py_hdel py clock name keys =
     given (extract_bytes py name) (\<lambda>name_bytes.
     given (traverse (extract_bytes py) keys) (\<lambda>flds.
     stored (store_err_to_py py) (on_data (hdel (read_clock clock 0) name_bytes flds)) (\<lambda>n.
     answer (PyInt n))))"

definition py_hvals :: "'o py_api \<Rightarrow> clock \<Rightarrow> 'o \<Rightarrow> resolved_future action" where
  "py_hvals py clock name =
     given (extract_bytes py name) (\<lambda>name_bytes.
     stored (store_err_to_py py) (on_data (hvals (read_clock clock 0) name_bytes)) (\<lambda>vs.
     answer (PyList (map PyBytes vs))))"

definition py_hgetall :: "'o py_api \<Rightarrow> clock \<Rightarrow> 'o \<Rightarrow> resolved_future action" where
  "py_hgetall py clock name =
     given (extract_bytes py name) (\<lambda>name_bytes.
     stored (store_err_to_py py) (on_data (hgetall (read_clock clock 0) name_bytes)) (\<lambda>m.
     answer (bytes_dict m)))"

definition py_hexists :: "'o py_api \<Rightarrow> clock \<Rightarrow> 'o \<Rightarrow> 'o \<Rightarrow> resolved_future action" where
  "py_hexists py clock name key =
     given (extract_bytes py name) (\<lambda>name_bytes.
     given (extract_bytes py key) (\<lambda>field_bytes.
     stored (store_err_to_py py) (on_data (hexists (read_clock clock 0) name_bytes field_bytes)) (\<lambda>b.
     answer (PyBool b))))"

definition py_hincrby :: "'o py_api \<Rightarrow> clock \<Rightarrow> 'o \<Rightarrow> 'o \<Rightarrow> i64 \<Rightarrow> resolved_future action" where
  "py_hincrby py clock name key amount =
     given (extract_bytes py name) (\<lambda>name_bytes.
     given (extract_bytes py key) (\<lambda>field_bytes.
     stored (store_err_to_py py) (on_data (hincrby (read_clock clock 0) name_bytes field_bytes amount)) (\<lambda>n.
     answer (PyInt n))))"

definition py_sadd :: "'o py_api \<Rightarrow> clock \<Rightarrow> 'o \<Rightarrow> 'o list \<Rightarrow> resolved_future action" where
  "py_sadd py clock name vals =
     given (extract_bytes py name) (\<lambda>name_bytes.
     given (traverse (extract_bytes py) vals) (\<lambda>members.
     stored (store_err_to_py py) (on_data (sadd (read_clock clock 0) name_bytes members)) (\<lambda>n.
     answer (PyInt n))))"

definition py_smembers :: "'o py_api \<Rightarrow> clock \<Rightarrow> 'o \<Rightarrow> resolved_future action" where
  "py_smembers py clock name =
     given (extract_bytes py name) (\<lambda>name_bytes.
     stored (store_err_to_py py) (on_data (smembers (read_clock clock 0) name_bytes)) (\<lambda>members.
     answer (PySet (map PyBytes (hs_collect members)))))"

definition py_sismember :: "'o py_api \<Rightarrow> clock \<Rightarrow> 'o \<Rightarrow> 'o \<Rightarrow> resolved_future action" where
  "py_sismember py clock name val =
     given (extract_bytes py name) (\<lambda>name_bytes.
     given (extract_bytes py val) (\<lambda>member_bytes.
     stored (store_err_to_py py) (on_data (sismember (read_clock clock 0) name_bytes member_bytes)) (\<lambda>b.
     answer (PyBool b))))"

definition py_srem :: "'o py_api \<Rightarrow> clock \<Rightarrow> 'o \<Rightarrow> 'o list \<Rightarrow> resolved_future action" where
  "py_srem py clock name vals =
     given (extract_bytes py name) (\<lambda>name_bytes.
     given (traverse (extract_bytes py) vals) (\<lambda>members.
     stored (store_err_to_py py) (on_data (srem (read_clock clock 0) name_bytes members)) (\<lambda>n.
     answer (PyInt n))))"

section \<open>Sorted sets\<close>

definition score_pair :: "'o py_api \<Rightarrow> 'o \<times> 'o \<Rightarrow> py_error + f64 \<times> bytes" where
  "score_pair py p =
     and_then (extract_bytes py (fst p)) (\<lambda>member. and_then (extract_f64 py (snd p)) (\<lambda>score. Inr (score, member)))"

definition py_zadd :: "'o py_api \<Rightarrow> clock \<Rightarrow> 'o \<Rightarrow> ('o \<times> 'o) list \<Rightarrow> bool \<Rightarrow> bool \<Rightarrow> bool \<Rightarrow> bool \<Rightarrow> bool \<Rightarrow>
    resolved_future action" where
  "py_zadd py clock name mapping nx xx gt lt ch =
     given (extract_bytes py name) (\<lambda>name_bytes.
     given (traverse (score_pair py) mapping) (\<lambda>members.
     stored (store_err_to_py py) (on_data (zadd (read_clock clock 0) name_bytes members nx xx gt lt ch)) (\<lambda>n.
     answer (PyInt n))))"

definition py_zrem :: "'o py_api \<Rightarrow> clock \<Rightarrow> 'o \<Rightarrow> 'o list \<Rightarrow> resolved_future action" where
  "py_zrem py clock name vals =
     given (extract_bytes py name) (\<lambda>name_bytes.
     given (traverse (extract_bytes py) vals) (\<lambda>members.
     stored (store_err_to_py py) (on_data (zrem (read_clock clock 0) name_bytes members)) (\<lambda>n.
     answer (PyInt n))))"

definition py_zrange :: "'o py_api \<Rightarrow> clock \<Rightarrow> 'o \<Rightarrow> i64 \<Rightarrow> i64 \<Rightarrow> bool \<Rightarrow> resolved_future action" where
  "py_zrange py clock name start stop withscores =
     given (extract_bytes py name) (\<lambda>name_bytes.
     stored (store_err_to_py py) (on_data (zrange (read_clock clock 0) name_bytes start stop withscores)) (\<lambda>results.
     answer (scored_members withscores results)))"

definition py_zrangebyscore :: "'o py_api \<Rightarrow> clock \<Rightarrow> 'o \<Rightarrow> 'o \<Rightarrow> 'o \<Rightarrow> bool \<Rightarrow> resolved_future action" where
  "py_zrangebyscore py clock name lo hi withscores =
     given (extract_bytes py name) (\<lambda>name_bytes.
     given (parse_score_bound py lo) (\<lambda>min_f64.
     given (parse_score_bound py hi) (\<lambda>max_f64.
     stored (store_err_to_py py) (on_data (zrangebyscore (read_clock clock 0) name_bytes min_f64 max_f64 withscores)) (\<lambda>results.
     answer (scored_members withscores results)))))"

definition py_zrangestore :: "'o py_api \<Rightarrow> clock \<Rightarrow> 'o \<Rightarrow> 'o \<Rightarrow> 'o \<Rightarrow> 'o \<Rightarrow> resolved_future action" where
  "py_zrangestore py clock dest name lo hi =
     given (extract_bytes py dest) (\<lambda>dst_bytes.
     given (extract_bytes py name) (\<lambda>src_bytes.
     given (parse_score_bound py lo) (\<lambda>min_f64.
     given (parse_score_bound py hi) (\<lambda>max_f64.
     stored (store_err_to_py py) (on_data (zrangestore (read_clock clock 0) dst_bytes src_bytes min_f64 max_f64)) (\<lambda>n.
     answer (PyInt n))))))"

definition py_zremrangebyscore :: "'o py_api \<Rightarrow> clock \<Rightarrow> 'o \<Rightarrow> 'o \<Rightarrow> 'o \<Rightarrow> resolved_future action" where
  "py_zremrangebyscore py clock name lo hi =
     given (extract_bytes py name) (\<lambda>name_bytes.
     given (parse_score_bound py lo) (\<lambda>min_f64.
     given (parse_score_bound py hi) (\<lambda>max_f64.
     stored (store_err_to_py py) (on_data (zremrangebyscore (read_clock clock 0) name_bytes min_f64 max_f64)) (\<lambda>n.
     answer (PyInt n)))))"

definition py_zcard :: "'o py_api \<Rightarrow> clock \<Rightarrow> 'o \<Rightarrow> resolved_future action" where
  "py_zcard py clock name =
     given (extract_bytes py name) (\<lambda>name_bytes.
     stored (store_err_to_py py) (on_data (zcard (read_clock clock 0) name_bytes)) (\<lambda>n.
     answer (PyInt n)))"

definition py_zscore :: "'o py_api \<Rightarrow> clock \<Rightarrow> 'o \<Rightarrow> 'o \<Rightarrow> resolved_future action" where
  "py_zscore py clock name val =
     given (extract_bytes py name) (\<lambda>name_bytes.
     given (extract_bytes py val) (\<lambda>member_bytes.
     stored (store_err_to_py py) (on_data (zscore (read_clock clock 0) name_bytes member_bytes)) (\<lambda>score.
     answer (case score of Some x \<Rightarrow> PyFloat x | None \<Rightarrow> PyNone))))"

definition py_zcount :: "'o py_api \<Rightarrow> clock \<Rightarrow> 'o \<Rightarrow> 'o \<Rightarrow> 'o \<Rightarrow> resolved_future action" where
  "py_zcount py clock name lo hi =
     given (extract_bytes py name) (\<lambda>name_bytes.
     given (parse_score_bound py lo) (\<lambda>min_f64.
     given (parse_score_bound py hi) (\<lambda>max_f64.
     stored (store_err_to_py py) (on_data (zcount (read_clock clock 0) name_bytes min_f64 max_f64)) (\<lambda>n.
     answer (PyInt n)))))"

section \<open>Lists\<close>

definition py_lpush :: "'o py_api \<Rightarrow> clock \<Rightarrow> 'o \<Rightarrow> 'o list \<Rightarrow> resolved_future action" where
  "py_lpush py clock name vals =
     given (extract_bytes py name) (\<lambda>key.
     given (traverse (extract_bytes py) vals) (\<lambda>vs.
     stored (store_err_to_py py) (growing notify_lists (lpush (read_clock clock 0) key vs)) (\<lambda>n.
     answer (PyInt n))))"

definition py_rpush :: "'o py_api \<Rightarrow> clock \<Rightarrow> 'o \<Rightarrow> 'o list \<Rightarrow> resolved_future action" where
  "py_rpush py clock name vals =
     given (extract_bytes py name) (\<lambda>key.
     given (traverse (extract_bytes py) vals) (\<lambda>vs.
     stored (store_err_to_py py) (growing notify_lists (rpush (read_clock clock 0) key vs)) (\<lambda>n.
     answer (PyInt n))))"

definition pop_count :: "i64 option \<Rightarrow> py_error + usize option" where
  "pop_count cnt =
     (case cnt of
        None \<Rightarrow> Inr None
      | Some n \<Rightarrow> if n < 0 then Inl (ValueErr ''count must be non-negative'') else Inr (Some (nat n)))"

definition py_lpop :: "'o py_api \<Rightarrow> clock \<Rightarrow> 'o \<Rightarrow> i64 option \<Rightarrow> resolved_future action" where
  "py_lpop py clock name cnt =
     given (extract_bytes py name) (\<lambda>key.
     given (pop_count cnt) (\<lambda>count_opt.
     stored (store_err_to_py py) (on_data (lpop (read_clock clock 0) key count_opt)) (\<lambda>r.
     answer (pop_value r))))"

definition py_rpop :: "'o py_api \<Rightarrow> clock \<Rightarrow> 'o \<Rightarrow> i64 option \<Rightarrow> resolved_future action" where
  "py_rpop py clock name cnt =
     given (extract_bytes py name) (\<lambda>key.
     given (pop_count cnt) (\<lambda>count_opt.
     stored (store_err_to_py py) (on_data (rpop (read_clock clock 0) key count_opt)) (\<lambda>r.
     answer (pop_value r))))"

definition py_lrange :: "'o py_api \<Rightarrow> clock \<Rightarrow> 'o \<Rightarrow> i64 \<Rightarrow> i64 \<Rightarrow> resolved_future action" where
  "py_lrange py clock name start stop =
     given (extract_bytes py name) (\<lambda>key.
     stored (store_err_to_py py) (on_data (lrange (read_clock clock 0) key start stop)) (\<lambda>elems.
     answer (PyList (map PyBytes elems))))"

definition py_llen :: "'o py_api \<Rightarrow> clock \<Rightarrow> 'o \<Rightarrow> resolved_future action" where
  "py_llen py clock name =
     given (extract_bytes py name) (\<lambda>key.
     stored (store_err_to_py py) (on_data (llen (read_clock clock 0) key)) (\<lambda>n.
     answer (PyInt n)))"

definition py_lindex :: "'o py_api \<Rightarrow> clock \<Rightarrow> 'o \<Rightarrow> i64 \<Rightarrow> resolved_future action" where
  "py_lindex py clock name index =
     given (extract_bytes py name) (\<lambda>key.
     stored (store_err_to_py py) (on_data (lindex (read_clock clock 0) key index)) (\<lambda>r.
     answer (bytes_or_none r)))"

definition py_linsert :: "'o py_api \<Rightarrow> clock \<Rightarrow> 'o \<Rightarrow> 'o \<Rightarrow> 'o \<Rightarrow> 'o \<Rightarrow> resolved_future action" where
  "py_linsert py clock name place refvalue val =
     given (extract_bytes py name) (\<lambda>key.
     given (extract_bytes py refvalue) (\<lambda>pivot.
     given (extract_bytes py val) (\<lambda>v.
     given (extract_token_str py place) (\<lambda>where_str.
     given (map_err (store_err_to_py py) (parse_linsert_where where_str)) (\<lambda>position.
     stored (store_err_to_py py) (on_data (linsert (read_clock clock 0) key position pivot v)) (\<lambda>n.
     answer (PyInt n)))))))"

definition py_lrem :: "'o py_api \<Rightarrow> clock \<Rightarrow> 'o \<Rightarrow> i64 \<Rightarrow> 'o \<Rightarrow> resolved_future action" where
  "py_lrem py clock name cnt val =
     given (extract_bytes py name) (\<lambda>key.
     given (extract_bytes py val) (\<lambda>v.
     stored (store_err_to_py py) (on_data (lrem (read_clock clock 0) key cnt v)) (\<lambda>n.
     answer (PyInt n))))"

definition py_lset :: "'o py_api \<Rightarrow> clock \<Rightarrow> 'o \<Rightarrow> i64 \<Rightarrow> 'o \<Rightarrow> resolved_future action" where
  "py_lset py clock name index val =
     given (extract_bytes py name) (\<lambda>key.
     given (extract_bytes py val) (\<lambda>v.
     stored (store_err_to_py py) (on_data (lset (read_clock clock 0) key index v)) (\<lambda>_.
     answer (PyBool True))))"

definition py_ltrim :: "'o py_api \<Rightarrow> clock \<Rightarrow> 'o \<Rightarrow> i64 \<Rightarrow> i64 \<Rightarrow> resolved_future action" where
  "py_ltrim py clock name start stop =
     given (extract_bytes py name) (\<lambda>key.
     stored (store_err_to_py py) (on_data (ltrim (read_clock clock 0) key start stop)) (\<lambda>_.
     answer (PyBool True)))"

definition token_or :: "'o py_api \<Rightarrow> string \<Rightarrow> 'o option \<Rightarrow> py_error + string" where
  "token_or py dflt obj = (case obj of Some x \<Rightarrow> extract_token_str py x | None \<Rightarrow> Inr dflt)"

definition py_lmove :: "'o py_api \<Rightarrow> clock \<Rightarrow> 'o \<Rightarrow> 'o \<Rightarrow> 'o option \<Rightarrow> 'o option \<Rightarrow> resolved_future action" where
  "py_lmove py clock first_list second_list src dest =
     given (extract_bytes py first_list) (\<lambda>src_key.
     given (extract_bytes py second_list) (\<lambda>dst_key.
     given (token_or py ''LEFT'' src) (\<lambda>src_str.
     given (token_or py ''RIGHT'' dest) (\<lambda>dst_str.
     given (map_err (store_err_to_py py) (parse_list_end src_str)) (\<lambda>src_end.
     given (map_err (store_err_to_py py) (parse_list_end dst_str)) (\<lambda>dst_end.
     stored (store_err_to_py py) (growing notify_lists (lmove_atomic (read_clock clock 0) src_key dst_key src_end dst_end)) (\<lambda>r.
     answer (bytes_or_none r))))))))"

definition py_rpoplpush :: "'o py_api \<Rightarrow> clock \<Rightarrow> 'o \<Rightarrow> 'o \<Rightarrow> resolved_future action" where
  "py_rpoplpush py clock src dst =
     given (extract_bytes py src) (\<lambda>src_key.
     given (extract_bytes py dst) (\<lambda>dst_key.
     stored (store_err_to_py py) (growing notify_lists (rpoplpush_atomic (read_clock clock 0) src_key dst_key)) (\<lambda>r.
     answer (bytes_or_none r))))"

end
