(* ===== verification/Py_Streams.thy ===== *)
theory Py_Streams
  imports Py_Methods Stream_Ops Group_Ops Persistence
begin

text \<open>
  The methods of \<^verbatim>\<open>src/src/lib.rs\<close> on streams, consumer groups, scripts, channels and the
  saved file.
\<close>

section \<open>Stream IDs\<close>

definition bad_id :: "string \<Rightarrow> string \<Rightarrow> py_error" where
  "bad_id what s = ValueErr (what @ '': '' @ s)"

definition stream_id_arg :: "string \<Rightarrow> py_error + stream_id" where
  "stream_id_arg s = ok_or (bad_id ''Invalid stream ID format'' s) (parse_stream_id s)"

text \<open>The IDs of XADD, of XTRIM, the two ends of a range, the start of XAUTOCLAIM and of XGROUP CREATE.\<close>

definition xadd_id :: "string \<Rightarrow> py_error + stream_id option" where
  "xadd_id s = (if s = ''*'' then Inr None else and_then (stream_id_arg s) (\<lambda>i. Inr (Some i)))"

definition minid_arg :: "string option \<Rightarrow> py_error + stream_id option" where
  "minid_arg minid =
     (case minid of
        Some s \<Rightarrow> and_then (ok_or (bad_id ''Invalid stream ID for minid'' s) (parse_stream_id s)) (\<lambda>i. Inr (Some i))
      | None \<Rightarrow> Inr None)"

definition min_id_arg :: "string \<Rightarrow> py_error + stream_id" where
  "min_id_arg s = (if s = ''-'' then Inr (0, 0) else stream_id_arg s)"

definition max_id_arg :: "string \<Rightarrow> py_error + stream_id" where
  "max_id_arg s = (if s = ''+'' then Inr (u64_MAX, u64_MAX) else stream_id_arg s)"

definition start_id_arg :: "string \<Rightarrow> py_error + stream_id" where
  "start_id_arg s = (if s = ''0'' \<or> s = ''0-0'' then Inr (0, 0) else stream_id_arg s)"

definition group_id_arg :: "string \<Rightarrow> py_error + stream_id" where
  "group_id_arg s =
     (if s = ''$'' then Inr (u64_MAX, u64_MAX)
      else if s = ''0'' \<or> s = ''0-0'' then Inr (0, 0) else stream_id_arg s)"

definition id_list :: "'o py_api \<Rightarrow> string \<Rightarrow> 'o list \<Rightarrow> py_error + stream_id list" where
  "id_list py what objs =
     traverse (\<lambda>obj. and_then (extract_id_str py obj) (\<lambda>s. ok_or (bad_id what s) (parse_stream_id s))) objs"

section \<open>Streams\<close>

text \<open>XADD accepts \<open>maxlen\<close> and \<open>minid\<close> and does not use them.\<close>

definition py_xadd :: "'o py_api \<Rightarrow> clock \<Rightarrow> 'o \<Rightarrow> ('o \<times> 'o) list \<Rightarrow> string \<Rightarrow> usize option \<Rightarrow> string option \<Rightarrow>
    resolved_future action" where
  "py_xadd py clock name flds id_str maxlen minid =
     given (extract_bytes py name) (\<lambda>key.
     given (extract_stream_fields py flds) (\<lambda>field_map.
     given (xadd_id id_str) (\<lambda>id_opt.
     stored (store_err_to_py py) (growing notify_streams (xadd (read_clock clock 0) (snd (clock 0)) key field_map id_opt)) (\<lambda>i.
     answer (id_bytes i)))))"

text \<open>XREAD resolves each ID before it looks at the next stream; \<open>$\<close> is the last ID at that moment.\<close>

definition xread_target :: "'o py_api \<Rightarrow> instant \<Rightarrow> 'o \<times> 'o \<Rightarrow> (bytes \<times> stream_id) action" where
  "xread_target py t p =
     given (extract_bytes py (fst p)) (\<lambda>key.
     given (extract_id_str py (snd p)) (\<lambda>id_str.
     if id_str = ''0'' \<or> id_str = ''0-0'' then finish (key, (0, 0))
     else if id_str = ''$'' then
       bind (call (on_data (stream_last_id t key))) (\<lambda>i.
       finish (key, (case i of Some x \<Rightarrow> x | None \<Rightarrow> (0, 0))))
     else given (ok_or (bad_id ''Invalid stream ID'' id_str) (parse_stream_id id_str)) (\<lambda>i. finish (key, i))))"

fun xread_targets :: "'o py_api \<Rightarrow> clock \<Rightarrow> nat \<Rightarrow> ('o \<times> 'o) list \<Rightarrow> (bytes \<times> stream_id) list action" where
  "xread_targets py clock n [] = finish []"
| "xread_targets py clock n (p # ps) =
     bind (xread_target py (read_clock clock n) p) (\<lambda>t.
     bind (xread_targets py clock (Suc n) ps) (\<lambda>ts. finish (t # ts)))"

definition py_xread :: "'o py_api \<Rightarrow> clock \<Rightarrow> ('o \<times> 'o) list \<Rightarrow> usize option \<Rightarrow> resolved_future action" where
  "py_xread py clock streams cnt =
     bind (xread_targets py clock 0 streams) (\<lambda>ts.
     stored (store_err_to_py py) (on_data (xread (read_clock clock (length streams)) (map fst ts) (map snd ts) cnt)) (\<lambda>results.
     answer (if results = [] then PyNone else build_xread_pylist results)))"

definition py_xlen :: "'o py_api \<Rightarrow> clock \<Rightarrow> 'o \<Rightarrow> resolved_future action" where
  "py_xlen py clock name =
     given (extract_bytes py name) (\<lambda>key.
     stored (store_err_to_py py) (on_data (xlen (read_clock clock 0) key)) (\<lambda>n.
     answer (PyInt (int n))))"

definition py_xtrim :: "'o py_api \<Rightarrow> clock \<Rightarrow> 'o \<Rightarrow> usize option \<Rightarrow> string option \<Rightarrow> resolved_future action" where
  "py_xtrim py clock name maxlen minid =
     given (extract_bytes py name) (\<lambda>key.
     given (minid_arg minid) (\<lambda>minid_parsed.
     stored (store_err_to_py py) (on_data (xtrim (read_clock clock 0) key maxlen minid_parsed)) (\<lambda>n.
     answer (PyInt (int n)))))"

definition py_xdel :: "'o py_api \<Rightarrow> clock \<Rightarrow> 'o \<Rightarrow> 'o list \<Rightarrow> resolved_future action" where
  "py_xdel py clock name ids =
     given (extract_bytes py name) (\<lambda>key.
     given (id_list py ''Invalid stream ID format'' ids) (\<lambda>stream_ids.
     stored (store_err_to_py py) (on_data (xdel (read_clock clock 0) key stream_ids)) (\<lambda>n.
     answer (PyInt n))))"

definition py_xrange :: "'o py_api \<Rightarrow> clock \<Rightarrow> 'o \<Rightarrow> string \<Rightarrow> string \<Rightarrow> usize option \<Rightarrow> resolved_future action" where
  "py_xrange py clock name min_str max_str cnt =
     given (extract_bytes py name) (\<lambda>key.
     given (min_id_arg min_str) (\<lambda>min_id.
     given (max_id_arg max_str) (\<lambda>max_id.
     stored (store_err_to_py py) (on_data (xrange (read_clock clock 0) key min_id max_id cnt)) (\<lambda>es.
     answer (PyList (map entry_tuple es))))))"

definition py_stream_last_id :: "'o py_api \<Rightarrow> clock \<Rightarrow> 'o \<Rightarrow> py_value action" where
  "py_stream_last_id py clock key =
     given (extract_bytes py key) (\<lambda>key_bytes.
     bind (call (on_data (stream_last_id (read_clock clock 0) key_bytes))) (\<lambda>i.
     finish (case i of Some x \<Rightarrow> id_bytes x | None \<Rightarrow> PyNone)))"

section \<open>Consumer groups\<close>

definition py_xgroup_create :: "'o py_api \<Rightarrow> clock \<Rightarrow> 'o \<Rightarrow> 'o \<Rightarrow> string \<Rightarrow> bool \<Rightarrow> resolved_future action" where
  "py_xgroup_create py clock name groupname id_str mkstream =
     given (extract_bytes py name) (\<lambda>key.
     given (extract_bytes py groupname) (\<lambda>grp.
     given (group_id_arg id_str) (\<lambda>i.
     stored (store_err_to_py_for_cmd py ''XGROUP CREATE'')
       (on_data (xgroup_create (read_clock clock 0) key grp i mkstream)) (\<lambda>_.
     answer (PyBool True)))))"

definition py_xgroup_destroy :: "'o py_api \<Rightarrow> clock \<Rightarrow> 'o \<Rightarrow> 'o \<Rightarrow> resolved_future action" where
  "py_xgroup_destroy py clock name groupname =
     given (extract_bytes py name) (\<lambda>key.
     given (extract_bytes py groupname) (\<lambda>grp.
     stored (store_err_to_py py) (on_data (xgroup_destroy (read_clock clock 0) key grp)) (\<lambda>destroyed.
     answer (PyInt (if destroyed then 1 else 0)))))"

definition group_target :: "'o py_api \<Rightarrow> 'o \<times> 'o \<Rightarrow> py_error + bytes \<times> string" where
  "group_target py p =
     and_then (extract_bytes py (fst p)) (\<lambda>key.
     and_then (extract_id_str py (snd p)) (\<lambda>id_str.
     if id_str = ''$''
     then Inl (make_response_error py ''ERR the $ ID meaning is only valid within XREAD'')
     else Inr (key, id_str)))"

definition py_xreadgroup :: "'o py_api \<Rightarrow> clock \<Rightarrow> 'o \<Rightarrow> 'o \<Rightarrow> ('o \<times> 'o) list \<Rightarrow> usize option \<Rightarrow> resolved_future action" where
  "py_xreadgroup py clock groupname consumername streams cnt =
     given (extract_bytes py groupname) (\<lambda>grp.
     given (extract_bytes py consumername) (\<lambda>cname.
     given (traverse (group_target py) streams) (\<lambda>ts.
     stored (store_err_to_py_for_cmd py ''XREADGROUP'')
       (on_data (xreadgroup (read_clock clock 0) grp cname (map fst ts) (map snd ts) cnt)) (\<lambda>results.
     answer (format_xreadgroup_result_with_py results)))))"

definition py_xack :: "'o py_api \<Rightarrow> clock \<Rightarrow> 'o \<Rightarrow> 'o \<Rightarrow> 'o list \<Rightarrow> resolved_future action" where
  "py_xack py clock name groupname ids =
     given (extract_bytes py name) (\<lambda>key.
     given (extract_bytes py groupname) (\<lambda>grp.
     given (id_list py ''Invalid stream ID format'' ids) (\<lambda>stream_ids.
     stored (store_err_to_py_for_cmd py ''XACK'') (on_data (xack (read_clock clock 0) key grp stream_ids)) (\<lambda>n.
     answer (PyInt n)))))"

definition py_xautoclaim :: "'o py_api \<Rightarrow> clock \<Rightarrow> 'o \<Rightarrow> 'o \<Rightarrow> 'o \<Rightarrow> u64 \<Rightarrow> string \<Rightarrow> usize option \<Rightarrow> resolved_future action" where
  "py_xautoclaim py clock name groupname consumername min_idle start_str cnt =
     given (extract_bytes py name) (\<lambda>key.
     given (extract_bytes py groupname) (\<lambda>grp.
     given (extract_bytes py consumername) (\<lambda>cname.
     given (start_id_arg start_str) (\<lambda>start.
     stored (store_err_to_py_for_cmd py ''XAUTOCLAIM'')
       (on_data (xautoclaim (read_clock clock 0) key grp cname min_idle start cnt)) (\<lambda>r.
     answer (autoclaim_tuple r))))))"

text \<open>The panic that XCLAIM has in its model (an instant that underflows) is a panic of the method.\<close>

definition claim_answer :: "bool \<Rightarrow> (stream_id \<times> fields option) list option \<Rightarrow> py_value action" where
  "claim_answer justid r s = ((case r of Some results \<Rightarrow> Return (claimed_list justid results) | None \<Rightarrow> Panicked), s)"

definition py_xclaim :: "'o py_api \<Rightarrow> clock \<Rightarrow> 'o \<Rightarrow> 'o \<Rightarrow> 'o \<Rightarrow> u64 \<Rightarrow> 'o \<Rightarrow> u64 option \<Rightarrow> u64 option \<Rightarrow> u64 option \<Rightarrow>
    bool \<Rightarrow> bool \<Rightarrow> resolved_future action" where
  "py_xclaim py clock name groupname consumername min_idle message_ids idle time retrycount force justid =
     given (extract_bytes py name) (\<lambda>key.
     given (extract_bytes py groupname) (\<lambda>grp.
     given (extract_bytes py consumername) (\<lambda>cname.
     given (extract_objects py message_ids) (\<lambda>ids_list.
     given (id_list py ''Invalid stream ID'' ids_list) (\<lambda>ids.
     stored (store_err_to_py_for_cmd py ''XCLAIM'')
       (on_data (xclaim (read_clock clock 0) key grp cname min_idle ids idle retrycount force justid)) (\<lambda>r.
     bind (claim_answer justid r) answer))))))"

definition py_xinfo_stream :: "'o py_api \<Rightarrow> clock \<Rightarrow> 'o \<Rightarrow> resolved_future action" where
  "py_xinfo_stream py clock name =
     given (extract_bytes py name) (\<lambda>key.
     stored (store_err_to_py py) (on_data (xinfo_stream (read_clock clock 0) key)) (\<lambda>r.
     case r of
       Some snapshot \<Rightarrow> answer (build_xinfo_stream_dict snapshot)
     | None \<Rightarrow> raising (make_response_error py (''ERR no such key '' @ quoted (utf8_lossy key)))))"

definition py_xinfo_groups :: "'o py_api \<Rightarrow> clock \<Rightarrow> 'o \<Rightarrow> resolved_future action" where
  "py_xinfo_groups py clock name =
     given (extract_bytes py name) (\<lambda>key.
     stored (store_err_to_py_for_cmd py ''XINFO GROUPS'') (on_data (xinfo_groups (read_clock clock 0) key)) (\<lambda>infos.
     answer (PyList (map group_dict infos))))"

definition py_xinfo_consumers :: "'o py_api \<Rightarrow> clock \<Rightarrow> 'o \<Rightarrow> 'o \<Rightarrow> resolved_future action" where
  "py_xinfo_consumers py clock name groupname =
     given (extract_bytes py name) (\<lambda>key.
     given (extract_bytes py groupname) (\<lambda>grp.
     stored (store_err_to_py_for_cmd py ''XINFO CONSUMERS'') (on_data (xinfo_consumers (read_clock clock 0) key grp)) (\<lambda>infos.
     answer (PyList (map consumer_dict infos)))))"

definition consumer_arg :: "'o py_api \<Rightarrow> 'o option \<Rightarrow> py_error + bytes option" where
  "consumer_arg py consumername =
     (case consumername of Some c \<Rightarrow> and_then (extract_bytes py c) (\<lambda>b. Inr (Some b)) | None \<Rightarrow> Inr None)"

definition py_xpending_range :: "'o py_api \<Rightarrow> clock \<Rightarrow> 'o \<Rightarrow> 'o \<Rightarrow> string \<Rightarrow> string \<Rightarrow> usize \<Rightarrow> 'o option \<Rightarrow> u64 option \<Rightarrow>
    resolved_future action" where
  "py_xpending_range py clock name groupname min_str max_str cnt consumername idle =
     given (extract_bytes py name) (\<lambda>key.
     given (extract_bytes py groupname) (\<lambda>grp.
     given (consumer_arg py consumername) (\<lambda>consumer_filter.
     given (min_id_arg min_str) (\<lambda>min_id.
     given (max_id_arg max_str) (\<lambda>max_id.
     stored (store_err_to_py_for_cmd py ''XPENDING'')
       (on_data (xpending_range (read_clock clock 0) key grp min_id max_id cnt consumer_filter idle)) (\<lambda>rows.
     answer (PyList (map pending_dict rows))))))))"

definition py_xpending :: "'o py_api \<Rightarrow> clock \<Rightarrow> 'o \<Rightarrow> 'o \<Rightarrow> resolved_future action" where
  "py_xpending py clock name groupname =
     given (extract_bytes py name) (\<lambda>key.
     given (extract_bytes py groupname) (\<lambda>grp.
     stored (store_err_to_py_for_cmd py ''XPENDING'') (on_data (xpending_summary (read_clock clock 0) key grp)) (\<lambda>summary.
     answer (summary_dict summary))))"

section \<open>Scripts\<close>

text \<open>The Lua machine, its printing of floats, and SHA-1: the parameters of the script engine.\<close>

record lua_host =
  float_text :: "f64 \<Rightarrow> string"
  machine :: lua_vm
  sha1_hex :: "string \<Rightarrow> string"

definition eval_answer :: "'o py_api \<Rightarrow> (string \<Rightarrow> py_error) \<Rightarrow> eval_result \<Rightarrow> py_value action" where
  "eval_answer py err r s =
     ((case r of
         EvalOk v \<Rightarrow> (case redis_value_to_py py v of Inr x \<Rightarrow> Return x | Inl e \<Rightarrow> Raised e)
       | EvalErr msg \<Rightarrow> Raised (err msg)
       | EvalPanic \<Rightarrow> Panicked), s)"

definition noscript_or_response :: "'o py_api \<Rightarrow> string \<Rightarrow> py_error" where
  "noscript_or_response py msg =
     (if take 8 msg = ''NOSCRIPT'' then make_noscript_error py msg else make_response_error py msg)"

definition py_eval :: "'o py_api \<Rightarrow> lua_host \<Rightarrow> clock \<Rightarrow> string \<Rightarrow> usize \<Rightarrow> 'o list \<Rightarrow> resolved_future action" where
  "py_eval py lua clock script numkeys keys_and_args =
     given (traverse (extract_bytes py) keys_and_args) (\<lambda>bs.
     bind (sending (eval (float_text lua) (sha1_hex lua) (machine lua) clock script (take numkeys bs) (drop numkeys bs))) (\<lambda>r.
     bind (eval_answer py (make_response_error py) r) answer))"

definition py_evalsha :: "'o py_api \<Rightarrow> lua_host \<Rightarrow> clock \<Rightarrow> string \<Rightarrow> usize \<Rightarrow> 'o list \<Rightarrow> resolved_future action" where
  "py_evalsha py lua clock sha numkeys keys_and_args =
     given (traverse (extract_bytes py) keys_and_args) (\<lambda>bs.
     bind (sending (evalsha (float_text lua) (machine lua) clock sha (take numkeys bs) (drop numkeys bs))) (\<lambda>r.
     bind (eval_answer py (noscript_or_response py) r) answer))"

definition py_script_load :: "lua_host \<Rightarrow> string \<Rightarrow> resolved_future action" where
  "py_script_load lua script = bind (call (script_load (sha1_hex lua) script)) (\<lambda>sha. answer (PyStr sha))"

definition py_script_exists :: "'o py_api \<Rightarrow> 'o list \<Rightarrow> resolved_future action" where
  "py_script_exists py args =
     given (traverse (extract_string py) args) (\<lambda>shas.
     bind (call (\<lambda>st. (script_exists shas st, st))) (\<lambda>results.
     answer (PyList (map PyBool results))))"

section \<open>Channels\<close>

definition py_publish :: "'o py_api \<Rightarrow> 'o \<Rightarrow> 'o \<Rightarrow> resolved_future action" where
  "py_publish py channel message =
     given (extract_bytes py channel) (\<lambda>channel_bytes.
     given (extract_bytes py message) (\<lambda>message_bytes.
     bind (sending (\<lambda>st. let (n, msgs) = publish channel_bytes message_bytes (pubsub st) in (n, msgs, st))) (\<lambda>n.
     answer (PyInt n))))"

definition py_new_subscriber :: "py_value action" where
  "py_new_subscriber = bind (call (on_registry new_subscriber)) (\<lambda>sid. finish (PyInt (uint sid)))"

definition py_subscribe_channels :: "u64 \<Rightarrow> bytes list \<Rightarrow> resolved_future action" where
  "py_subscribe_channels sid channels =
     bind (call (on_registry (subscribe sid channels))) (\<lambda>results. answer (reports_value results))"

definition py_unsubscribe_channels :: "u64 \<Rightarrow> bytes list \<Rightarrow> resolved_future action" where
  "py_unsubscribe_channels sid channels =
     bind (call (on_registry (unsubscribe sid channels))) (\<lambda>results. answer (reports_value results))"

definition py_psubscribe_patterns :: "u64 \<Rightarrow> bytes list \<Rightarrow> resolved_future action" where
  "py_psubscribe_patterns sid patterns =
     bind (call (on_registry (psubscribe sid patterns))) (\<lambda>results. answer (reports_value results))"

definition py_punsubscribe_patterns :: "u64 \<Rightarrow> bytes list \<Rightarrow> resolved_future action" where
  "py_punsubscribe_patterns sid patterns =
     bind (call (on_registry (punsubscribe sid patterns))) (\<lambda>results. answer (reports_value results))"

definition py_pubsub_channels :: "bytes option \<Rightarrow> resolved_future action" where
  "py_pubsub_channels pattern =
     bind (call (\<lambda>st. (pubsub_channels pattern (pubsub st), st))) (\<lambda>chs. answer (PyList (map PyBytes chs)))"

definition py_pubsub_numsub :: "bytes list \<Rightarrow> resolved_future action" where
  "py_pubsub_numsub channels =
     bind (call (\<lambda>st. (pubsub_numsub channels (pubsub st), st))) (\<lambda>rs. answer (reports_value rs))"

definition py_pubsub_numpat :: "resolved_future action" where
  "py_pubsub_numpat = bind (call (\<lambda>st. (pubsub_numpat (pubsub st), st))) (\<lambda>n. answer (PyInt n))"

text \<open>Closing wakes the blocked calls and stops the listeners.\<close>

definition py_aclose :: "resolved_future action" where
  "py_aclose = bind (call (\<lambda>st. ((), shutdown st))) (\<lambda>_. answer PyNone)"

section \<open>Start, sweep and save\<close>

fun persistence_error_text :: "persistence_error \<Rightarrow> string" where
  "persistence_error_text (IoErr e) = ''IO error: '' @ e"
| "persistence_error_text (SerializeErr e) = ''Serialization error: '' @ e"
| "persistence_error_text (DeserializeErr e) = ''Deserialization error: '' @ e"

text \<open>A new store reads its file when it has one; a corrupt file is reported and the store is empty.\<close>

definition py_new :: "(bytes \<Rightarrow> string + persistable_store) \<Rightarrow> string option \<Rightarrow> string option \<Rightarrow> file_system \<Rightarrow> instant \<Rightarrow>
    store answer" where
  "py_new decode read_error persistence_path fs t =
     (case persistence_path of
        None \<Rightarrow> Return new_store
      | Some path \<Rightarrow>
          (case load_into decode read_error path fs t new_store of
             Some (r, st) \<Rightarrow> Return st
           | None \<Rightarrow> Panicked))"

definition sweep_tick :: "instant \<Rightarrow> store \<Rightarrow> store" where
  "sweep_tick t st = snd (on_data (sweep_expired t) st)"

definition save_target :: "string option \<Rightarrow> string option \<Rightarrow> string" where
  "save_target path persistence_path =
     (case path of
        Some p \<Rightarrow> p
      | None \<Rightarrow> (case persistence_path of Some p \<Rightarrow> p | None \<Rightarrow> ''burner-redis.dat''))"

definition save_answer :: "persistence_error + unit \<Rightarrow> resolved_future answer" where
  "save_answer r =
     (case r of
        Inl e \<Rightarrow> Raised (IoError (persistence_error_text e))
      | Inr _ \<Rightarrow> Return (resolved (PyBool True)))"

end
