(* ===== verification/Py_Pipeline.thy ===== *)
theory Py_Pipeline
  imports Py_Streams
begin

text \<open>
  \<open>execute_pipeline\<close> and \<open>dispatch_pipeline_command\<close> of \<^verbatim>\<open>src/src/lib.rs\<close>: a pipeline entry
  is a cmd name, a tuple of positional arguments and a dict of keyword arguments, all of
  them Python objects, and each arm of the dispatcher converts what it needs.
\<close>

section \<open>Arguments of an entry\<close>

definition arg :: "'o list \<Rightarrow> nat \<Rightarrow> py_error + 'o" where
  "arg args i = (if i < length args then Inr (args ! i) else Inl (IndexErr ''tuple index out of range''))"

definition dict_arg :: "'o py_api \<Rightarrow> 'o list \<Rightarrow> nat \<Rightarrow> py_error + ('o \<times> 'o) list" where
  "dict_arg py args i = and_then (arg args i) (as_dict py)"

definition present :: "'o py_api \<Rightarrow> 'o option \<Rightarrow> 'o option" where
  "present py v = (case v of Some x \<Rightarrow> if is_none py x then None else Some x | None \<Rightarrow> None)"

text \<open>
  Keyword arguments: \<open>kwarg_or\<close> extracts and fails, with a default for a missing one,
  \<open>kwarg_opt\<close> takes an object that is not \<open>None\<close>, and \<open>kwarg_lenient\<close> also drops one that
  does not convert (\<open>v.extract().ok()\<close>).
\<close>

definition kwarg_or :: "'o py_api \<Rightarrow> 'o \<Rightarrow> string \<Rightarrow> ('o \<Rightarrow> py_error + 'a) \<Rightarrow> 'a \<Rightarrow> py_error + 'a" where
  "kwarg_or py kw name f dflt =
     and_then (dict_lookup py kw name) (\<lambda>v. case v of Some x \<Rightarrow> f x | None \<Rightarrow> Inr dflt)"

definition kwarg_opt :: "'o py_api \<Rightarrow> 'o \<Rightarrow> string \<Rightarrow> py_error + 'o option" where
  "kwarg_opt py kw name = and_then (dict_lookup py kw name) (\<lambda>v. Inr (present py v))"

definition kwarg_lenient :: "'o py_api \<Rightarrow> 'o \<Rightarrow> string \<Rightarrow> ('o \<Rightarrow> py_error + 'a) \<Rightarrow> py_error + 'a option" where
  "kwarg_lenient py kw name f =
     and_then (dict_lookup py kw name)
       (\<lambda>v. Inr (case present py v of Some x \<Rightarrow> ok (f x) | None \<Rightarrow> None))"

section \<open>Keys, strings, hashes and sets\<close>

definition pipe_set :: "'o py_api \<Rightarrow> clock \<Rightarrow> 'o list \<Rightarrow> 'o \<Rightarrow> py_value action" where
  "pipe_set py clock args kw =
     given (arg args 0) (\<lambda>name.
     given (arg args 1) (\<lambda>val.
     given (kwarg_opt py kw ''ex'') (\<lambda>ex.
     given (kwarg_opt py kw ''px'') (\<lambda>px.
     given (kwarg_or py kw ''nx'' (extract_bool py) False) (\<lambda>nx.
     given (kwarg_or py kw ''xx'' (extract_bool py) False) (\<lambda>xx.
     given (extract_bytes py name) (\<lambda>key.
     given (extract_bytes py val) (\<lambda>v.
     attempt (expiry_arg py ex px) (\<lambda>ttl.
     bind (checked_call (set_cmd (read_clock clock 0) key v ttl nx xx)) (\<lambda>success.
     finish (true_or_none success)))))))))))"

definition pipe_setex :: "'o py_api \<Rightarrow> clock \<Rightarrow> 'o list \<Rightarrow> 'o \<Rightarrow> py_value action" where
  "pipe_setex py clock args kw =
     given (arg args 0) (\<lambda>name.
     given (arg args 1) (\<lambda>time.
     given (arg args 2) (\<lambda>val.
     given (extract_bytes py name) (\<lambda>key.
     given (extract_bytes py val) (\<lambda>v.
     attempt (extract_expiry py time False) (\<lambda>ttl.
     bind (checked_call (set_cmd (read_clock clock 0) key v (Some ttl) False False)) (\<lambda>success.
     finish (true_or_none success))))))))"

definition pipe_get :: "'o py_api \<Rightarrow> clock \<Rightarrow> 'o list \<Rightarrow> 'o \<Rightarrow> py_value action" where
  "pipe_get py clock args kw =
     given (arg args 0) (\<lambda>name.
     given (extract_bytes py name) (\<lambda>key.
     stored (store_err_to_py py) (on_data (get_cmd (read_clock clock 0) (read_clock clock 1) key)) (\<lambda>r.
     finish (bytes_or_none r))))"

definition pipe_delete :: "'o py_api \<Rightarrow> clock \<Rightarrow> 'o list \<Rightarrow> 'o \<Rightarrow> py_value action" where
  "pipe_delete py clock args kw =
     given (traverse (extract_bytes py) args) (\<lambda>keys.
     bind (call (on_data (delete_cmd (read_clock clock 0) keys))) (\<lambda>n.
     finish (PyInt n)))"

definition pipe_exists :: "'o py_api \<Rightarrow> clock \<Rightarrow> 'o list \<Rightarrow> 'o \<Rightarrow> py_value action" where
  "pipe_exists py clock args kw =
     given (traverse (extract_bytes py) args) (\<lambda>keys.
     bind (call (on_data (\<lambda>ks. (exists_cmd (read_clock clock 0) keys ks, ks)))) (\<lambda>n.
     finish (PyInt n)))"

definition pipe_expire :: "'o py_api \<Rightarrow> clock \<Rightarrow> 'o list \<Rightarrow> 'o \<Rightarrow> py_value action" where
  "pipe_expire py clock args kw =
     given (arg args 0) (\<lambda>name.
     given (arg args 1) (\<lambda>time.
     given (extract_bytes py name) (\<lambda>key.
     given (expire_seconds py time) (\<lambda>seconds.
     bind (checked_call (expire_cmd (read_clock clock 0) key seconds)) (\<lambda>r.
     finish (PyBool r))))))"

definition pipe_keys :: "'o py_api \<Rightarrow> clock \<Rightarrow> 'o list \<Rightarrow> 'o \<Rightarrow> py_value action" where
  "pipe_keys py clock args kw =
     given (arg args 0) (\<lambda>p.
     given (extract_string py p) (\<lambda>pattern.
     bind (call (on_data (\<lambda>ks. (keys_cmd (read_clock clock 0) pattern ks, ks)))) (\<lambda>keys.
     finish (PyList (map PyBytes keys)))))"

definition pipe_ttl :: "'o py_api \<Rightarrow> clock \<Rightarrow> 'o list \<Rightarrow> 'o \<Rightarrow> py_value action" where
  "pipe_ttl py clock args kw =
     given (arg args 0) (\<lambda>name.
     given (extract_bytes py name) (\<lambda>key.
     bind (call (on_data (ttl_cmd (read_clock clock 0) (read_clock clock 1) key))) (\<lambda>n.
     finish (PyInt n))))"

definition pipe_mget :: "'o py_api \<Rightarrow> clock \<Rightarrow> 'o list \<Rightarrow> 'o \<Rightarrow> py_value action" where
  "pipe_mget py clock args kw =
     given (traverse (extract_bytes py) args) (\<lambda>key_list.
     bind (call (on_data (\<lambda>ks. (mget_cmd (read_clock clock 0) key_list ks, ks)))) (\<lambda>rs.
     finish (PyList (map bytes_or_none rs))))"

text \<open>A mapping that is not a dict is dropped.\<close>

definition pipe_hset :: "'o py_api \<Rightarrow> clock \<Rightarrow> 'o list \<Rightarrow> 'o \<Rightarrow> py_value action" where
  "pipe_hset py clock args kw =
     given (arg args 0) (\<lambda>name.
     given (extract_bytes py name) (\<lambda>name_bytes.
     given (kwarg_opt py kw ''key'') (\<lambda>key_opt.
     given (kwarg_opt py kw ''value'') (\<lambda>value_opt.
     given (kwarg_lenient py kw ''mapping'' (as_dict py)) (\<lambda>mapping.
     given (hset_fields py key_opt value_opt mapping) (\<lambda>fvs.
     stored (store_err_to_py py) (on_data (hset (read_clock clock 0) name_bytes fvs)) (\<lambda>n.
     finish (PyInt n))))))))"

definition pipe_hget :: "'o py_api \<Rightarrow> clock \<Rightarrow> 'o list \<Rightarrow> 'o \<Rightarrow> py_value action" where
  "pipe_hget py clock args kw =
     given (arg args 0) (\<lambda>name.
     given (arg args 1) (\<lambda>key.
     given (extract_bytes py name) (\<lambda>name_bytes.
     given (extract_bytes py key) (\<lambda>field_bytes.
     stored (store_err_to_py py) (on_data (hget (read_clock clock 0) name_bytes field_bytes)) (\<lambda>r.
     finish (bytes_or_none r))))))"

definition pipe_hdel :: "'o py_api \<Rightarrow> clock \<Rightarrow> 'o list \<Rightarrow> 'o \<Rightarrow> py_value action" where
  "pipe_hdel py clock args kw =
     given (arg args 0) (\<lambda>name.
     given (extract_bytes py name) (\<lambda>name_bytes.
     given (traverse (extract_bytes py) (drop 1 args)) (\<lambda>flds.
     stored (store_err_to_py py) (on_data (hdel (read_clock clock 0) name_bytes flds)) (\<lambda>n.
     finish (PyInt n)))))"

definition pipe_hvals :: "'o py_api \<Rightarrow> clock \<Rightarrow> 'o list \<Rightarrow> 'o \<Rightarrow> py_value action" where
  "pipe_hvals py clock args kw =
     given (arg args 0) (\<lambda>name.
     given (extract_bytes py name) (\<lambda>name_bytes.
     stored (store_err_to_py py) (on_data (hvals (read_clock clock 0) name_bytes)) (\<lambda>vs.
     finish (PyList (map PyBytes vs)))))"

definition pipe_hgetall :: "'o py_api \<Rightarrow> clock \<Rightarrow> 'o list \<Rightarrow> 'o \<Rightarrow> py_value action" where
  "pipe_hgetall py clock args kw =
     given (arg args 0) (\<lambda>name.
     given (extract_bytes py name) (\<lambda>name_bytes.
     stored (store_err_to_py py) (on_data (hgetall (read_clock clock 0) name_bytes)) (\<lambda>m.
     finish (bytes_dict m))))"

definition pipe_hexists :: "'o py_api \<Rightarrow> clock \<Rightarrow> 'o list \<Rightarrow> 'o \<Rightarrow> py_value action" where
  "pipe_hexists py clock args kw =
     given (arg args 0) (\<lambda>name.
     given (arg args 1) (\<lambda>key.
     given (extract_bytes py name) (\<lambda>name_bytes.
     given (extract_bytes py key) (\<lambda>field_bytes.
     stored (store_err_to_py py) (on_data (hexists (read_clock clock 0) name_bytes field_bytes)) (\<lambda>b.
     finish (PyBool b))))))"

definition pipe_hincrby :: "'o py_api \<Rightarrow> clock \<Rightarrow> 'o list \<Rightarrow> 'o \<Rightarrow> py_value action" where
  "pipe_hincrby py clock args kw =
     given (arg args 0) (\<lambda>name.
     given (arg args 1) (\<lambda>key.
     given (extract_bytes py name) (\<lambda>name_bytes.
     given (extract_bytes py key) (\<lambda>field_bytes.
     given (kwarg_or py kw ''amount'' (extract_i64 py) 1) (\<lambda>amount.
     stored (store_err_to_py py) (on_data (hincrby (read_clock clock 0) name_bytes field_bytes amount)) (\<lambda>n.
     finish (PyInt n)))))))"

definition pipe_sadd :: "'o py_api \<Rightarrow> clock \<Rightarrow> 'o list \<Rightarrow> 'o \<Rightarrow> py_value action" where
  "pipe_sadd py clock args kw =
     given (arg args 0) (\<lambda>name.
     given (extract_bytes py name) (\<lambda>name_bytes.
     given (traverse (extract_bytes py) (drop 1 args)) (\<lambda>members.
     stored (store_err_to_py py) (on_data (sadd (read_clock clock 0) name_bytes members)) (\<lambda>n.
     finish (PyInt n)))))"

definition pipe_smembers :: "'o py_api \<Rightarrow> clock \<Rightarrow> 'o list \<Rightarrow> 'o \<Rightarrow> py_value action" where
  "pipe_smembers py clock args kw =
     given (arg args 0) (\<lambda>name.
     given (extract_bytes py name) (\<lambda>name_bytes.
     stored (store_err_to_py py) (on_data (smembers (read_clock clock 0) name_bytes)) (\<lambda>members.
     finish (PySet (map PyBytes (hs_collect members))))))"

definition pipe_sismember :: "'o py_api \<Rightarrow> clock \<Rightarrow> 'o list \<Rightarrow> 'o \<Rightarrow> py_value action" where
  "pipe_sismember py clock args kw =
     given (arg args 0) (\<lambda>name.
     given (arg args 1) (\<lambda>val.
     given (extract_bytes py name) (\<lambda>name_bytes.
     given (extract_bytes py val) (\<lambda>member_bytes.
     stored (store_err_to_py py) (on_data (sismember (read_clock clock 0) name_bytes member_bytes)) (\<lambda>b.
     finish (PyBool b))))))"

definition pipe_srem :: "'o py_api \<Rightarrow> clock \<Rightarrow> 'o list \<Rightarrow> 'o \<Rightarrow> py_value action" where
  "pipe_srem py clock args kw =
     given (arg args 0) (\<lambda>name.
     given (extract_bytes py name) (\<lambda>name_bytes.
     given (traverse (extract_bytes py) (drop 1 args)) (\<lambda>members.
     stored (store_err_to_py py) (on_data (srem (read_clock clock 0) name_bytes members)) (\<lambda>n.
     finish (PyInt n)))))"

section \<open>Sorted sets\<close>

definition pipe_zadd :: "'o py_api \<Rightarrow> clock \<Rightarrow> 'o list \<Rightarrow> 'o \<Rightarrow> py_value action" where
  "pipe_zadd py clock args kw =
     given (arg args 0) (\<lambda>name.
     given (dict_arg py args 1) (\<lambda>mapping.
     given (extract_bytes py name) (\<lambda>name_bytes.
     given (kwarg_or py kw ''nx'' (extract_bool py) False) (\<lambda>nx.
     given (kwarg_or py kw ''xx'' (extract_bool py) False) (\<lambda>xx.
     given (kwarg_or py kw ''gt'' (extract_bool py) False) (\<lambda>gt.
     given (kwarg_or py kw ''lt'' (extract_bool py) False) (\<lambda>lt.
     given (kwarg_or py kw ''ch'' (extract_bool py) False) (\<lambda>ch.
     given (traverse (score_pair py) mapping) (\<lambda>members.
     stored (store_err_to_py py) (on_data (zadd (read_clock clock 0) name_bytes members nx xx gt lt ch)) (\<lambda>n.
     finish (PyInt n)))))))))))"

definition pipe_zrem :: "'o py_api \<Rightarrow> clock \<Rightarrow> 'o list \<Rightarrow> 'o \<Rightarrow> py_value action" where
  "pipe_zrem py clock args kw =
     given (arg args 0) (\<lambda>name.
     given (extract_bytes py name) (\<lambda>name_bytes.
     given (traverse (extract_bytes py) (drop 1 args)) (\<lambda>members.
     stored (store_err_to_py py) (on_data (zrem (read_clock clock 0) name_bytes members)) (\<lambda>n.
     finish (PyInt n)))))"

definition pipe_zrange :: "'o py_api \<Rightarrow> clock \<Rightarrow> 'o list \<Rightarrow> 'o \<Rightarrow> py_value action" where
  "pipe_zrange py clock args kw =
     given (arg args 0) (\<lambda>name.
     given (and_then (arg args 1) (extract_i64 py)) (\<lambda>start.
     given (and_then (arg args 2) (extract_i64 py)) (\<lambda>stop.
     given (extract_bytes py name) (\<lambda>name_bytes.
     given (kwarg_or py kw ''withscores'' (extract_bool py) False) (\<lambda>withscores.
     stored (store_err_to_py py) (on_data (zrange (read_clock clock 0) name_bytes start stop withscores)) (\<lambda>results.
     finish (scored_members withscores results)))))))"

definition pipe_zrangebyscore :: "'o py_api \<Rightarrow> clock \<Rightarrow> 'o list \<Rightarrow> 'o \<Rightarrow> py_value action" where
  "pipe_zrangebyscore py clock args kw =
     given (arg args 0) (\<lambda>name.
     given (arg args 1) (\<lambda>lo.
     given (arg args 2) (\<lambda>hi.
     given (extract_bytes py name) (\<lambda>name_bytes.
     given (parse_score_bound py lo) (\<lambda>min_f64.
     given (parse_score_bound py hi) (\<lambda>max_f64.
     given (kwarg_or py kw ''withscores'' (extract_bool py) False) (\<lambda>withscores.
     stored (store_err_to_py py) (on_data (zrangebyscore (read_clock clock 0) name_bytes min_f64 max_f64 withscores)) (\<lambda>results.
     finish (scored_members withscores results)))))))))"

definition pipe_zrangestore :: "'o py_api \<Rightarrow> clock \<Rightarrow> 'o list \<Rightarrow> 'o \<Rightarrow> py_value action" where
  "pipe_zrangestore py clock args kw =
     given (arg args 0) (\<lambda>dest.
     given (arg args 1) (\<lambda>name.
     given (arg args 2) (\<lambda>lo.
     given (arg args 3) (\<lambda>hi.
     given (extract_bytes py dest) (\<lambda>dst_bytes.
     given (extract_bytes py name) (\<lambda>src_bytes.
     given (parse_score_bound py lo) (\<lambda>min_f64.
     given (parse_score_bound py hi) (\<lambda>max_f64.
     stored (store_err_to_py py) (on_data (zrangestore (read_clock clock 0) dst_bytes src_bytes min_f64 max_f64)) (\<lambda>n.
     finish (PyInt n))))))))))"

definition pipe_zremrangebyscore :: "'o py_api \<Rightarrow> clock \<Rightarrow> 'o list \<Rightarrow> 'o \<Rightarrow> py_value action" where
  "pipe_zremrangebyscore py clock args kw =
     given (arg args 0) (\<lambda>name.
     given (arg args 1) (\<lambda>lo.
     given (arg args 2) (\<lambda>hi.
     given (extract_bytes py name) (\<lambda>name_bytes.
     given (parse_score_bound py lo) (\<lambda>min_f64.
     given (parse_score_bound py hi) (\<lambda>max_f64.
     stored (store_err_to_py py) (on_data (zremrangebyscore (read_clock clock 0) name_bytes min_f64 max_f64)) (\<lambda>n.
     finish (PyInt n))))))))"

definition pipe_zcard :: "'o py_api \<Rightarrow> clock \<Rightarrow> 'o list \<Rightarrow> 'o \<Rightarrow> py_value action" where
  "pipe_zcard py clock args kw =
     given (arg args 0) (\<lambda>name.
     given (extract_bytes py name) (\<lambda>name_bytes.
     stored (store_err_to_py py) (on_data (zcard (read_clock clock 0) name_bytes)) (\<lambda>n.
     finish (PyInt n))))"

definition pipe_zscore :: "'o py_api \<Rightarrow> clock \<Rightarrow> 'o list \<Rightarrow> 'o \<Rightarrow> py_value action" where
  "pipe_zscore py clock args kw =
     given (arg args 0) (\<lambda>name.
     given (arg args 1) (\<lambda>val.
     given (extract_bytes py name) (\<lambda>name_bytes.
     given (extract_bytes py val) (\<lambda>member_bytes.
     stored (store_err_to_py py) (on_data (zscore (read_clock clock 0) name_bytes member_bytes)) (\<lambda>score.
     finish (case score of Some x \<Rightarrow> PyFloat x | None \<Rightarrow> PyNone))))))"

definition pipe_zcount :: "'o py_api \<Rightarrow> clock \<Rightarrow> 'o list \<Rightarrow> 'o \<Rightarrow> py_value action" where
  "pipe_zcount py clock args kw =
     given (arg args 0) (\<lambda>name.
     given (arg args 1) (\<lambda>lo.
     given (arg args 2) (\<lambda>hi.
     given (extract_bytes py name) (\<lambda>name_bytes.
     given (parse_score_bound py lo) (\<lambda>min_f64.
     given (parse_score_bound py hi) (\<lambda>max_f64.
     stored (store_err_to_py py) (on_data (zcount (read_clock clock 0) name_bytes min_f64 max_f64)) (\<lambda>n.
     finish (PyInt n))))))))"

section \<open>Streams\<close>

definition pipe_xadd :: "'o py_api \<Rightarrow> clock \<Rightarrow> 'o list \<Rightarrow> 'o \<Rightarrow> py_value action" where
  "pipe_xadd py clock args kw =
     given (arg args 0) (\<lambda>name.
     given (dict_arg py args 1) (\<lambda>flds.
     given (extract_bytes py name) (\<lambda>key.
     given (extract_stream_fields py flds) (\<lambda>field_map.
     given (kwarg_or py kw ''id'' (extract_string py) ''*'') (\<lambda>id_str.
     given (xadd_id id_str) (\<lambda>id_opt.
     stored (store_err_to_py py) (growing notify_streams (xadd (read_clock clock 0) (snd (clock 0)) key field_map id_opt)) (\<lambda>i.
     finish (id_bytes i))))))))"

definition pipe_xread :: "'o py_api \<Rightarrow> clock \<Rightarrow> 'o list \<Rightarrow> 'o \<Rightarrow> py_value action" where
  "pipe_xread py clock args kw =
     given (dict_arg py args 0) (\<lambda>streams.
     given (kwarg_lenient py kw ''count'' (extract_usize py)) (\<lambda>cnt.
     bind (xread_targets py clock 0 streams) (\<lambda>ts.
     stored (store_err_to_py py) (on_data (xread (read_clock clock (length streams)) (map fst ts) (map snd ts) cnt)) (\<lambda>results.
     finish (if results = [] then PyNone else build_xread_pylist results)))))"

definition pipe_xlen :: "'o py_api \<Rightarrow> clock \<Rightarrow> 'o list \<Rightarrow> 'o \<Rightarrow> py_value action" where
  "pipe_xlen py clock args kw =
     given (arg args 0) (\<lambda>name.
     given (extract_bytes py name) (\<lambda>key.
     stored (store_err_to_py py) (on_data (xlen (read_clock clock 0) key)) (\<lambda>n.
     finish (PyInt (int n)))))"

definition pipe_xtrim :: "'o py_api \<Rightarrow> clock \<Rightarrow> 'o list \<Rightarrow> 'o \<Rightarrow> py_value action" where
  "pipe_xtrim py clock args kw =
     given (arg args 0) (\<lambda>name.
     given (extract_bytes py name) (\<lambda>key.
     given (kwarg_lenient py kw ''maxlen'' (extract_usize py)) (\<lambda>maxlen.
     given (kwarg_lenient py kw ''minid'' (extract_string py)) (\<lambda>minid.
     given (minid_arg minid) (\<lambda>minid_parsed.
     stored (store_err_to_py py) (on_data (xtrim (read_clock clock 0) key maxlen minid_parsed)) (\<lambda>n.
     finish (PyInt (int n))))))))"

definition pipe_xdel :: "'o py_api \<Rightarrow> clock \<Rightarrow> 'o list \<Rightarrow> 'o \<Rightarrow> py_value action" where
  "pipe_xdel py clock args kw =
     given (arg args 0) (\<lambda>name.
     given (extract_bytes py name) (\<lambda>key.
     given (id_list py ''Invalid stream ID format'' (drop 1 args)) (\<lambda>stream_ids.
     stored (store_err_to_py py) (on_data (xdel (read_clock clock 0) key stream_ids)) (\<lambda>n.
     finish (PyInt n)))))"

definition pipe_xrange :: "'o py_api \<Rightarrow> clock \<Rightarrow> 'o list \<Rightarrow> 'o \<Rightarrow> py_value action" where
  "pipe_xrange py clock args kw =
     given (arg args 0) (\<lambda>name.
     given (extract_bytes py name) (\<lambda>key.
     given (kwarg_or py kw ''min'' (extract_string py) ''-'') (\<lambda>min_str.
     given (kwarg_or py kw ''max'' (extract_string py) ''+'') (\<lambda>max_str.
     given (kwarg_lenient py kw ''count'' (extract_usize py)) (\<lambda>cnt.
     given (min_id_arg min_str) (\<lambda>min_id.
     given (max_id_arg max_str) (\<lambda>max_id.
     stored (store_err_to_py py) (on_data (xrange (read_clock clock 0) key min_id max_id cnt)) (\<lambda>es.
     finish (PyList (map entry_tuple es))))))))))"

section \<open>Consumer groups\<close>

definition pipe_xgroup_create :: "'o py_api \<Rightarrow> clock \<Rightarrow> 'o list \<Rightarrow> 'o \<Rightarrow> py_value action" where
  "pipe_xgroup_create py clock args kw =
     given (arg args 0) (\<lambda>name.
     given (arg args 1) (\<lambda>groupname.
     given (extract_bytes py name) (\<lambda>key.
     given (extract_bytes py groupname) (\<lambda>grp.
     given (kwarg_or py kw ''id'' (extract_string py) ''$'') (\<lambda>id_str.
     given (kwarg_or py kw ''mkstream'' (extract_bool py) False) (\<lambda>mkstream.
     given (group_id_arg id_str) (\<lambda>i.
     stored (store_err_to_py_for_cmd py ''XGROUP CREATE'')
       (on_data (xgroup_create (read_clock clock 0) key grp i mkstream)) (\<lambda>_.
     finish (PyBool True)))))))))"

definition pipe_xgroup_destroy :: "'o py_api \<Rightarrow> clock \<Rightarrow> 'o list \<Rightarrow> 'o \<Rightarrow> py_value action" where
  "pipe_xgroup_destroy py clock args kw =
     given (arg args 0) (\<lambda>name.
     given (arg args 1) (\<lambda>groupname.
     given (extract_bytes py name) (\<lambda>key.
     given (extract_bytes py groupname) (\<lambda>grp.
     stored (store_err_to_py py) (on_data (xgroup_destroy (read_clock clock 0) key grp)) (\<lambda>destroyed.
     finish (PyInt (if destroyed then 1 else 0)))))))"

text \<open>Unlike the method, the arm does not refuse the ID \<open>$\<close>.\<close>

definition pipe_group_target :: "'o py_api \<Rightarrow> 'o \<times> 'o \<Rightarrow> py_error + bytes \<times> string" where
  "pipe_group_target py p =
     and_then (extract_bytes py (fst p)) (\<lambda>key.
     and_then (extract_id_str py (snd p)) (\<lambda>id_str. Inr (key, id_str)))"

definition pipe_xreadgroup :: "'o py_api \<Rightarrow> clock \<Rightarrow> 'o list \<Rightarrow> 'o \<Rightarrow> py_value action" where
  "pipe_xreadgroup py clock args kw =
     given (arg args 0) (\<lambda>groupname.
     given (arg args 1) (\<lambda>consumername.
     given (dict_arg py args 2) (\<lambda>streams.
     given (extract_bytes py groupname) (\<lambda>grp.
     given (extract_bytes py consumername) (\<lambda>cname.
     given (kwarg_lenient py kw ''count'' (extract_usize py)) (\<lambda>cnt.
     given (traverse (pipe_group_target py) streams) (\<lambda>ts.
     stored (store_err_to_py_for_cmd py ''XREADGROUP'')
       (on_data (xreadgroup (read_clock clock 0) grp cname (map fst ts) (map snd ts) cnt)) (\<lambda>results.
     finish (format_xreadgroup_result_with_py results)))))))))"

definition pipe_xack :: "'o py_api \<Rightarrow> clock \<Rightarrow> 'o list \<Rightarrow> 'o \<Rightarrow> py_value action" where
  "pipe_xack py clock args kw =
     given (arg args 0) (\<lambda>name.
     given (arg args 1) (\<lambda>groupname.
     given (extract_bytes py name) (\<lambda>key.
     given (extract_bytes py groupname) (\<lambda>grp.
     given (id_list py ''Invalid stream ID format'' (drop 2 args)) (\<lambda>stream_ids.
     stored (store_err_to_py_for_cmd py ''XACK'') (on_data (xack (read_clock clock 0) key grp stream_ids)) (\<lambda>n.
     finish (PyInt n)))))))"

definition pipe_xautoclaim :: "'o py_api \<Rightarrow> clock \<Rightarrow> 'o list \<Rightarrow> 'o \<Rightarrow> py_value action" where
  "pipe_xautoclaim py clock args kw =
     given (arg args 0) (\<lambda>name.
     given (arg args 1) (\<lambda>groupname.
     given (arg args 2) (\<lambda>consumername.
     given (and_then (arg args 3) (extract_u64 py)) (\<lambda>min_idle.
     given (extract_bytes py name) (\<lambda>key.
     given (extract_bytes py groupname) (\<lambda>grp.
     given (extract_bytes py consumername) (\<lambda>cname.
     given (kwarg_or py kw ''start_id'' (extract_string py) ''0-0'') (\<lambda>start_str.
     given (kwarg_lenient py kw ''count'' (extract_usize py)) (\<lambda>cnt.
     given (start_id_arg start_str) (\<lambda>start.
     stored (store_err_to_py_for_cmd py ''XAUTOCLAIM'')
       (on_data (xautoclaim (read_clock clock 0) key grp cname min_idle start cnt)) (\<lambda>r.
     finish (autoclaim_tuple r))))))))))))"

definition pipe_xclaim :: "'o py_api \<Rightarrow> clock \<Rightarrow> 'o list \<Rightarrow> 'o \<Rightarrow> py_value action" where
  "pipe_xclaim py clock args kw =
     given (arg args 0) (\<lambda>name.
     given (arg args 1) (\<lambda>groupname.
     given (arg args 2) (\<lambda>consumername.
     given (and_then (arg args 3) (extract_u64 py)) (\<lambda>min_idle.
     given (arg args 4) (\<lambda>message_ids.
     given (extract_bytes py name) (\<lambda>key.
     given (extract_bytes py groupname) (\<lambda>grp.
     given (extract_bytes py consumername) (\<lambda>cname.
     given (kwarg_lenient py kw ''idle'' (extract_u64 py)) (\<lambda>idle.
     given (kwarg_lenient py kw ''time'' (extract_u64 py)) (\<lambda>time.
     given (kwarg_lenient py kw ''retrycount'' (extract_u64 py)) (\<lambda>retrycount.
     given (kwarg_or py kw ''force'' (extract_bool py) False) (\<lambda>force.
     given (kwarg_or py kw ''justid'' (extract_bool py) False) (\<lambda>justid.
     given (extract_objects py message_ids) (\<lambda>ids_list.
     given (id_list py ''Invalid stream ID'' ids_list) (\<lambda>ids.
     stored (store_err_to_py_for_cmd py ''XCLAIM'')
       (on_data (xclaim (read_clock clock 0) key grp cname min_idle ids idle retrycount force justid)) (\<lambda>r.
     claim_answer justid r))))))))))))))))"

definition pipe_xinfo_groups :: "'o py_api \<Rightarrow> clock \<Rightarrow> 'o list \<Rightarrow> 'o \<Rightarrow> py_value action" where
  "pipe_xinfo_groups py clock args kw =
     given (arg args 0) (\<lambda>name.
     given (extract_bytes py name) (\<lambda>key.
     stored (store_err_to_py_for_cmd py ''XINFO GROUPS'') (on_data (xinfo_groups (read_clock clock 0) key)) (\<lambda>infos.
     finish (PyList (map group_dict infos)))))"

definition pipe_xinfo_consumers :: "'o py_api \<Rightarrow> clock \<Rightarrow> 'o list \<Rightarrow> 'o \<Rightarrow> py_value action" where
  "pipe_xinfo_consumers py clock args kw =
     given (arg args 0) (\<lambda>name.
     given (arg args 1) (\<lambda>groupname.
     given (extract_bytes py name) (\<lambda>key.
     given (extract_bytes py groupname) (\<lambda>grp.
     stored (store_err_to_py_for_cmd py ''XINFO CONSUMERS'') (on_data (xinfo_consumers (read_clock clock 0) key grp)) (\<lambda>infos.
     finish (PyList (map consumer_dict infos)))))))"

text \<open>A consumer name that does not convert drops the filter.\<close>

definition pipe_xpending_range :: "'o py_api \<Rightarrow> clock \<Rightarrow> 'o list \<Rightarrow> 'o \<Rightarrow> py_value action" where
  "pipe_xpending_range py clock args kw =
     given (arg args 0) (\<lambda>name.
     given (arg args 1) (\<lambda>groupname.
     given (and_then (arg args 2) (extract_string py)) (\<lambda>min_str.
     given (and_then (arg args 3) (extract_string py)) (\<lambda>max_str.
     given (and_then (arg args 4) (extract_usize py)) (\<lambda>cnt.
     given (extract_bytes py name) (\<lambda>key.
     given (extract_bytes py groupname) (\<lambda>grp.
     given (kwarg_lenient py kw ''consumername'' (extract_bytes py)) (\<lambda>consumer_filter.
     given (kwarg_lenient py kw ''idle'' (extract_u64 py)) (\<lambda>idle.
     given (min_id_arg min_str) (\<lambda>min_id.
     given (max_id_arg max_str) (\<lambda>max_id.
     stored (store_err_to_py_for_cmd py ''XPENDING'')
       (on_data (xpending_range (read_clock clock 0) key grp min_id max_id cnt consumer_filter idle)) (\<lambda>rows.
     finish (PyList (map pending_dict rows))))))))))))))"

definition pipe_xpending :: "'o py_api \<Rightarrow> clock \<Rightarrow> 'o list \<Rightarrow> 'o \<Rightarrow> py_value action" where
  "pipe_xpending py clock args kw =
     given (arg args 0) (\<lambda>name.
     given (arg args 1) (\<lambda>groupname.
     given (extract_bytes py name) (\<lambda>key.
     given (extract_bytes py groupname) (\<lambda>grp.
     stored (store_err_to_py_for_cmd py ''XPENDING'') (on_data (xpending_summary (read_clock clock 0) key grp)) (\<lambda>summary.
     finish (summary_dict summary))))))"

section \<open>Scripts and channels\<close>

definition pipe_eval :: "'o py_api \<Rightarrow> lua_host \<Rightarrow> clock \<Rightarrow> 'o list \<Rightarrow> 'o \<Rightarrow> py_value action" where
  "pipe_eval py lua clock args kw =
     given (and_then (arg args 0) (extract_string py)) (\<lambda>script.
     given (and_then (arg args 1) (extract_usize py)) (\<lambda>numkeys.
     given (traverse (extract_bytes py) (drop 2 args)) (\<lambda>bs.
     bind (sending (eval (float_text lua) (sha1_hex lua) (machine lua) clock script (take numkeys bs) (drop numkeys bs))) (\<lambda>r.
     eval_answer py (make_response_error py) r))))"

text \<open>Unlike the method, the arm answers NOSCRIPT as a plain response error.\<close>

definition pipe_evalsha :: "'o py_api \<Rightarrow> lua_host \<Rightarrow> clock \<Rightarrow> 'o list \<Rightarrow> 'o \<Rightarrow> py_value action" where
  "pipe_evalsha py lua clock args kw =
     given (and_then (arg args 0) (extract_string py)) (\<lambda>sha.
     given (and_then (arg args 1) (extract_usize py)) (\<lambda>numkeys.
     given (traverse (extract_bytes py) (drop 2 args)) (\<lambda>bs.
     bind (sending (evalsha (float_text lua) (machine lua) clock sha (take numkeys bs) (drop numkeys bs))) (\<lambda>r.
     eval_answer py (make_response_error py) r))))"

definition pipe_script_load :: "'o py_api \<Rightarrow> lua_host \<Rightarrow> clock \<Rightarrow> 'o list \<Rightarrow> 'o \<Rightarrow> py_value action" where
  "pipe_script_load py lua clock args kw =
     given (and_then (arg args 0) (extract_string py)) (\<lambda>script.
     bind (call (script_load (sha1_hex lua) script)) (\<lambda>sha. finish (PyStr sha)))"

definition pipe_script_exists :: "'o py_api \<Rightarrow> clock \<Rightarrow> 'o list \<Rightarrow> 'o \<Rightarrow> py_value action" where
  "pipe_script_exists py clock args kw =
     given (traverse (extract_string py) args) (\<lambda>shas.
     bind (call (\<lambda>st. (script_exists shas st, st))) (\<lambda>results.
     finish (PyList (map PyBool results))))"

definition pipe_publish :: "'o py_api \<Rightarrow> clock \<Rightarrow> 'o list \<Rightarrow> 'o \<Rightarrow> py_value action" where
  "pipe_publish py clock args kw =
     given (arg args 0) (\<lambda>channel.
     given (arg args 1) (\<lambda>message.
     given (extract_bytes py channel) (\<lambda>channel_bytes.
     given (extract_bytes py message) (\<lambda>message_bytes.
     bind (sending (\<lambda>st. let (n, msgs) = publish channel_bytes message_bytes (pubsub st) in (n, msgs, st))) (\<lambda>n.
     finish (PyInt n))))))"

section \<open>Lists\<close>

definition pipe_lpush :: "'o py_api \<Rightarrow> clock \<Rightarrow> 'o list \<Rightarrow> 'o \<Rightarrow> py_value action" where
  "pipe_lpush py clock args kw =
     given (arg args 0) (\<lambda>name.
     given (extract_bytes py name) (\<lambda>key.
     given (traverse (extract_bytes py) (drop 1 args)) (\<lambda>vs.
     stored (store_err_to_py py) (growing notify_lists (lpush (read_clock clock 0) key vs)) (\<lambda>n.
     finish (PyInt n)))))"

definition pipe_rpush :: "'o py_api \<Rightarrow> clock \<Rightarrow> 'o list \<Rightarrow> 'o \<Rightarrow> py_value action" where
  "pipe_rpush py clock args kw =
     given (arg args 0) (\<lambda>name.
     given (extract_bytes py name) (\<lambda>key.
     given (traverse (extract_bytes py) (drop 1 args)) (\<lambda>vs.
     stored (store_err_to_py py) (growing notify_lists (rpush (read_clock clock 0) key vs)) (\<lambda>n.
     finish (PyInt n)))))"

definition kwarg_i64 :: "'o py_api \<Rightarrow> 'o \<Rightarrow> string \<Rightarrow> py_error + i64 option" where
  "kwarg_i64 py kw name =
     and_then (kwarg_opt py kw name)
       (\<lambda>v. case v of Some x \<Rightarrow> and_then (extract_i64 py x) (\<lambda>n. Inr (Some n)) | None \<Rightarrow> Inr None)"

definition pipe_lpop :: "'o py_api \<Rightarrow> clock \<Rightarrow> 'o list \<Rightarrow> 'o \<Rightarrow> py_value action" where
  "pipe_lpop py clock args kw =
     given (arg args 0) (\<lambda>name.
     given (extract_bytes py name) (\<lambda>key.
     given (kwarg_i64 py kw ''count'') (\<lambda>cnt.
     given (pop_count cnt) (\<lambda>count_opt.
     stored (store_err_to_py py) (on_data (lpop (read_clock clock 0) key count_opt)) (\<lambda>r.
     finish (pop_value r))))))"

definition pipe_rpop :: "'o py_api \<Rightarrow> clock \<Rightarrow> 'o list \<Rightarrow> 'o \<Rightarrow> py_value action" where
  "pipe_rpop py clock args kw =
     given (arg args 0) (\<lambda>name.
     given (extract_bytes py name) (\<lambda>key.
     given (kwarg_i64 py kw ''count'') (\<lambda>cnt.
     given (pop_count cnt) (\<lambda>count_opt.
     stored (store_err_to_py py) (on_data (rpop (read_clock clock 0) key count_opt)) (\<lambda>r.
     finish (pop_value r))))))"

definition pipe_lrange :: "'o py_api \<Rightarrow> clock \<Rightarrow> 'o list \<Rightarrow> 'o \<Rightarrow> py_value action" where
  "pipe_lrange py clock args kw =
     given (arg args 0) (\<lambda>name.
     given (and_then (arg args 1) (extract_i64 py)) (\<lambda>start.
     given (and_then (arg args 2) (extract_i64 py)) (\<lambda>stop.
     given (extract_bytes py name) (\<lambda>key.
     stored (store_err_to_py py) (on_data (lrange (read_clock clock 0) key start stop)) (\<lambda>elems.
     finish (PyList (map PyBytes elems)))))))"

definition pipe_llen :: "'o py_api \<Rightarrow> clock \<Rightarrow> 'o list \<Rightarrow> 'o \<Rightarrow> py_value action" where
  "pipe_llen py clock args kw =
     given (arg args 0) (\<lambda>name.
     given (extract_bytes py name) (\<lambda>key.
     stored (store_err_to_py py) (on_data (llen (read_clock clock 0) key)) (\<lambda>n.
     finish (PyInt n))))"

definition pipe_lindex :: "'o py_api \<Rightarrow> clock \<Rightarrow> 'o list \<Rightarrow> 'o \<Rightarrow> py_value action" where
  "pipe_lindex py clock args kw =
     given (arg args 0) (\<lambda>name.
     given (and_then (arg args 1) (extract_i64 py)) (\<lambda>index.
     given (extract_bytes py name) (\<lambda>key.
     stored (store_err_to_py py) (on_data (lindex (read_clock clock 0) key index)) (\<lambda>r.
     finish (bytes_or_none r)))))"

definition pipe_linsert :: "'o py_api \<Rightarrow> clock \<Rightarrow> 'o list \<Rightarrow> 'o \<Rightarrow> py_value action" where
  "pipe_linsert py clock args kw =
     given (arg args 0) (\<lambda>name.
     given (and_then (arg args 1) (extract_token_str py)) (\<lambda>where_str.
     given (arg args 2) (\<lambda>refvalue.
     given (arg args 3) (\<lambda>val.
     given (extract_bytes py name) (\<lambda>key.
     given (extract_bytes py refvalue) (\<lambda>pivot.
     given (extract_bytes py val) (\<lambda>v.
     given (map_err (store_err_to_py py) (parse_linsert_where where_str)) (\<lambda>position.
     stored (store_err_to_py py) (on_data (linsert (read_clock clock 0) key position pivot v)) (\<lambda>n.
     finish (PyInt n))))))))))"

definition pipe_lrem :: "'o py_api \<Rightarrow> clock \<Rightarrow> 'o list \<Rightarrow> 'o \<Rightarrow> py_value action" where
  "pipe_lrem py clock args kw =
     given (arg args 0) (\<lambda>name.
     given (and_then (arg args 1) (extract_i64 py)) (\<lambda>cnt.
     given (arg args 2) (\<lambda>val.
     given (extract_bytes py name) (\<lambda>key.
     given (extract_bytes py val) (\<lambda>v.
     stored (store_err_to_py py) (on_data (lrem (read_clock clock 0) key cnt v)) (\<lambda>n.
     finish (PyInt n)))))))"

definition pipe_lset :: "'o py_api \<Rightarrow> clock \<Rightarrow> 'o list \<Rightarrow> 'o \<Rightarrow> py_value action" where
  "pipe_lset py clock args kw =
     given (arg args 0) (\<lambda>name.
     given (and_then (arg args 1) (extract_i64 py)) (\<lambda>index.
     given (arg args 2) (\<lambda>val.
     given (extract_bytes py name) (\<lambda>key.
     given (extract_bytes py val) (\<lambda>v.
     stored (store_err_to_py py) (on_data (lset (read_clock clock 0) key index v)) (\<lambda>_.
     finish (PyBool True)))))))"

definition pipe_ltrim :: "'o py_api \<Rightarrow> clock \<Rightarrow> 'o list \<Rightarrow> 'o \<Rightarrow> py_value action" where
  "pipe_ltrim py clock args kw =
     given (arg args 0) (\<lambda>name.
     given (and_then (arg args 1) (extract_i64 py)) (\<lambda>start.
     given (and_then (arg args 2) (extract_i64 py)) (\<lambda>stop.
     given (extract_bytes py name) (\<lambda>key.
     stored (store_err_to_py py) (on_data (ltrim (read_clock clock 0) key start stop)) (\<lambda>_.
     finish (PyBool True))))))"

definition pipe_lmove :: "'o py_api \<Rightarrow> clock \<Rightarrow> 'o list \<Rightarrow> 'o \<Rightarrow> py_value action" where
  "pipe_lmove py clock args kw =
     given (arg args 0) (\<lambda>first_list.
     given (arg args 1) (\<lambda>second_list.
     given (and_then (kwarg_opt py kw ''src'') (token_or py ''LEFT'')) (\<lambda>src_str.
     given (and_then (kwarg_opt py kw ''dest'') (token_or py ''RIGHT'')) (\<lambda>dest_str.
     given (extract_bytes py first_list) (\<lambda>src_key.
     given (extract_bytes py second_list) (\<lambda>dst_key.
     given (map_err (store_err_to_py py) (parse_list_end src_str)) (\<lambda>src_end.
     given (map_err (store_err_to_py py) (parse_list_end dest_str)) (\<lambda>dst_end.
     stored (store_err_to_py py) (growing notify_lists (lmove_atomic (read_clock clock 0) src_key dst_key src_end dst_end)) (\<lambda>r.
     finish (bytes_or_none r))))))))))"

definition pipe_rpoplpush :: "'o py_api \<Rightarrow> clock \<Rightarrow> 'o list \<Rightarrow> 'o \<Rightarrow> py_value action" where
  "pipe_rpoplpush py clock args kw =
     given (arg args 0) (\<lambda>src.
     given (arg args 1) (\<lambda>dst.
     given (extract_bytes py src) (\<lambda>src_key.
     given (extract_bytes py dst) (\<lambda>dst_key.
     stored (store_err_to_py py) (growing notify_lists (rpoplpush_atomic (read_clock clock 0) src_key dst_key)) (\<lambda>r.
     finish (bytes_or_none r))))))"

section \<open>The dispatcher\<close>

definition pipeline_commands :: "'o py_api \<Rightarrow> lua_host \<Rightarrow> clock \<Rightarrow> (string \<times> ('o list \<Rightarrow> 'o \<Rightarrow> py_value action)) list" where
  "pipeline_commands py lua clock =
     [(''set'', pipe_set py clock), (''get'', pipe_get py clock), (''delete'', pipe_delete py clock),
      (''exists'', pipe_exists py clock), (''hset'', pipe_hset py clock), (''hget'', pipe_hget py clock),
      (''hdel'', pipe_hdel py clock), (''hvals'', pipe_hvals py clock), (''hgetall'', pipe_hgetall py clock),
      (''hexists'', pipe_hexists py clock), (''hincrby'', pipe_hincrby py clock), (''sadd'', pipe_sadd py clock),
      (''smembers'', pipe_smembers py clock), (''sismember'', pipe_sismember py clock), (''srem'', pipe_srem py clock),
      (''zadd'', pipe_zadd py clock), (''zrem'', pipe_zrem py clock), (''zrange'', pipe_zrange py clock),
      (''zrangebyscore'', pipe_zrangebyscore py clock), (''zrangestore'', pipe_zrangestore py clock),
      (''zremrangebyscore'', pipe_zremrangebyscore py clock), (''zcard'', pipe_zcard py clock),
      (''zscore'', pipe_zscore py clock), (''zcount'', pipe_zcount py clock), (''expire'', pipe_expire py clock),
      (''xadd'', pipe_xadd py clock), (''xread'', pipe_xread py clock), (''xlen'', pipe_xlen py clock),
      (''xtrim'', pipe_xtrim py clock), (''xdel'', pipe_xdel py clock), (''xrange'', pipe_xrange py clock),
      (''xgroup_create'', pipe_xgroup_create py clock), (''xgroup_destroy'', pipe_xgroup_destroy py clock),
      (''xreadgroup'', pipe_xreadgroup py clock), (''xack'', pipe_xack py clock),
      (''xautoclaim'', pipe_xautoclaim py clock), (''xclaim'', pipe_xclaim py clock),
      (''xinfo_groups'', pipe_xinfo_groups py clock), (''xinfo_consumers'', pipe_xinfo_consumers py clock),
      (''xpending_range'', pipe_xpending_range py clock), (''eval'', pipe_eval py lua clock),
      (''evalsha'', pipe_evalsha py lua clock), (''script_load'', pipe_script_load py lua clock),
      (''script_exists'', pipe_script_exists py clock), (''publish'', pipe_publish py clock),
      (''keys'', pipe_keys py clock), (''ttl'', pipe_ttl py clock), (''setex'', pipe_setex py clock),
      (''mget'', pipe_mget py clock), (''xpending'', pipe_xpending py clock), (''lpush'', pipe_lpush py clock),
      (''rpush'', pipe_rpush py clock), (''lpop'', pipe_lpop py clock), (''rpop'', pipe_rpop py clock),
      (''lrange'', pipe_lrange py clock), (''llen'', pipe_llen py clock), (''lindex'', pipe_lindex py clock),
      (''linsert'', pipe_linsert py clock), (''lrem'', pipe_lrem py clock), (''lset'', pipe_lset py clock),
      (''ltrim'', pipe_ltrim py clock), (''lmove'', pipe_lmove py clock), (''rpoplpush'', pipe_rpoplpush py clock)]"

definition dispatch_pipeline_command :: "'o py_api \<Rightarrow> lua_host \<Rightarrow> clock \<Rightarrow> string \<Rightarrow> 'o list \<Rightarrow> 'o \<Rightarrow> py_value action" where
  "dispatch_pipeline_command py lua clock cmd args kw =
     (case map_of (pipeline_commands py lua clock) cmd of
        Some f \<Rightarrow> f args kw
      | None \<Rightarrow> raising (PlainException (''Unknown pipeline command: '' @ cmd)))"

text \<open>An entry that has not the form of one ends the pipeline with an exception of its own.\<close>

definition pipeline_entry :: "'o py_api \<Rightarrow> 'o \<Rightarrow> py_error + string \<times> 'o list \<times> 'o" where
  "pipeline_entry py item =
     and_then (as_tuple py item) (\<lambda>t.
     and_then (and_then (arg t 0) (extract_string py)) (\<lambda>cmd.
     and_then (and_then (arg t 1) (as_tuple py)) (\<lambda>args.
     and_then (arg t 2) (\<lambda>kw.
     and_then (as_dict py kw) (\<lambda>_. Inr (cmd, args, kw))))))"

text \<open>An exception becomes a result of the pipeline; a panic does not.\<close>

definition caught :: "py_value action \<Rightarrow> py_value action" where
  "caught a s =
     (case a s of
        (Raised e, s1) \<Rightarrow> (Return (PyErrorValue e), s1)
      | (r, s1) \<Rightarrow> (r, s1))"

fun run_pipeline :: "'o py_api \<Rightarrow> lua_host \<Rightarrow> (nat \<Rightarrow> clock) \<Rightarrow> nat \<Rightarrow> 'o list \<Rightarrow> py_value list action" where
  "run_pipeline py lua clocks n [] = finish []"
| "run_pipeline py lua clocks n (item # items) =
     given (pipeline_entry py item) (\<lambda>(cmd, args, kw).
     bind (caught (dispatch_pipeline_command py lua (clocks n) cmd args kw)) (\<lambda>v.
     bind (run_pipeline py lua clocks (Suc n) items) (\<lambda>vs.
     finish (v # vs))))"

definition execute_pipeline :: "'o py_api \<Rightarrow> lua_host \<Rightarrow> (nat \<Rightarrow> clock) \<Rightarrow> 'o list \<Rightarrow> resolved_future action" where
  "execute_pipeline py lua clocks commands =
     bind (run_pipeline py lua clocks 0 commands) (\<lambda>results. answer (PyList results))"

end
