(* ===== verification/Py_Facts.thy ===== *)
theory Py_Facts
  imports Py_Pipeline
begin

text \<open>
  What the bindings promise: a pipeline entry does what the method does, a pipeline runs its
  entries in order and reports an exception in its place, and the places where the two ways
  into the store differ.
\<close>

section \<open>Laws of actions\<close>

text \<open>Awaiting the future that a method gives back.\<close>

definition awaited :: "resolved_future action \<Rightarrow> py_value action" where
  "awaited a s =
     (case a s of
        (Return f, s1) \<Rightarrow> (Return (fst (future_next f)), s1)
      | (Raised e, s1) \<Rightarrow> (Raised e, s1)
      | (Panicked, s1) \<Rightarrow> (Panicked, s1))"

lemma given_simps [simp]: "given (Inl e) f = raising e" "given (Inr x) f = f x"
  by (simp_all add: given_def)

lemma given_and_then: "given (and_then r f) k = given r (\<lambda>x. given (f x) k)"
  by (cases r) simp_all

lemma awaited_given: "awaited (given r f) = given r (\<lambda>x. awaited (f x))"
  by (cases r) (simp_all add: awaited_def raising_def fun_eq_iff)

lemma awaited_bind: "awaited (bind a f) = bind a (\<lambda>x. awaited (f x))"
  by (auto simp: awaited_def bind_def fun_eq_iff split: prod.split answer.split)

lemma awaited_answer: "awaited (answer v) = finish v"
  by (simp add: awaited_def answer_def finish_def resolved_def future_next_def fun_eq_iff)

lemma bind_finish: "bind a finish = a"
  by (auto simp: bind_def finish_def fun_eq_iff split: prod.split answer.split)

lemmas awaited_simps =
  awaited_given awaited_bind awaited_answer bind_finish stored_def attempt_def given_and_then

section \<open>A pipeline entry is the method\<close>

lemma arg_simps [simp]:
  "arg (x # xs) 0 = Inr x" "arg (x # xs) (Suc n) = arg xs n" "arg [] n = Inl (IndexErr ''tuple index out of range'')"
  by (simp_all add: arg_def)

lemma arg_numerals [simp]:
  "arg (x # xs) 1 = arg xs 0" "arg (x # xs) 2 = arg xs 1" "arg (x # xs) 3 = arg xs 2" "arg (x # xs) 4 = arg xs 3"
  by (simp_all add: arg_def nth_Cons' numeral_eq_Suc)

lemma missing_kwargs:
  assumes "\<forall>k. dict_lookup py kw k = Inr None"
  shows "kwarg_or py kw k f d = Inr d" "kwarg_opt py kw k = Inr None"
    "kwarg_lenient py kw k f = Inr None" "kwarg_i64 py kw k = Inr None"
  using assms by (simp_all add: kwarg_or_def kwarg_opt_def kwarg_lenient_def kwarg_i64_def present_def)

lemmas pipe_defs =
  pipe_set_def pipe_get_def pipe_delete_def pipe_exists_def pipe_expire_def pipe_keys_def pipe_ttl_def pipe_mget_def
  pipe_hset_def pipe_hget_def pipe_hdel_def pipe_hvals_def pipe_hgetall_def pipe_hexists_def pipe_hincrby_def
  pipe_sadd_def pipe_smembers_def pipe_sismember_def pipe_srem_def pipe_zadd_def pipe_zrem_def pipe_zrange_def
  pipe_zrangebyscore_def pipe_zrangestore_def pipe_zremrangebyscore_def pipe_zcard_def pipe_zscore_def pipe_zcount_def
  pipe_xadd_def pipe_xread_def pipe_xlen_def pipe_xtrim_def pipe_xdel_def pipe_xrange_def pipe_xgroup_create_def
  pipe_xgroup_destroy_def pipe_xack_def pipe_xautoclaim_def pipe_xclaim_def pipe_xinfo_groups_def
  pipe_xinfo_consumers_def pipe_xpending_range_def pipe_xpending_def pipe_eval_def pipe_script_load_def
  pipe_script_exists_def pipe_publish_def pipe_lpush_def pipe_rpush_def pipe_lpop_def pipe_rpop_def pipe_lrange_def
  pipe_llen_def pipe_lindex_def pipe_linsert_def pipe_lrem_def pipe_lset_def pipe_ltrim_def pipe_lmove_def
  pipe_rpoplpush_def

lemmas method_defs =
  py_set_def py_get_def py_delete_def py_exists_def py_expire_def py_keys_def py_ttl_def py_mget_def
  py_hset_def py_hget_def py_hdel_def py_hvals_def py_hgetall_def py_hexists_def py_hincrby_def
  py_sadd_def py_smembers_def py_sismember_def py_srem_def py_zadd_def py_zrem_def py_zrange_def
  py_zrangebyscore_def py_zrangestore_def py_zremrangebyscore_def py_zcard_def py_zscore_def py_zcount_def
  py_xadd_def py_xread_def py_xlen_def py_xtrim_def py_xdel_def py_xrange_def py_xgroup_create_def
  py_xgroup_destroy_def py_xack_def py_xautoclaim_def py_xclaim_def py_xinfo_groups_def
  py_xinfo_consumers_def py_xpending_range_def py_xpending_def py_eval_def py_script_load_def
  py_script_exists_def py_publish_def py_lpush_def py_rpush_def py_lpop_def py_rpop_def py_lrange_def
  py_llen_def py_lindex_def py_linsert_def py_lrem_def py_lset_def py_ltrim_def py_lmove_def
  py_rpoplpush_def

lemma dispatch_arms:
  "dispatch_pipeline_command py lua clock ''set'' = pipe_set py clock"
  "dispatch_pipeline_command py lua clock ''get'' = pipe_get py clock"
  "dispatch_pipeline_command py lua clock ''delete'' = pipe_delete py clock"
  "dispatch_pipeline_command py lua clock ''exists'' = pipe_exists py clock"
  "dispatch_pipeline_command py lua clock ''hset'' = pipe_hset py clock"
  "dispatch_pipeline_command py lua clock ''hget'' = pipe_hget py clock"
  "dispatch_pipeline_command py lua clock ''hdel'' = pipe_hdel py clock"
  "dispatch_pipeline_command py lua clock ''hvals'' = pipe_hvals py clock"
  "dispatch_pipeline_command py lua clock ''hgetall'' = pipe_hgetall py clock"
  "dispatch_pipeline_command py lua clock ''hexists'' = pipe_hexists py clock"
  "dispatch_pipeline_command py lua clock ''hincrby'' = pipe_hincrby py clock"
  "dispatch_pipeline_command py lua clock ''sadd'' = pipe_sadd py clock"
  "dispatch_pipeline_command py lua clock ''smembers'' = pipe_smembers py clock"
  "dispatch_pipeline_command py lua clock ''sismember'' = pipe_sismember py clock"
  "dispatch_pipeline_command py lua clock ''srem'' = pipe_srem py clock"
  "dispatch_pipeline_command py lua clock ''zadd'' = pipe_zadd py clock"
  "dispatch_pipeline_command py lua clock ''zrem'' = pipe_zrem py clock"
  "dispatch_pipeline_command py lua clock ''zrange'' = pipe_zrange py clock"
  "dispatch_pipeline_command py lua clock ''zrangebyscore'' = pipe_zrangebyscore py clock"
  "dispatch_pipeline_command py lua clock ''zrangestore'' = pipe_zrangestore py clock"
  "dispatch_pipeline_command py lua clock ''zremrangebyscore'' = pipe_zremrangebyscore py clock"
  "dispatch_pipeline_command py lua clock ''zcard'' = pipe_zcard py clock"
  "dispatch_pipeline_command py lua clock ''zscore'' = pipe_zscore py clock"
  "dispatch_pipeline_command py lua clock ''zcount'' = pipe_zcount py clock"
  "dispatch_pipeline_command py lua clock ''expire'' = pipe_expire py clock"
  "dispatch_pipeline_command py lua clock ''xadd'' = pipe_xadd py clock"
  "dispatch_pipeline_command py lua clock ''xread'' = pipe_xread py clock"
  "dispatch_pipeline_command py lua clock ''xlen'' = pipe_xlen py clock"
  "dispatch_pipeline_command py lua clock ''xtrim'' = pipe_xtrim py clock"
  "dispatch_pipeline_command py lua clock ''xdel'' = pipe_xdel py clock"
  "dispatch_pipeline_command py lua clock ''xrange'' = pipe_xrange py clock"
  "dispatch_pipeline_command py lua clock ''xgroup_create'' = pipe_xgroup_create py clock"
  "dispatch_pipeline_command py lua clock ''xgroup_destroy'' = pipe_xgroup_destroy py clock"
  "dispatch_pipeline_command py lua clock ''xreadgroup'' = pipe_xreadgroup py clock"
  "dispatch_pipeline_command py lua clock ''xack'' = pipe_xack py clock"
  "dispatch_pipeline_command py lua clock ''xautoclaim'' = pipe_xautoclaim py clock"
  "dispatch_pipeline_command py lua clock ''xclaim'' = pipe_xclaim py clock"
  "dispatch_pipeline_command py lua clock ''xinfo_groups'' = pipe_xinfo_groups py clock"
  "dispatch_pipeline_command py lua clock ''xinfo_consumers'' = pipe_xinfo_consumers py clock"
  "dispatch_pipeline_command py lua clock ''xpending_range'' = pipe_xpending_range py clock"
  "dispatch_pipeline_command py lua clock ''eval'' = pipe_eval py lua clock"
  "dispatch_pipeline_command py lua clock ''evalsha'' = pipe_evalsha py lua clock"
  "dispatch_pipeline_command py lua clock ''script_load'' = pipe_script_load py lua clock"
  "dispatch_pipeline_command py lua clock ''script_exists'' = pipe_script_exists py clock"
  "dispatch_pipeline_command py lua clock ''publish'' = pipe_publish py clock"
  "dispatch_pipeline_command py lua clock ''keys'' = pipe_keys py clock"
  "dispatch_pipeline_command py lua clock ''ttl'' = pipe_ttl py clock"
  "dispatch_pipeline_command py lua clock ''setex'' = pipe_setex py clock"
  "dispatch_pipeline_command py lua clock ''mget'' = pipe_mget py clock"
  "dispatch_pipeline_command py lua clock ''xpending'' = pipe_xpending py clock"
  "dispatch_pipeline_command py lua clock ''lpush'' = pipe_lpush py clock"
  "dispatch_pipeline_command py lua clock ''rpush'' = pipe_rpush py clock"
  "dispatch_pipeline_command py lua clock ''lpop'' = pipe_lpop py clock"
  "dispatch_pipeline_command py lua clock ''rpop'' = pipe_rpop py clock"
  "dispatch_pipeline_command py lua clock ''lrange'' = pipe_lrange py clock"
  "dispatch_pipeline_command py lua clock ''llen'' = pipe_llen py clock"
  "dispatch_pipeline_command py lua clock ''lindex'' = pipe_lindex py clock"
  "dispatch_pipeline_command py lua clock ''linsert'' = pipe_linsert py clock"
  "dispatch_pipeline_command py lua clock ''lrem'' = pipe_lrem py clock"
  "dispatch_pipeline_command py lua clock ''lset'' = pipe_lset py clock"
  "dispatch_pipeline_command py lua clock ''ltrim'' = pipe_ltrim py clock"
  "dispatch_pipeline_command py lua clock ''lmove'' = pipe_lmove py clock"
  "dispatch_pipeline_command py lua clock ''rpoplpush'' = pipe_rpoplpush py clock"
  by (simp_all add: dispatch_pipeline_command_def pipeline_commands_def fun_eq_iff)


section \<open>A pipeline runs its entries in order\<close>

lemma run_pipeline_Cons:
  "run_pipeline py lua clocks n (item # items) s = (Return results, s') \<longleftrightarrow>
   (\<exists>cmd args kw v s1 vs. pipeline_entry py item = Inr (cmd, args, kw) \<and> results = v # vs \<and>
      caught (dispatch_pipeline_command py lua (clocks n) cmd args kw) s = (Return v, s1) \<and>
      run_pipeline py lua clocks (Suc n) items s1 = (Return vs, s'))"
  by (cases "pipeline_entry py item")
     (auto simp: raising_def bind_def finish_def split: prod.splits answer.splits)

lemma caught_Return:
  "caught a s = (Return v, s1) \<longleftrightarrow> a s = (Return v, s1) \<or> (\<exists>e. v = PyErrorValue e \<and> a s = (Raised e, s1))"
  by (auto simp: caught_def split: prod.splits answer.splits)

lemma run_pipeline_trace:
  assumes "run_pipeline py lua clocks n items s = (Return results, s')"
  shows "\<exists>states. length results = length items \<and> length states = Suc (length items) \<and>
    states ! 0 = s \<and> states ! length items = s' \<and>
    (\<forall>i < length items. \<exists>cmd args kw. pipeline_entry py (items ! i) = Inr (cmd, args, kw) \<and>
       caught (dispatch_pipeline_command py lua (clocks (n + i)) cmd args kw) (states ! i) =
         (Return (results ! i), states ! Suc i))"
  using assms
proof (induction items arbitrary: n s results)
  case Nil
  then show ?case by (intro exI [of _ "[s]"]) (simp add: finish_def)
next
  case (Cons item items)
  then obtain cmd args kw v s1 vs where entry: "pipeline_entry py item = Inr (cmd, args, kw)"
    and results: "results = v # vs"
    and first: "caught (dispatch_pipeline_command py lua (clocks n) cmd args kw) s = (Return v, s1)"
    and rest: "run_pipeline py lua clocks (Suc n) items s1 = (Return vs, s')"
    by (auto simp: run_pipeline_Cons simp del: run_pipeline.simps)
  obtain states where st: "length vs = length items" "length states = Suc (length items)" "states ! 0 = s1"
    "states ! length items = s'"
    "\<forall>i < length items. \<exists>cmd args kw. pipeline_entry py (items ! i) = Inr (cmd, args, kw) \<and>
       caught (dispatch_pipeline_command py lua (clocks (Suc n + i)) cmd args kw) (states ! i) =
         (Return (vs ! i), states ! Suc i)"
    using Cons.IH [OF rest] by blast
  show ?case
  proof (intro exI [of _ "s # states"] conjI allI impI)
    fix i assume "i < length (item # items)"
    then show "\<exists>cmd args kw. pipeline_entry py ((item # items) ! i) = Inr (cmd, args, kw) \<and>
       caught (dispatch_pipeline_command py lua (clocks (n + i)) cmd args kw) ((s # states) ! i) =
         (Return (results ! i), (s # states) ! Suc i)"
      using st entry first results by (cases i) auto
  qed (use st results in simp_all)
qed

text \<open>
  C38. A pipeline that returns has run every entry once and in order, each on the store that
  the one before left; an exception of an entry is the result in its place and does not stop
  the entries behind it.
\<close>

theorem pipeline_in_order:
  assumes "execute_pipeline py lua clocks items s = (Return f, s')"
  shows "\<exists>results states. fst (future_next f) = PyList results \<and> length results = length items \<and>
    length states = Suc (length items) \<and> states ! 0 = s \<and> states ! length items = s' \<and>
    (\<forall>i < length items. \<exists>cmd args kw r. pipeline_entry py (items ! i) = Inr (cmd, args, kw) \<and>
       dispatch_pipeline_command py lua (clocks i) cmd args kw (states ! i) = (r, states ! Suc i) \<and>
       (r = Return (results ! i) \<or> (\<exists>e. r = Raised e \<and> results ! i = PyErrorValue e)))"
proof -
  obtain results s1 where run: "run_pipeline py lua clocks 0 items s = (Return results, s1)"
    and f: "(Return f, s') = (Return (resolved (PyList results)), s1)"
    using assms
    by (auto simp: execute_pipeline_def bind_def answer_def finish_def split: prod.splits answer.splits)
  then have "fst (future_next f) = PyList results" "s1 = s'"
    by (simp_all add: resolved_def future_next_def)
  with run_pipeline_trace [OF run] show ?thesis
    by (fastforce simp: caught_Return)
qed

text \<open>
  A panic of one entry ends the whole pipeline: what the entries before it changed stays,
  and none of their results reaches the caller.
\<close>

theorem pipeline_panic_loses_results:
  assumes "run_pipeline py lua clocks 0 before s = (Return results, s1)"
    and "pipeline_entry py item = Inr (cmd, args, kw)"
    and "dispatch_pipeline_command py lua (clocks (length before)) cmd args kw s1 = (Panicked, s2)"
  shows "execute_pipeline py lua clocks (before @ item # behind) s = (Panicked, s2)"
proof -
  have "run_pipeline py lua clocks n (before @ item # behind) s = (Panicked, s2)"
    if "run_pipeline py lua clocks n before s = (Return results, s1)"
      "dispatch_pipeline_command py lua (clocks (n + length before)) cmd args kw s1 = (Panicked, s2)" for n
    using that
  proof (induction before arbitrary: n s results)
    case Nil
    then show ?case using assms(2) by (simp add: finish_def bind_def caught_def)
  next
    case (Cons x before)
    then obtain method' args' kw' v s3 vs where x: "pipeline_entry py x = Inr (method', args', kw')"
      "caught (dispatch_pipeline_command py lua (clocks n) method' args' kw') s = (Return v, s3)"
      "run_pipeline py lua clocks (Suc n) before s3 = (Return vs, s1)"
      by (auto simp: run_pipeline_Cons simp del: run_pipeline.simps)
    from Cons.IH [OF x(3)] Cons.prems(2) x(1,2) show ?case
      by (simp add: bind_def)
  qed
  from this [of 0] assms(1,3) show ?thesis
    by (simp add: execute_pipeline_def bind_def)
qed

section \<open>Where a pipeline differs\<close>

text \<open>An ID that is not one is read as the beginning.\<close>

lemma read_group_dollar: "read_group_step t cname ''$'' cnt s g = read_group_step t cname ''0-0'' cnt s g"
proof -
  have "parse_stream_id ''$'' = None" by code_simp
  then show ?thesis by (simp add: read_group_step_def)
qed

lemma xreadgroup_dollar:
  "xreadgroup t grp cname [key] [''$''] cnt ks = xreadgroup t grp cname [key] [''0-0''] cnt ks"
  by (simp add: xreadgroup_def read_group_dollar Let_def split: option.split value_data.split)

text \<open>
  C39. Three entries of a pipeline do not do what the method does.  EVALSHA with an unknown
  digest raises a response error, not the \<open>NoScriptError\<close> of the cmd.  XREADGROUP with the
  ID \<open>$\<close>, which the cmd refuses, reads the pending entries of the consumer from the
  beginning.  XREAD with a count that is not a number, or is out of range, reads without a
  limit; the cmd never gets such a count.
\<close>

theorem pipeline_diverges:
  assumes "extract_string py sha_obj = Inr sha" and "extract_usize py n = Inr numkeys"
    and "hm_get (scripts (shared s)) sha = None" and "has_noscript_error py" and "has_response_error py"
    and "extract_bytes py g = Inr grp" and "extract_bytes py c = Inr cname" and "as_dict py d = Inr [(k, v)]"
    and "extract_bytes py k = Inr key" and "extract_id_str py v = Inr ''$''"
    and "dict_lookup py kw ''count'' = Inr (Some cnt)" and "\<not> is_none py cnt" and "extract_usize py cnt = Inl e"
  shows "dispatch_pipeline_command py lua clock ''evalsha'' [sha_obj, n] kw s =
      (Raised (ResponseError ''NOSCRIPT No matching script. Use EVAL.''), s) \<and>
    py_evalsha py lua clock sha numkeys [] s = (Raised (NoScriptError ''NOSCRIPT No matching script. Use EVAL.''), s) \<and>
    (case xreadgroup (read_clock clock 0) grp cname [key] [''0-0''] None (data (shared s)) of
       (Inr rows, ks) \<Rightarrow>
         dispatch_pipeline_command py lua clock ''xreadgroup'' [g, c, d] kw s =
           (Return (format_xreadgroup_result_with_py rows), s\<lparr>shared := (shared s)\<lparr>data := ks\<rparr>\<rparr>)
     | (Inl err, ks) \<Rightarrow> True) \<and>
    py_xreadgroup py clock g c [(k, v)] None s =
      (Raised (ResponseError ''ERR the $ ID meaning is only valid within XREAD''), s) \<and>
    dispatch_pipeline_command py lua clock ''xread'' [d] kw = awaited (py_xread py clock [(k, v)] None)"
proof (intro conjI)
  have kw: "kwarg_lenient py kw ''count'' (extract_usize py) = Inr None"
    using assms by (simp add: kwarg_lenient_def present_def)
  show "dispatch_pipeline_command py lua clock ''evalsha'' [sha_obj, n] kw s =
      (Raised (ResponseError ''NOSCRIPT No matching script. Use EVAL.''), s)"
    using assms
    by (simp add: dispatch_arms pipe_evalsha_def given_and_then sending_def bind_def evalsha_def eval_answer_def
        make_response_error_def)
  show "py_evalsha py lua clock sha numkeys [] s = (Raised (NoScriptError ''NOSCRIPT No matching script. Use EVAL.''), s)"
    using assms
    by (simp add: py_evalsha_def sending_def bind_def evalsha_def eval_answer_def noscript_or_response_def
        make_noscript_error_def)
  show "case xreadgroup (read_clock clock 0) grp cname [key] [''0-0''] None (data (shared s)) of
       (Inr rows, ks) \<Rightarrow>
         dispatch_pipeline_command py lua clock ''xreadgroup'' [g, c, d] kw s =
           (Return (format_xreadgroup_result_with_py rows), s\<lparr>shared := (shared s)\<lparr>data := ks\<rparr>\<rparr>)
     | (Inl err, ks) \<Rightarrow> True"
    using assms kw
    by (auto simp: dispatch_arms pipe_xreadgroup_def dict_arg_def given_and_then pipe_group_target_def stored_def
        call_def on_data_def bind_def xreadgroup_dollar finish_def split: prod.split sum.split)
  show "py_xreadgroup py clock g c [(k, v)] None s =
      (Raised (ResponseError ''ERR the $ ID meaning is only valid within XREAD''), s)"
    using assms by (simp add: py_xreadgroup_def group_target_def make_response_error_def raising_def)
  show "dispatch_pipeline_command py lua clock ''xread'' [d] kw = awaited (py_xread py clock [(k, v)] None)"
    using assms kw by (simp add: dispatch_arms pipe_xread_def py_xread_def dict_arg_def awaited_simps)
qed

section \<open>Timeouts\<close>

text \<open>
  The timeout of a blocking pop: none and zero mean to wait for ever (0 ms), a negative
  one is refused, and any other, however small, becomes at least one millisecond, so that it
  is never taken for the wait without end.
\<close>

theorem timeout_to_ms_spec:
  "timeout_to_ms t =
     (case t of
        None \<Rightarrow> Inr 0
      | Some x \<Rightarrow>
          if f64_lt x f64_zero then Inl (ValueErr ''timeout must be a non-negative number'')
          else Inr (if f64_eq x f64_zero then 0 else max (f64_ceil_as_u64 (f64_times_1000 x)) 1)) \<and>
   (timeout_to_ms t = Inr 0 \<longleftrightarrow> t = None \<or> (\<exists>x. t = Some x \<and> f64_eq x f64_zero))"
proof (intro conjI)
  have "max x 1 \<noteq> 0" for x :: u64
    by (auto simp: max_def split: if_splits)
  then show "timeout_to_ms t = Inr 0 \<longleftrightarrow> t = None \<or> (\<exists>x. t = Some x \<and> f64_eq x f64_zero)"
    by (auto simp: timeout_to_ms_def f64_eq_def f64_lt_def split: option.split)
qed (auto simp: timeout_to_ms_def split: option.split)

section \<open>Witnesses\<close>

text \<open>A small interpreter: the objects are the values, and the queries behave as PyO3 documents.\<close>

definition sample_api :: "py_value py_api" where
  "sample_api =
     \<lparr>extract_string = (\<lambda>v. case v of PyStr s \<Rightarrow> Inr s | _ \<Rightarrow> Inl (Foreign ''TypeError'')),
      extract_u8s = (\<lambda>v. case v of PyBytes b \<Rightarrow> Inr b | _ \<Rightarrow> Inl (Foreign ''TypeError'')),
      extract_bool = (\<lambda>v. case v of PyBool b \<Rightarrow> Inr b | _ \<Rightarrow> Inl (Foreign ''TypeError'')),
      extract_i64 = (\<lambda>v. case v of PyInt n \<Rightarrow> if in_i64 n then Inr n else Inl (Foreign ''OverflowError'')
                                  | _ \<Rightarrow> Inl (Foreign ''TypeError'')),
      extract_u64 = (\<lambda>v. case v of PyInt n \<Rightarrow> if 0 \<le> n \<and> n < 2 ^ 64 then Inr (of_int n) else Inl (Foreign ''OverflowError'')
                                  | _ \<Rightarrow> Inl (Foreign ''TypeError'')),
      extract_usize = (\<lambda>v. case v of PyInt n \<Rightarrow> if 0 \<le> n \<and> n < 2 ^ 64 then Inr (nat n) else Inl (Foreign ''OverflowError'')
                                    | _ \<Rightarrow> Inl (Foreign ''TypeError'')),
      extract_f64 = (\<lambda>v. case v of PyFloat x \<Rightarrow> Inr x | _ \<Rightarrow> Inl (Foreign ''TypeError'')),
      extract_objects = (\<lambda>v. case v of PyList vs \<Rightarrow> Inr vs | PyTuple vs \<Rightarrow> Inr vs | _ \<Rightarrow> Inl (Foreign ''TypeError'')),
      as_tuple = (\<lambda>v. case v of PyTuple vs \<Rightarrow> Inr vs | _ \<Rightarrow> Inl (Foreign ''TypeError'')),
      as_dict = (\<lambda>v. case v of PyDict ps \<Rightarrow> Inr ps | _ \<Rightarrow> Inl (Foreign ''TypeError'')),
      dict_lookup = (\<lambda>v k. case v of PyDict ps \<Rightarrow> Inr (map_of ps (PyStr k)) | _ \<Rightarrow> Inl (Foreign ''TypeError'')),
      is_none = (\<lambda>v. v = PyNone),
      is_string = (\<lambda>v. case v of PyStr s \<Rightarrow> True | _ \<Rightarrow> False),
      is_bytes = (\<lambda>v. case v of PyBytes b \<Rightarrow> True | _ \<Rightarrow> False),
      is_bytearray = (\<lambda>v. False), is_memoryview = (\<lambda>v. False),
      is_sequence = (\<lambda>v. case v of PyList vs \<Rightarrow> True | PyTuple vs \<Rightarrow> True | _ \<Rightarrow> False),
      seq_len = (\<lambda>v. case v of PyList vs \<Rightarrow> Inr (length vs) | PyTuple vs \<Rightarrow> Inr (length vs) | _ \<Rightarrow> Inl (Foreign ''TypeError'')),
      seq_item = (\<lambda>v i. case v of PyList vs \<Rightarrow> arg vs i | PyTuple vs \<Rightarrow> arg vs i | _ \<Rightarrow> Inl (Foreign ''TypeError'')),
      call_tobytes = (\<lambda>v. Inl (Foreign ''AttributeError'')),
      call_total_seconds = (\<lambda>v. Inl (Foreign ''AttributeError'')),
      has_response_error = True, has_noscript_error = True\<rparr>"

definition sample_lua :: lua_host where
  "sample_lua = \<lparr>float_text = (\<lambda>_. []), machine = (\<lambda>_ _ _. lua_run.Done (LuaOk LNil)), sha1_hex = (\<lambda>s. s)\<rparr>"

definition sample_clock :: clock where
  "sample_clock n = (int n, 1000)"

definition empty_server :: server where
  "empty_server = \<lparr>shared = new_store, broadcast = []\<rparr>"

text \<open>A pipeline entry: the method, its arguments and its keyword arguments.\<close>

definition entry :: "string \<Rightarrow> py_value list \<Rightarrow> (py_value \<times> py_value) list \<Rightarrow> py_value" where
  "entry cmd args kw = PyTuple [PyStr cmd, PyTuple args, PyDict kw]"

lemma sample_entry: "pipeline_entry sample_api (entry cmd args kw) = Inr (cmd, args, PyDict kw)"
  by (simp add: pipeline_entry_def entry_def sample_api_def)

lemma sample_bytes [simp]: "extract_bytes sample_api (PyBytes b) = Inr b" "extract_bytes sample_api (PyStr b) = Inr b"
  by (simp_all add: extract_bytes_def sample_api_def)

lemma sample_no_kwargs: "\<forall>k. dict_lookup sample_api (PyDict []) k = Inr None"
  by (simp add: sample_api_def)

definition pushed_server :: server where
  "pushed_server =
     empty_server\<lparr>shared := new_store\<lparr>data := [(''q'', \<lparr>vdata = ListV [''x''], expires_at = None\<rparr>)], list_notify := 1\<rparr>\<rparr>"

lemma sample_lpush:
  "dispatch_pipeline_command sample_api sample_lua clock ''lpush'' [PyStr ''q'', PyBytes ''x''] (PyDict kw) empty_server =
     (Return (PyInt 1), pushed_server)"
proof -
  have "lpush t ''q'' [''x''] [] =
      (Inr 1, True, [(''q'', \<lparr>vdata = ListV [''x''], expires_at = None\<rparr>)])" for t
    by (simp add: lpush_def create_key_def expire_key_def hm_get_def hm_insert_def modify_kind_def new_list_def notified_def)
  then show ?thesis
    by (simp add: dispatch_arms pipe_lpush_def stored_def call_def growing_def bind_def finish_def
        empty_server_def pushed_server_def new_store_def notify_lists_def)
qed


text \<open>A push and a method that does not exist; a push and a SET whose time to live overflows the clock.\<close>

lemma sample_unknown:
  "dispatch_pipeline_command sample_api sample_lua clock ''flush'' args kw s =
     (Raised (PlainException ''Unknown pipeline command: flush''), s)"
  by (simp add: dispatch_pipeline_command_def pipeline_commands_def raising_def)

lemma sample_overflow:
  "dispatch_pipeline_command sample_api sample_lua sample_clock ''set'' [PyStr ''k'', PyStr ''v'']
     (PyDict [(PyStr ''ex'', PyInt (2 ^ 63))]) pushed_server = (Panicked, pushed_server)"
proof -
  have ex: "extract_expiry sample_api (PyInt (2 ^ 63)) False = Return (from_secs (2 ^ 63))"
    by (simp add: extract_expiry_def sample_api_def)
  have kw: "kwarg_opt sample_api (PyDict [(PyStr ''ex'', PyInt (2 ^ 63))]) ''ex'' = Inr (Some (PyInt (2 ^ 63)))"
    "kwarg_opt sample_api (PyDict [(PyStr ''ex'', PyInt (2 ^ 63))]) ''px'' = Inr None"
    "kwarg_or sample_api (PyDict [(PyStr ''ex'', PyInt (2 ^ 63))]) ''nx'' f d = Inr d"
    "kwarg_or sample_api (PyDict [(PyStr ''ex'', PyInt (2 ^ 63))]) ''xx'' f d = Inr d" for f :: "py_value \<Rightarrow> py_error + 'a" and d
    by (simp_all add: kwarg_opt_def kwarg_or_def present_def sample_api_def)
  have "set_cmd 0 ''k'' ''v'' (Some (from_secs (2 ^ 63))) False False ks = None" for ks
    by (simp add: set_cmd_def new_string_def instant_checked_add_def from_secs_def)
  then show ?thesis
    by (simp add: dispatch_arms pipe_set_def kw ex attempt_def expiry_arg_def bind_def checked_call_def read_clock_def sample_clock_def
        del: power_numeral)
qed

theorem pipeline_in_order_witness:
  "\<exists>f s' results states.
     execute_pipeline sample_api sample_lua (\<lambda>_. sample_clock)
       [entry ''lpush'' [PyStr ''q'', PyBytes ''x''] [], entry ''flush'' [] []] empty_server = (Return f, s') \<and>
     fst (future_next f) = PyList results \<and> length results = 2 \<and> states ! 0 = empty_server \<and> states ! 2 = s' \<and>
     s' = pushed_server \<and> fst (future_next f) = PyList [PyInt 1, PyErrorValue (PlainException ''Unknown pipeline command: flush'')]"
proof -
  let ?es = "[entry ''lpush'' [PyStr ''q'', PyBytes ''x''] [], entry ''flush'' [] []]"
  let ?f = "resolved (PyList [PyInt 1, PyErrorValue (PlainException ''Unknown pipeline command: flush'')])"
  have run: "execute_pipeline sample_api sample_lua (\<lambda>_. sample_clock) ?es empty_server = (Return ?f, pushed_server)"
    by (simp add: execute_pipeline_def sample_entry bind_def caught_def sample_lpush sample_unknown finish_def answer_def)
  obtain results states where "fst (future_next ?f) = PyList results" "length results = 2"
    "states ! 0 = empty_server" "states ! 2 = pushed_server"
    using pipeline_in_order [OF run] by (auto simp: numeral_2_eq_2)
  then show ?thesis
    using run by (intro exI [of _ ?f] exI [of _ pushed_server] exI [of _ results] exI [of _ states])
      (simp add: resolved_def future_next_def)
qed

theorem pipeline_panic_loses_results_witness:
  "execute_pipeline sample_api sample_lua (\<lambda>_. sample_clock)
     ([entry ''lpush'' [PyStr ''q'', PyBytes ''x''] []] @
      entry ''set'' [PyStr ''k'', PyStr ''v''] [(PyStr ''ex'', PyInt (2 ^ 63))] # []) empty_server =
   (Panicked, pushed_server)"
proof (rule pipeline_panic_loses_results [OF _ sample_entry])
  show "run_pipeline sample_api sample_lua (\<lambda>_. sample_clock) 0 [entry ''lpush'' [PyStr ''q'', PyBytes ''x''] []] empty_server =
      (Return [PyInt 1], pushed_server)"
    by (simp add: sample_entry bind_def caught_def sample_lpush finish_def)
  show "dispatch_pipeline_command sample_api sample_lua sample_clock ''set'' [PyStr ''k'', PyStr ''v'']
     (PyDict [(PyStr ''ex'', PyInt (2 ^ 63))]) pushed_server = (Panicked, pushed_server)"
    by (rule sample_overflow)
qed

theorem pipeline_diverges_witness:
  "dispatch_pipeline_command sample_api sample_lua sample_clock ''evalsha'' [PyStr ''f00'', PyInt 0]
      (PyDict [(PyStr ''count'', PyStr ''many'')]) empty_server =
      (Raised (ResponseError ''NOSCRIPT No matching script. Use EVAL.''), empty_server) \<and>
   py_evalsha sample_api sample_lua sample_clock ''f00'' 0 [] empty_server =
      (Raised (NoScriptError ''NOSCRIPT No matching script. Use EVAL.''), empty_server)"
proof -
  have e: "extract_string sample_api (PyStr s) = Inr s" "extract_usize sample_api (PyInt 0) = Inr 0"
    "hm_get (scripts (shared empty_server)) s = None" "has_noscript_error sample_api" "has_response_error sample_api"
    "as_dict sample_api (PyDict ps) = Inr ps" "extract_id_str sample_api (PyStr s) = Inr s"
    "dict_lookup sample_api (PyDict [(PyStr k, v)]) k = Inr (Some v)" "\<not> is_none sample_api (PyStr s)"
    "extract_usize sample_api (PyStr s) = Inl (Foreign ''TypeError'')" for s ps k v
    by (simp_all add: sample_api_def empty_server_def new_store_def extract_id_str_def)
  from pipeline_diverges [OF e(1,2,3,4,5) sample_bytes(2) sample_bytes(2) e(6) sample_bytes(2) e(7) e(8) e(9) e(10),
      where clock = sample_clock and lua = sample_lua]
  show ?thesis by blast
qed

end
