(* ===== verification/Server_Steps.thy ===== *)
theory Server_Steps
  imports Py_Facts Store_Frame Lua_Facts
begin

text \<open>
  All that can happen to a store: the methods, the pipelines, the polls of blocked calls, the
  sweep, and the listeners of the pub/sub tasks, as one step relation.  The locale
  \<open>server_frame\<close> states what a relation between servers must allow to hold across every
  step; it is interpreted as the invariant of the store and as the promise to blocked readers.
\<close>

section \<open>Growth and wake-ups of the store's methods\<close>

text \<open>A blocked reader waits for a list that has an element.\<close>

fun occupied :: "value_data \<Rightarrow> nat" where
  "occupied (ListV xs) = (if xs = [] then 0 else 1)"
| "occupied _ = 0"

lemma occupied_mono: "not_larger list_size ks ks' \<Longrightarrow> not_larger occupied ks ks'"
proof -
  have "occupied d = min 1 (list_size d)" for d by (cases d) (auto simp: Suc_le_eq)
  then have "size_at occupied ks k = min 1 (size_at list_size ks k)" for ks k
    by (simp add: size_at_def split: option.split)
  then show "not_larger list_size ks ks' \<Longrightarrow> not_larger occupied ks ks'"
    by (auto simp: not_larger_def min_def dest: spec le_trans)
qed

interpretation occupancy: stream_free_frame "not_larger occupied" "smaller occupied"
  by unfold_locales (simp_all add: not_larger_frame, blast intro: not_larger_trans, auto simp: smaller_def)

lemma occupancy_linsert: "not_larger occupied ks (snd (linsert t key place pivot v ks))"
  unfolding linsert_def
  by (auto simp: update_list_key_def not_larger_refl not_larger_remove smaller_def Let_def
      intro!: not_larger_insert split: option.splits value_data.splits prod.splits if_splits)

context command_frame begin

text \<open>A write that fails leaves at most a new empty value.\<close>

lemma K_failed_push:
  assumes "\<forall>xs. \<exists>n. fst (f xs) = Inr n"
    and "\<nexists>n. fst (create_key t key new_list (modify_kind list_of ListV f) ks) = Inr n"
  shows "K ks (snd (create_key t key new_list (modify_kind list_of ListV (f :: bytes list \<Rightarrow> i64 result \<times> bytes list)) ks))"
proof -
  let ?ks1 = "expire_key t key ks"
  define e where "e = (case live t ks key of None \<Rightarrow> new_list | Some e \<Rightarrow> e)"
  have created: "fst (create_key t key new_list g ks) = fst (g (vdata e))"
    "snd (create_key t key new_list g ks) = hm_insert key (e\<lparr>vdata := snd (g (vdata e))\<rparr>) ?ks1"
    for g :: "value_data \<Rightarrow> i64 result \<times> value_data"
    by (simp_all add: create_key_def e_def Let_def split_beta)
  have "list_of (vdata e) = None"
    using assms unfolding created
    by (cases "list_of (vdata e)") (force simp: modify_kind_def split_beta)+
  moreover from this have "live t ks key = Some e"
    by (auto simp: e_def split: option.splits)
  ultimately show ?thesis
    unfolding created by (intro K_trans [OF K_expire K_insert]) (auto simp: modify_kind_def V_refl)
qed

lemma not_notified: "\<not> notified r \<longleftrightarrow> (\<nexists>n. r = Inr n)"
  by (cases r) (simp_all add: notified_def)

lemma K_failed_lpush: "\<not> fst (snd (lpush t key vs ks)) \<Longrightarrow> K ks (snd (snd (lpush t key vs ks)))"
proof (cases "vs = []")
  case False
  assume "\<not> fst (snd (lpush t key vs ks))"
  with False show ?thesis
    by (simp add: lpush_def split_beta Let_def not_notified) (rule K_failed_push; simp)
qed (simp add: lpush_def K_refl)

lemma K_failed_rpush: "\<not> fst (snd (rpush t key vs ks)) \<Longrightarrow> K ks (snd (snd (rpush t key vs ks)))"
proof (cases "vs = []")
  case False
  assume "\<not> fst (snd (rpush t key vs ks))"
  with False show ?thesis
    by (simp add: rpush_def split_beta Let_def not_notified) (rule K_failed_push; simp)
qed (simp add: rpush_def K_refl)

lemma K_unmoved:
  assumes "\<not> fst (snd (lmove_atomic t src dst a b ks))"
  shows "K ks (snd (snd (lmove_atomic t src dst a b ks)))"
proof (rule K_failed_move)
  define ks2 where "ks2 = (if src \<noteq> dst then expire_key t dst (expire_key t src ks) else expire_key t src ks)"
  show "\<nexists>v. fst (lmove_atomic t src dst a b ks) = Inr (Some v)"
    using assms unfolding lmove_atomic_def Let_def ks2_def [symmetric]
    by (auto split: option.splits value_data.splits prod.splits if_splits)
qed

lemma K_failed_xadd:
  assumes "\<not> fst (snd (xadd t ms key flds sid ks))"
  shows "K ks (snd (snd (xadd t ms key flds sid ks)))"
proof -
  let ?ks1 = "expire_key t key ks"
  define e where "e = (case live t ks key of None \<Rightarrow> new_stream | Some e \<Rightarrow> e)"
  let ?g = "modify_kind stream_of StreamV (xadd_stream ms flds sid)"
  have created: "fst (xadd t ms key flds sid ks) = fst (?g (vdata e))"
    "snd (snd (xadd t ms key flds sid ks)) = hm_insert key (e\<lparr>vdata := snd (?g (vdata e))\<rparr>) ?ks1"
    by (simp_all add: xadd_def create_key_def e_def Let_def split_beta)
  from assms obtain err where "fst (?g (vdata e)) = Inl err"
    unfolding created(1) [symmetric] by (auto simp: xadd_def split_beta Let_def split: sum.splits)
  then have "snd (?g (vdata e)) = vdata e"
  proof (cases "stream_of (vdata e)")
    case (Some s)
    then have "vdata e = StreamV s" by (rule stream_kind.wrap_proj)
    with \<open>fst (?g (vdata e)) = Inl err\<close> show ?thesis
      by (auto simp: modify_kind_def xadd_stream_def Let_def split_beta split: option.splits sum.splits if_splits)
  qed (simp add: modify_kind_def)
  moreover have "K ?ks1 (hm_insert key e ?ks1)"
  proof (rule K_insert)
    have "V None (StreamV new_stream_value)"
      by (rule V_new_stream) (simp_all add: new_stream_value_def stream_wf_def bt_wf_def hm_wf_def)
    then show "V (map_option vdata (hm_get ?ks1 key)) (vdata e)"
      by (cases "hm_get ?ks1 key") (simp_all add: e_def V_refl)
  qed
  ultimately show ?thesis
    unfolding created(2) by (simp add: K_trans [OF K_expire])
qed

end

section \<open>What every step keeps\<close>

named_theorems within_intros \<open>actions that stay within the relation of a server frame\<close>

text \<open>
  A relation between the servers before and after: \<open>K\<close> between the keyspaces of a step that
  wakes nobody, \<open>KL\<close> and \<open>KS\<close> of one that wakes the readers of lists or of streams, \<open>R\<close>
  between the registries.  Steps that panic count when \<open>covered\<close> holds.
\<close>

locale server_frame =
  base: command_frame K V + lists: list_free_frame KL VL + streams: stream_free_frame KS VS
  for K V KL VL KS VS +
  fixes R :: "registry \<Rightarrow> registry \<Rightarrow> bool" and P :: "server \<Rightarrow> server \<Rightarrow> bool" and covered :: bool
    and digest :: "string \<Rightarrow> string"
  assumes P_refl: "P s s"
    and P_trans: "P s1 s2 \<Longrightarrow> P s2 s3 \<Longrightarrow> P s1 s3"
    and P_data: "K (data (shared s)) ks \<Longrightarrow> P s (s\<lparr>shared := (shared s)\<lparr>data := ks\<rparr>\<rparr>)"
    and P_lists: "KL (data (shared s)) ks \<Longrightarrow> P s (s\<lparr>shared := notify_lists ((shared s)\<lparr>data := ks\<rparr>)\<rparr>)"
    and P_streams: "KS (data (shared s)) ks \<Longrightarrow> P s (s\<lparr>shared := notify_streams ((shared s)\<lparr>data := ks\<rparr>)\<rparr>)"
    and P_registry: "R (pubsub (shared s)) reg \<Longrightarrow> P s (s\<lparr>shared := (shared s)\<lparr>pubsub := reg\<rparr>\<rparr>)"
    and P_shutdown: "P s (s\<lparr>shared := shutdown (shared s)\<rparr>)"
    and P_load: "P s (s\<lparr>shared := snd (script_load digest script (shared s))\<rparr>)"
    and P_broadcast: "P s (s\<lparr>broadcast := msgs\<rparr>)"
    and P_eval: "eval disp digest vm c script keys argv (shared s) = (er, msgs, st) \<Longrightarrow> er = EvalPanic \<longrightarrow> covered \<Longrightarrow>
      P s (s\<lparr>shared := st\<rparr>)"
    and P_evalsha: "evalsha disp vm c sha keys argv (shared s) = (er, msgs, st) \<Longrightarrow> er = EvalPanic \<longrightarrow> covered \<Longrightarrow>
      P s (s\<lparr>shared := st\<rparr>)"
    and R_subscribe: "R reg (snd (subscribe sid ts reg))" "R reg (snd (psubscribe sid ts reg))"
    and R_unsubscribe: "R reg (snd (unsubscribe sid ts reg))" "R reg (snd (punsubscribe sid ts reg))"
    and R_listener: "R reg (snd (new_subscriber reg))" "R reg (register_listener_stopper sid task reg)"
      "R reg (snd (stop_subscriber_listener sid reg))"
    and K_linsert: "K ks (snd (linsert t key place pivot v ks))"
begin

definition within :: "'a action \<Rightarrow> bool" where
  "within a \<longleftrightarrow> (\<forall>s r s'. a s = (r, s') \<longrightarrow> (r = Panicked \<longrightarrow> covered) \<longrightarrow> P s s')"

lemma withinD: "within a \<Longrightarrow> a s = (r, s') \<Longrightarrow> (r = Panicked \<Longrightarrow> covered) \<Longrightarrow> P s s'"
  by (auto simp: within_def)

lemma within_finish [within_intros]: "within (finish v)" "within (raising e)" "within (answer w)"
  by (auto simp: within_def finish_def raising_def answer_def P_refl)

lemma within_given [within_intros]: "(\<And>x. r = Inr x \<Longrightarrow> within (f x)) \<Longrightarrow> within (given r f)"
  by (cases r) (simp_all add: within_finish)

lemma within_if [within_intros]: "within a \<Longrightarrow> within b \<Longrightarrow> within (if c then a else b)"
  by simp

lemma within_option [within_intros]:
  "within a \<Longrightarrow> (\<And>x. within (f x)) \<Longrightarrow> within (case v of None \<Rightarrow> a | Some x \<Rightarrow> f x)"
  by (cases v) simp_all

lemma within_bind [within_intros]:
  assumes "within a" and f: "\<And>x. within (f x)"
  shows "within (bind a f)"
  unfolding within_def
proof (intro allI impI)
  fix s r s' assume run: "bind a f s = (r, s')" and r: "r = Panicked \<longrightarrow> covered"
  obtain r1 s1 where a: "a s = (r1, s1)" by fastforce
  show "P s s'"
  proof (cases r1)
    case (Return x)
    with run a have "f x s1 = (r, s')" by (simp add: bind_def)
    with r have "P s1 s'" using withinD [OF f] by blast
    moreover have "P s s1" using withinD [OF assms(1) a] Return by simp
    ultimately show ?thesis using P_trans by blast
  qed (use run r a withinD [OF assms(1) a] in \<open>auto simp: bind_def\<close>)
qed

lemma within_attempt [within_intros]: "(\<And>x. within (f x)) \<Longrightarrow> within (attempt r f)"
  unfolding attempt_def by (rule within_bind) (auto simp: within_def P_refl)

lemma within_stored [within_intros]: "within (call f) \<Longrightarrow> (\<And>x. within (k x)) \<Longrightarrow> within (stored err f k)"
  unfolding stored_def by (intro within_intros)

lemma within_on_data [within_intros]: "(\<And>ks. K ks (snd (f ks))) \<Longrightarrow> within (call (on_data f))"
  by (auto simp: within_def call_def on_data_def split_beta Let_def intro!: P_data)

lemma within_checked [within_intros]:
  "(\<And>ks r ks'. f ks = Some (r, ks') \<Longrightarrow> K ks ks') \<Longrightarrow> within (checked_call f)"
  by (auto simp: within_def checked_call_def P_refl intro!: P_data split: option.splits)

lemma within_registry [within_intros]: "(\<And>r. R r (snd (f r))) \<Longrightarrow> within (call (on_registry f))"
  by (auto simp: within_def call_def on_registry_def split_beta Let_def intro!: P_registry)

lemma within_query [within_intros]: "within (call (\<lambda>st. (f st, st)))"
  by (auto simp: within_def call_def P_refl)

lemma within_grow_lists:
  assumes "\<And>ks. KL ks (snd (snd (f ks)))" and "\<And>ks. \<not> fst (snd (f ks)) \<Longrightarrow> K ks (snd (snd (f ks)))"
  shows "within (call (growing notify_lists f))"
  using assms by (auto simp: within_def call_def growing_def split_beta Let_def intro!: P_lists P_data)

lemma within_grow_streams:
  assumes "\<And>ks. KS ks (snd (snd (f ks)))" and "\<And>ks. \<not> fst (snd (f ks)) \<Longrightarrow> K ks (snd (snd (f ks)))"
  shows "within (call (growing notify_streams f))"
  using assms by (auto simp: within_def call_def growing_def split_beta Let_def intro!: P_streams P_data)

lemma within_pushes [within_intros]:
  "within (call (growing notify_lists (lpush t key vs)))" "within (call (growing notify_lists (rpush t key vs)))"
  "within (call (growing notify_lists (lmove_atomic t src dst a b)))"
  "within (call (growing notify_lists (rpoplpush_atomic t src dst)))"
  by (rule within_grow_lists; simp add: lists.K_push_store lists.K_move_store base.K_failed_lpush base.K_failed_rpush
      base.K_unmoved rpoplpush_atomic_def lists.K_move)+

lemma within_xadd [within_intros]:
  "hm_wf flds \<Longrightarrow> within (call (growing notify_streams (xadd t ms key flds sid)))"
  by (rule within_grow_streams) (simp_all add: streams.K_xadd_store base.K_failed_xadd)

lemma within_script:
  assumes f: "\<And>s r msgs st. f (shared s) = (r, msgs, st) \<Longrightarrow> r = EvalPanic \<longrightarrow> covered \<Longrightarrow> P s (s\<lparr>shared := st\<rparr>)"
    and k: "\<And>x. within (k x)"
  shows "within (bind (sending f) (\<lambda>r. bind (eval_answer py err r) k))"
  unfolding within_def
proof (intro allI impI)
  fix s r s'
  assume run: "bind (sending f) (\<lambda>r. bind (eval_answer py err r) k) s = (r, s')" and r: "r = Panicked \<longrightarrow> covered"
  obtain er msgs st where e: "f (shared s) = (er, msgs, st)" by (metis prod_cases3)
  let ?s1 = "s\<lparr>shared := st, broadcast := broadcast s @ msgs\<rparr>"
  have rest: "bind (eval_answer py err er) k ?s1 = (r, s')"
    using run e by (simp add: bind_def sending_def)
  have "er = EvalPanic \<longrightarrow> covered"
    using rest r by (auto simp: bind_def eval_answer_def)
  then have "P s (s\<lparr>shared := st\<rparr>)" by (rule f [OF e])
  from P_trans [OF this P_broadcast] have "P s ?s1" by simp
  moreover have "within (bind (eval_answer py err er) k)"
    by (intro within_bind k) (auto simp: within_def eval_answer_def P_refl)
  then have "P ?s1 s'" using rest r by (auto intro: withinD)
  ultimately show "P s s'" by (rule P_trans)
qed

lemma within_eval [within_intros]:
  "(\<And>x. within (k x)) \<Longrightarrow>
     within (bind (sending (eval disp digest vm c script keys argv)) (\<lambda>r. bind (eval_answer py err r) k))"
  "(\<And>x. within (k x)) \<Longrightarrow>
     within (bind (sending (evalsha disp vm c sha keys argv)) (\<lambda>r. bind (eval_answer py err r) k))"
  by (rule within_script, erule P_eval P_evalsha; simp)+

lemma within_script_load [within_intros]: "within (call (script_load digest script))"
  using P_load by (auto simp: within_def call_def split_beta)

lemma within_publish [within_intros]:
  "within (sending (\<lambda>st. case publish channel message (pubsub st) of (n, msgs) \<Rightarrow> (n, msgs, st)))"
  using P_broadcast by (auto simp: within_def sending_def split_beta Let_def)

lemma within_shutdown [within_intros]: "within (call (\<lambda>st. ((), shutdown st)))"
  using P_shutdown by (auto simp: within_def call_def)

lemma within_claim_answer [within_intros]: "within (claim_answer justid r)"
  by (auto simp: within_def claim_answer_def P_refl)

end

section \<open>The methods and the pipeline\<close>

lemma hm_wf_fields: "extract_stream_fields py d = Inr m \<Longrightarrow> hm_wf m"
  by (auto simp: extract_stream_fields_def and_then_def split: sum.splits)

context server_frame begin

lemma within_read [within_intros]: "within (call (on_data (\<lambda>ks. (f ks, ks))))"
  by (intro within_on_data) (simp add: base.K_refl)

lemma within_linsert [within_intros]: "within (call (on_data (linsert t key place pivot v)))"
  by (intro within_on_data K_linsert)

lemma within_targets [within_intros]: "within (xread_targets py clock n ps)"
proof -
  have target: "within (xread_target py t p)" for t p
    by (auto simp: xread_target_def intro!: within_intros frame_intros)
  show ?thesis
    by (induction ps arbitrary: n) (auto intro!: within_intros target)
qed

lemma keys_within [within_intros]:
  "within (py_set py clock name val ex px nx xx)" "within (py_get py clock name)" "within (py_delete py clock names)"
  "within (py_exists py clock names)" "within (py_expire py clock name time)" "within (py_keys clock pattern)"
  "within (py_ttl py clock name)" "within (py_mget py clock keys)"
  by (auto simp: py_set_def py_get_def py_delete_def py_exists_def py_expire_def py_keys_def py_ttl_def py_mget_def
      base.K_refl hm_wf_fields
      intro!: within_intros frame_intros R_subscribe R_unsubscribe R_listener
      intro: base.K_set_cmd base.K_expire_cmd)

lemma keys_pipe_within [within_intros]:
  "within (pipe_set py clock args kw)" "within (pipe_get py clock args kw)" "within (pipe_delete py clock args kw)"
  "within (pipe_exists py clock args kw)" "within (pipe_expire py clock args kw)"
  "within (pipe_keys py clock args kw)" "within (pipe_ttl py clock args kw)" "within (pipe_mget py clock args kw)"
  "within (pipe_setex py clock args kw)"
  by (auto simp: pipe_set_def pipe_get_def pipe_delete_def pipe_exists_def pipe_expire_def pipe_keys_def
      pipe_ttl_def pipe_mget_def pipe_setex_def
      base.K_refl hm_wf_fields
      intro!: within_intros frame_intros R_subscribe R_unsubscribe R_listener
      intro: base.K_set_cmd base.K_expire_cmd)

lemma hashes_within [within_intros]:
  "within (py_hset py clock name key_opt val_opt mapping)" "within (py_hget py clock name key)"
  "within (py_hdel py clock name keys)" "within (py_hvals py clock name)" "within (py_hgetall py clock name)"
  "within (py_hexists py clock name key)" "within (py_hincrby py clock name key amount)"
  "within (py_sadd py clock name vals)" "within (py_smembers py clock name)" "within (py_sismember py clock name val)"
  "within (py_srem py clock name vals)"
  by (auto simp: py_hset_def py_hget_def py_hdel_def py_hvals_def py_hgetall_def py_hexists_def py_hincrby_def
      py_sadd_def py_smembers_def py_sismember_def py_srem_def
      base.K_refl hm_wf_fields
      intro!: within_intros frame_intros R_subscribe R_unsubscribe R_listener
      intro: base.K_set_cmd base.K_expire_cmd)

lemma hashes_pipe_within [within_intros]:
  "within (pipe_hset py clock args kw)" "within (pipe_hget py clock args kw)" "within (pipe_hdel py clock args kw)"
  "within (pipe_hvals py clock args kw)" "within (pipe_hgetall py clock args kw)"
  "within (pipe_hexists py clock args kw)" "within (pipe_hincrby py clock args kw)"
  "within (pipe_sadd py clock args kw)" "within (pipe_smembers py clock args kw)"
  "within (pipe_sismember py clock args kw)" "within (pipe_srem py clock args kw)"
  by (auto simp: pipe_hset_def pipe_hget_def pipe_hdel_def pipe_hvals_def pipe_hgetall_def pipe_hexists_def
      pipe_hincrby_def pipe_sadd_def pipe_smembers_def pipe_sismember_def pipe_srem_def
      base.K_refl hm_wf_fields
      intro!: within_intros frame_intros R_subscribe R_unsubscribe R_listener
      intro: base.K_set_cmd base.K_expire_cmd)

lemma zsets_within [within_intros]:
  "within (py_zadd py clock name mapping nx xx gt lt ch)" "within (py_zrem py clock name vals)"
  "within (py_zrange py clock name start stop withscores)" "within (py_zrangebyscore py clock name lo hi withscores)"
  "within (py_zrangestore py clock dest name lo hi)" "within (py_zremrangebyscore py clock name lo hi)"
  "within (py_zcard py clock name)" "within (py_zscore py clock name val)" "within (py_zcount py clock name lo hi)"
  by (auto simp: py_zadd_def py_zrem_def py_zrange_def py_zrangebyscore_def py_zrangestore_def
      py_zremrangebyscore_def py_zcard_def py_zscore_def py_zcount_def
      base.K_refl hm_wf_fields
      intro!: within_intros frame_intros R_subscribe R_unsubscribe R_listener
      intro: base.K_set_cmd base.K_expire_cmd)

lemma zsets_pipe_within [within_intros]:
  "within (pipe_zadd py clock args kw)" "within (pipe_zrem py clock args kw)" "within (pipe_zrange py clock args kw)"
  "within (pipe_zrangebyscore py clock args kw)" "within (pipe_zrangestore py clock args kw)"
  "within (pipe_zremrangebyscore py clock args kw)" "within (pipe_zcard py clock args kw)"
  "within (pipe_zscore py clock args kw)" "within (pipe_zcount py clock args kw)"
  by (auto simp: pipe_zadd_def pipe_zrem_def pipe_zrange_def pipe_zrangebyscore_def pipe_zrangestore_def
      pipe_zremrangebyscore_def pipe_zcard_def pipe_zscore_def pipe_zcount_def
      base.K_refl hm_wf_fields
      intro!: within_intros frame_intros R_subscribe R_unsubscribe R_listener
      intro: base.K_set_cmd base.K_expire_cmd)

lemma lists_within [within_intros]:
  "within (py_lpush py clock name vals)" "within (py_rpush py clock name vals)" "within (py_lpop py clock name cnt)"
  "within (py_rpop py clock name cnt)" "within (py_lrange py clock name start stop)" "within (py_llen py clock name)"
  "within (py_lindex py clock name index)" "within (py_linsert py clock name place refvalue val)"
  "within (py_lrem py clock name n val)" "within (py_lset py clock name index val)"
  "within (py_ltrim py clock name start stop)" "within (py_lmove py clock first_list second_list src dest)"
  "within (py_rpoplpush py clock x y)"
  by (auto simp: py_lpush_def py_rpush_def py_lpop_def py_rpop_def py_lrange_def py_llen_def py_lindex_def
      py_linsert_def py_lrem_def py_lset_def py_ltrim_def py_lmove_def py_rpoplpush_def
      base.K_refl hm_wf_fields
      intro!: within_intros frame_intros R_subscribe R_unsubscribe R_listener
      intro: base.K_set_cmd base.K_expire_cmd)

lemma lists_pipe_within [within_intros]:
  "within (pipe_lpush py clock args kw)" "within (pipe_rpush py clock args kw)" "within (pipe_lpop py clock args kw)"
  "within (pipe_rpop py clock args kw)" "within (pipe_lrange py clock args kw)" "within (pipe_llen py clock args kw)"
  "within (pipe_lindex py clock args kw)" "within (pipe_linsert py clock args kw)"
  "within (pipe_lrem py clock args kw)" "within (pipe_lset py clock args kw)" "within (pipe_ltrim py clock args kw)"
  "within (pipe_lmove py clock args kw)" "within (pipe_rpoplpush py clock args kw)"
  by (auto simp: pipe_lpush_def pipe_rpush_def pipe_lpop_def pipe_rpop_def pipe_lrange_def pipe_llen_def
      pipe_lindex_def pipe_linsert_def pipe_lrem_def pipe_lset_def pipe_ltrim_def pipe_lmove_def pipe_rpoplpush_def
      base.K_refl hm_wf_fields
      intro!: within_intros frame_intros R_subscribe R_unsubscribe R_listener
      intro: base.K_set_cmd base.K_expire_cmd)

lemma streams_within [within_intros]:
  "within (py_xadd py clock name flds id_str maxlen minid)" "within (py_xread py clock streams cnt)"
  "within (py_xlen py clock name)" "within (py_xtrim py clock name maxlen minid)" "within (py_xdel py clock name ids)"
  "within (py_xrange py clock name min_str max_str cnt)" "within (py_stream_last_id py clock key)"
  by (auto simp: py_xadd_def py_xread_def py_xlen_def py_xtrim_def py_xdel_def py_xrange_def py_stream_last_id_def
      base.K_refl hm_wf_fields
      intro!: within_intros frame_intros R_subscribe R_unsubscribe R_listener
      intro: base.K_set_cmd base.K_expire_cmd)

lemma streams_pipe_within [within_intros]:
  "within (pipe_xadd py clock args kw)" "within (pipe_xread py clock args kw)" "within (pipe_xlen py clock args kw)"
  "within (pipe_xtrim py clock args kw)" "within (pipe_xdel py clock args kw)" "within (pipe_xrange py clock args kw)"
  by (auto simp: pipe_xadd_def pipe_xread_def pipe_xlen_def pipe_xtrim_def pipe_xdel_def pipe_xrange_def
      base.K_refl hm_wf_fields
      intro!: within_intros frame_intros R_subscribe R_unsubscribe R_listener
      intro: base.K_set_cmd base.K_expire_cmd)

lemma groups_within [within_intros]:
  "within (py_xgroup_create py clock name groupname id_str mkstream)"
  "within (py_xgroup_destroy py clock name groupname)"
  "within (py_xreadgroup py clock groupname consumername streams cnt)" "within (py_xack py clock name groupname ids)"
  "within (py_xautoclaim py clock name groupname consumername min_idle start_str cnt)"
  "within (py_xclaim py clock name groupname consumername min_idle message_ids idle time retrycount force justid)"
  "within (py_xinfo_stream py clock name)" "within (py_xinfo_groups py clock name)"
  "within (py_xinfo_consumers py clock name groupname)"
  "within (py_xpending_range py clock name groupname min_str max_str n filt idle)"
  "within (py_xpending py clock name groupname)"
  by (auto simp: py_xgroup_create_def py_xgroup_destroy_def py_xreadgroup_def py_xack_def py_xautoclaim_def
      py_xclaim_def py_xinfo_stream_def py_xinfo_groups_def py_xinfo_consumers_def py_xpending_range_def
      py_xpending_def
      base.K_refl hm_wf_fields
      intro!: within_intros frame_intros R_subscribe R_unsubscribe R_listener
      intro: base.K_set_cmd base.K_expire_cmd)

lemma groups_pipe_within [within_intros]:
  "within (pipe_xgroup_create py clock args kw)" "within (pipe_xgroup_destroy py clock args kw)"
  "within (pipe_xreadgroup py clock args kw)" "within (pipe_xack py clock args kw)"
  "within (pipe_xautoclaim py clock args kw)" "within (pipe_xclaim py clock args kw)"
  "within (pipe_xinfo_groups py clock args kw)" "within (pipe_xinfo_consumers py clock args kw)"
  "within (pipe_xpending_range py clock args kw)" "within (pipe_xpending py clock args kw)"
  by (auto simp: pipe_xgroup_create_def pipe_xgroup_destroy_def pipe_xreadgroup_def pipe_xack_def
      pipe_xautoclaim_def pipe_xclaim_def pipe_xinfo_groups_def pipe_xinfo_consumers_def pipe_xpending_range_def
      pipe_xpending_def
      base.K_refl hm_wf_fields
      intro!: within_intros frame_intros R_subscribe R_unsubscribe R_listener
      intro: base.K_set_cmd base.K_expire_cmd)

lemma channels_within [within_intros]:
  "within (py_publish py channel message)" "within (py_new_subscriber)" "within (py_subscribe_channels sid channels)"
  "within (py_unsubscribe_channels sid channels)" "within (py_psubscribe_patterns sid patterns)"
  "within (py_punsubscribe_patterns sid patterns)" "within (py_pubsub_channels pattern_opt)"
  "within (py_pubsub_numsub channels)" "within (py_pubsub_numpat)" "within (py_aclose)"
  "within (py_script_exists py args)"
  by (auto simp: py_publish_def py_new_subscriber_def py_subscribe_channels_def py_unsubscribe_channels_def
      py_psubscribe_patterns_def py_punsubscribe_patterns_def py_pubsub_channels_def py_pubsub_numsub_def
      py_pubsub_numpat_def py_aclose_def py_script_exists_def
      base.K_refl hm_wf_fields
      intro!: within_intros frame_intros R_subscribe R_unsubscribe R_listener
      intro: base.K_set_cmd base.K_expire_cmd)

lemma channels_pipe_within [within_intros]:
  "within (pipe_publish py clock args kw)" "within (pipe_script_exists py clock args kw)"
  by (auto simp: pipe_publish_def pipe_script_exists_def
      base.K_refl hm_wf_fields
      intro!: within_intros frame_intros R_subscribe R_unsubscribe R_listener
      intro: base.K_set_cmd base.K_expire_cmd)

lemma within_eval_plain:
  "within (bind (sending (eval disp digest vm c script keys argv)) (eval_answer py err))"
  "within (bind (sending (evalsha disp vm c sha keys argv)) (eval_answer py err))"
  using within_eval [where k = finish, OF within_finish(1)] by (simp_all add: bind_finish)

lemmas within_scripts = within_given within_eval within_eval_plain within_bind within_script_load within_finish

lemma scripts_within [within_intros]:
  assumes "sha1_hex lua = digest"
  shows "within (py_eval py lua clock script numkeys keys_and_args)"
    "within (py_evalsha py lua clock sha numkeys keys_and_args)" "within (py_script_load lua script)"
    "within (pipe_eval py lua clock args kw)" "within (pipe_evalsha py lua clock args kw)"
    "within (pipe_script_load py lua clock args kw)"
  unfolding py_eval_def py_evalsha_def py_script_load_def pipe_eval_def pipe_evalsha_def pipe_script_load_def assms
  by (intro within_scripts)+

lemma within_dispatch:
  assumes "sha1_hex lua = digest"
  shows "within (dispatch_pipeline_command py lua clock cmd args kw)"
proof (cases "map_of (pipeline_commands py lua clock) cmd")
  case None
  then show ?thesis by (simp add: dispatch_pipeline_command_def within_finish)
next
  case (Some f)
  then have "f \<in> snd ` set (pipeline_commands py lua clock)" by (force dest: map_of_SomeD)
  then have "within (f args kw)"
    unfolding pipeline_commands_def set_simps image_insert image_empty snd_conv insert_iff empty_iff simp_thms
    by (elim disjE; simp only:; intro within_intros assms)
  with Some show ?thesis by (simp add: dispatch_pipeline_command_def)
qed

lemma within_caught: "within a \<Longrightarrow> within (caught a)"
  by (auto simp: within_def caught_def split: prod.splits answer.splits)

lemma within_pipeline:
  assumes "sha1_hex lua = digest"
  shows "within (execute_pipeline py lua clocks items)"
proof -
  have "within (run_pipeline py lua clocks n items)" for n
    by (induction items arbitrary: n)
       (auto intro!: within_given within_bind within_finish within_caught within_dispatch [OF assms])
  then show ?thesis unfolding execute_pipeline_def by (intro within_bind within_finish)
qed

end

section \<open>The step relation\<close>

text \<open>
  One step of a store that is in use: a call of a method from Python or of a pipeline, a poll
  of a blocked call, a sweep, or the start or stop of a listener task.  The flag says that the
  step panicked.
\<close>

inductive server_step :: "'o py_api \<Rightarrow> lua_host \<Rightarrow> server \<Rightarrow> bool \<Rightarrow> server \<Rightarrow> bool"
  for py :: "'o py_api" and lua :: lua_host where
  do_set: "py_set py clock name val ex px nx xx s = (r, s') \<Longrightarrow> server_step py lua s (r = Panicked) s'"
| do_get: "py_get py clock name s = (r, s') \<Longrightarrow> server_step py lua s (r = Panicked) s'"
| do_delete: "py_delete py clock names s = (r, s') \<Longrightarrow> server_step py lua s (r = Panicked) s'"
| do_exists: "py_exists py clock names s = (r, s') \<Longrightarrow> server_step py lua s (r = Panicked) s'"
| do_expire: "py_expire py clock name time s = (r, s') \<Longrightarrow> server_step py lua s (r = Panicked) s'"
| do_keys: "py_keys clock pattern s = (r, s') \<Longrightarrow> server_step py lua s (r = Panicked) s'"
| do_ttl: "py_ttl py clock name s = (r, s') \<Longrightarrow> server_step py lua s (r = Panicked) s'"
| do_mget: "py_mget py clock keys s = (r, s') \<Longrightarrow> server_step py lua s (r = Panicked) s'"
| do_hset: "py_hset py clock name key_opt val_opt mapping s = (r, s') \<Longrightarrow> server_step py lua s (r = Panicked) s'"
| do_hget: "py_hget py clock name key s = (r, s') \<Longrightarrow> server_step py lua s (r = Panicked) s'"
| do_hdel: "py_hdel py clock name keys s = (r, s') \<Longrightarrow> server_step py lua s (r = Panicked) s'"
| do_hvals: "py_hvals py clock name s = (r, s') \<Longrightarrow> server_step py lua s (r = Panicked) s'"
| do_hgetall: "py_hgetall py clock name s = (r, s') \<Longrightarrow> server_step py lua s (r = Panicked) s'"
| do_hexists: "py_hexists py clock name key s = (r, s') \<Longrightarrow> server_step py lua s (r = Panicked) s'"
| do_hincrby: "py_hincrby py clock name key amount s = (r, s') \<Longrightarrow> server_step py lua s (r = Panicked) s'"
| do_sadd: "py_sadd py clock name vals s = (r, s') \<Longrightarrow> server_step py lua s (r = Panicked) s'"
| do_smembers: "py_smembers py clock name s = (r, s') \<Longrightarrow> server_step py lua s (r = Panicked) s'"
| do_sismember: "py_sismember py clock name val s = (r, s') \<Longrightarrow> server_step py lua s (r = Panicked) s'"
| do_srem: "py_srem py clock name vals s = (r, s') \<Longrightarrow> server_step py lua s (r = Panicked) s'"
| do_zadd: "py_zadd py clock name mapping nx xx gt lt ch s = (r, s') \<Longrightarrow> server_step py lua s (r = Panicked) s'"
| do_zrem: "py_zrem py clock name vals s = (r, s') \<Longrightarrow> server_step py lua s (r = Panicked) s'"
| do_zrange: "py_zrange py clock name start stop withscores s = (r, s') \<Longrightarrow> server_step py lua s (r = Panicked) s'"
| do_zrangebyscore: "py_zrangebyscore py clock name lo hi withscores s = (r, s') \<Longrightarrow> server_step py lua s (r = Panicked) s'"
| do_zrangestore: "py_zrangestore py clock dest name lo hi s = (r, s') \<Longrightarrow> server_step py lua s (r = Panicked) s'"
| do_zremrangebyscore: "py_zremrangebyscore py clock name lo hi s = (r, s') \<Longrightarrow> server_step py lua s (r = Panicked) s'"
| do_zcard: "py_zcard py clock name s = (r, s') \<Longrightarrow> server_step py lua s (r = Panicked) s'"
| do_zscore: "py_zscore py clock name val s = (r, s') \<Longrightarrow> server_step py lua s (r = Panicked) s'"
| do_zcount: "py_zcount py clock name lo hi s = (r, s') \<Longrightarrow> server_step py lua s (r = Panicked) s'"
| do_lpush: "py_lpush py clock name vals s = (r, s') \<Longrightarrow> server_step py lua s (r = Panicked) s'"
| do_rpush: "py_rpush py clock name vals s = (r, s') \<Longrightarrow> server_step py lua s (r = Panicked) s'"
| do_lpop: "py_lpop py clock name cnt s = (r, s') \<Longrightarrow> server_step py lua s (r = Panicked) s'"
| do_rpop: "py_rpop py clock name cnt s = (r, s') \<Longrightarrow> server_step py lua s (r = Panicked) s'"
| do_lrange: "py_lrange py clock name start stop s = (r, s') \<Longrightarrow> server_step py lua s (r = Panicked) s'"
| do_llen: "py_llen py clock name s = (r, s') \<Longrightarrow> server_step py lua s (r = Panicked) s'"
| do_lindex: "py_lindex py clock name index s = (r, s') \<Longrightarrow> server_step py lua s (r = Panicked) s'"
| do_linsert: "py_linsert py clock name place refvalue val s = (r, s') \<Longrightarrow> server_step py lua s (r = Panicked) s'"
| do_lrem: "py_lrem py clock name n val s = (r, s') \<Longrightarrow> server_step py lua s (r = Panicked) s'"
| do_lset: "py_lset py clock name index val s = (r, s') \<Longrightarrow> server_step py lua s (r = Panicked) s'"
| do_ltrim: "py_ltrim py clock name start stop s = (r, s') \<Longrightarrow> server_step py lua s (r = Panicked) s'"
| do_lmove: "py_lmove py clock first_list second_list src dest s = (r, s') \<Longrightarrow> server_step py lua s (r = Panicked) s'"
| do_rpoplpush: "py_rpoplpush py clock src dst s = (r, s') \<Longrightarrow> server_step py lua s (r = Panicked) s'"
| do_xadd: "py_xadd py clock name flds id_str maxlen minid s = (r, s') \<Longrightarrow> server_step py lua s (r = Panicked) s'"
| do_xread: "py_xread py clock streams cnt s = (r, s') \<Longrightarrow> server_step py lua s (r = Panicked) s'"
| do_xlen: "py_xlen py clock name s = (r, s') \<Longrightarrow> server_step py lua s (r = Panicked) s'"
| do_xtrim: "py_xtrim py clock name maxlen minid s = (r, s') \<Longrightarrow> server_step py lua s (r = Panicked) s'"
| do_xdel: "py_xdel py clock name ids s = (r, s') \<Longrightarrow> server_step py lua s (r = Panicked) s'"
| do_xrange: "py_xrange py clock name min_str max_str cnt s = (r, s') \<Longrightarrow> server_step py lua s (r = Panicked) s'"
| do_stream_last_id: "py_stream_last_id py clock key s = (r, s') \<Longrightarrow> server_step py lua s (r = Panicked) s'"
| do_xgroup_create: "py_xgroup_create py clock name groupname id_str mkstream s = (r, s') \<Longrightarrow> server_step py lua s (r = Panicked) s'"
| do_xgroup_destroy: "py_xgroup_destroy py clock name groupname s = (r, s') \<Longrightarrow> server_step py lua s (r = Panicked) s'"
| do_xreadgroup: "py_xreadgroup py clock groupname consumername streams cnt s = (r, s') \<Longrightarrow> server_step py lua s (r = Panicked) s'"
| do_xack: "py_xack py clock name groupname ids s = (r, s') \<Longrightarrow> server_step py lua s (r = Panicked) s'"
| do_xautoclaim: "py_xautoclaim py clock name groupname consumername min_idle start_str cnt s = (r, s') \<Longrightarrow> server_step py lua s (r = Panicked) s'"
| do_xclaim: "py_xclaim py clock name groupname consumername min_idle message_ids idle time retrycount force justid s = (r, s') \<Longrightarrow> server_step py lua s (r = Panicked) s'"
| do_xinfo_stream: "py_xinfo_stream py clock name s = (r, s') \<Longrightarrow> server_step py lua s (r = Panicked) s'"
| do_xinfo_groups: "py_xinfo_groups py clock name s = (r, s') \<Longrightarrow> server_step py lua s (r = Panicked) s'"
| do_xinfo_consumers: "py_xinfo_consumers py clock name groupname s = (r, s') \<Longrightarrow> server_step py lua s (r = Panicked) s'"
| do_xpending_range: "py_xpending_range py clock name groupname min_str max_str cnt consumername idle s = (r, s') \<Longrightarrow> server_step py lua s (r = Panicked) s'"
| do_xpending: "py_xpending py clock name groupname s = (r, s') \<Longrightarrow> server_step py lua s (r = Panicked) s'"
| do_eval: "py_eval py lua clock script numkeys keys_and_args s = (r, s') \<Longrightarrow> server_step py lua s (r = Panicked) s'"
| do_evalsha: "py_evalsha py lua clock sha numkeys keys_and_args s = (r, s') \<Longrightarrow> server_step py lua s (r = Panicked) s'"
| do_script_load: "py_script_load lua script s = (r, s') \<Longrightarrow> server_step py lua s (r = Panicked) s'"
| do_script_exists: "py_script_exists py args s = (r, s') \<Longrightarrow> server_step py lua s (r = Panicked) s'"
| do_publish: "py_publish py channel message s = (r, s') \<Longrightarrow> server_step py lua s (r = Panicked) s'"
| do_new_subscriber: "py_new_subscriber s = (r, s') \<Longrightarrow> server_step py lua s (r = Panicked) s'"
| do_subscribe_channels: "py_subscribe_channels sid channels s = (r, s') \<Longrightarrow> server_step py lua s (r = Panicked) s'"
| do_unsubscribe_channels: "py_unsubscribe_channels sid channels s = (r, s') \<Longrightarrow> server_step py lua s (r = Panicked) s'"
| do_psubscribe_patterns: "py_psubscribe_patterns sid patterns s = (r, s') \<Longrightarrow> server_step py lua s (r = Panicked) s'"
| do_punsubscribe_patterns: "py_punsubscribe_patterns sid patterns s = (r, s') \<Longrightarrow> server_step py lua s (r = Panicked) s'"
| do_pubsub_channels: "py_pubsub_channels pattern s = (r, s') \<Longrightarrow> server_step py lua s (r = Panicked) s'"
| do_pubsub_numsub: "py_pubsub_numsub channels s = (r, s') \<Longrightarrow> server_step py lua s (r = Panicked) s'"
| do_pubsub_numpat: "py_pubsub_numpat s = (r, s') \<Longrightarrow> server_step py lua s (r = Panicked) s'"
| do_aclose: "py_aclose s = (r, s') \<Longrightarrow> server_step py lua s (r = Panicked) s'"
| do_pipeline: "execute_pipeline py lua clocks items s = (r, s') \<Longrightarrow> server_step py lua s (r = Panicked) s'"
| do_blpop_poll: "call (on_data (blpop_poll t keys)) s = (Return r, s') \<Longrightarrow> server_step py lua s False s'"
| do_brpop_poll: "call (on_data (brpop_poll t keys)) s = (Return r, s') \<Longrightarrow> server_step py lua s False s'"
| do_blmove_poll: "call (growing notify_lists (lmove_atomic t src dst a b)) s = (Return r, s') \<Longrightarrow> server_step py lua s False s'"
| do_xread_poll: "call (on_data (xread t keys ids cnt)) s = (Return r, s') \<Longrightarrow> server_step py lua s False s'"
| do_xreadgroup_poll: "call (on_data (xreadgroup t grp cname keys id_strs cnt)) s = (Return r, s') \<Longrightarrow> server_step py lua s False s'"
| do_xread_targets: "xread_targets py clock n streams s = (r, s') \<Longrightarrow> server_step py lua s (r = Panicked) s'"
| do_sweep: "call (on_data (sweep_expired t)) s = (Return r, s') \<Longrightarrow> server_step py lua s False s'"
| do_stop_listener: "call (on_registry (stop_subscriber_listener sid)) s = (Return r, s') \<Longrightarrow> server_step py lua s False s'"
| do_register_listener:
    "server_step py lua s False (s\<lparr>shared := (shared s)\<lparr>pubsub := register_listener_stopper sid task (pubsub (shared s))\<rparr>\<rparr>)"

context server_frame begin

lemma within_polls [within_intros]:
  "within (call (on_data (blpop_poll t keys)))" "within (call (on_data (brpop_poll t keys)))"
  "within (call (on_data (xread t keys ids cnt)))" "within (call (on_data (xreadgroup t grp cname keys id_strs cnt)))"
  "within (call (on_data (sweep_expired t)))" "within (call (on_registry (stop_subscriber_listener sid)))"
  by (intro within_intros frame_intros R_listener)+

lemma step_within:
  assumes "server_step py lua s b s'" and "sha1_hex lua = digest" and "b \<Longrightarrow> covered"
  shows "P s s'"
  using assms(1,3)
proof cases
  case do_register_listener
  then show ?thesis by (simp add: P_registry R_listener)
qed (erule withinD [rotated], simp, intro within_intros within_pipeline assms(2))+

end

section \<open>The invariant of the store\<close>

text \<open>
  Every value is well-formed (no duplicate fields, members or consumers, both indexes of a
  sorted set agree, streams in the order of their IDs), both directions of the subscriptions
  agree, and every cached script is stored under its digest.
\<close>

definition server_ok :: "(string \<Rightarrow> string) \<Rightarrow> server \<Rightarrow> bool" where
  "server_ok digest s \<longleftrightarrow>
     ks_wf (data (shared s)) \<and> registry_ok (pubsub (shared s)) \<and>
     hm_wf (scripts (shared s)) \<and> scripts_ok digest (scripts (shared s))"

definition keeps_ok :: "(string \<Rightarrow> string) \<Rightarrow> server \<Rightarrow> server \<Rightarrow> bool" where
  "keeps_ok digest s s' \<longleftrightarrow> (server_ok digest s \<longrightarrow> server_ok digest s')"

definition keeps_registry :: "registry \<Rightarrow> registry \<Rightarrow> bool" where
  "keeps_registry r r' \<longleftrightarrow> (registry_ok r \<longrightarrow> registry_ok r')"

lemma keeps_registry_exec: "keeps_registry r (pubsub_exec oper r)"
  by (simp add: keeps_registry_def registry_ok_exec)

lemma scripts_ok_insert: "scripts_ok digest m \<Longrightarrow> scripts_ok digest (hm_insert (digest script) script m)"
  by (auto simp: scripts_ok_def)

lemma run_script_ok:
  assumes "run_script disp vm c script keys argv st = (r, msgs, st')" and "ks_wf (data st)"
  shows "ks_wf (data st') \<and> pubsub st' = pubsub st \<and> scripts st' = scripts st"
  by (rule run_script_state [OF assms(1)]) (use assms(2) in \<open>auto simp: call_keeps_def keeps_wf_def\<close>)

interpretation invariant: server_frame keeps_wf wf_after keeps_wf wf_after keeps_wf wf_after keeps_registry
  "keeps_ok digest" True digest for digest
proof unfold_locales
  fix s :: server and vm disp c script keys argv er msgs st
  assume "eval disp digest vm c script keys argv (shared s) = (er, msgs, st)"
  then show "keeps_ok digest s (s\<lparr>shared := st\<rparr>)"
    using run_script_ok [of disp vm c script keys argv _ er msgs st]
    by (fastforce simp: keeps_ok_def server_ok_def eval_def scripts_ok_insert)
next
  fix s :: server and vm disp c sha keys argv er msgs st
  assume "evalsha disp vm c sha keys argv (shared s) = (er, msgs, st)"
  then show "keeps_ok digest s (s\<lparr>shared := st\<rparr>)"
    using run_script_ok [of disp vm c _ keys argv _ er msgs st]
    by (fastforce simp: keeps_ok_def server_ok_def evalsha_def split: option.splits)
next
  fix s :: server
  show "keeps_ok digest s (s\<lparr>shared := shutdown (shared s)\<rparr>)"
    using keeps_registry_exec [of "pubsub (shared s)" StopAll]
    by (simp add: keeps_ok_def server_ok_def keeps_registry_def)
       (simp add: shutdown_def Let_def notify_lists_def notify_streams_def)
next
  fix reg sid ts
  show "keeps_registry reg (snd (subscribe sid ts reg))" "keeps_registry reg (snd (psubscribe sid ts reg))"
    "keeps_registry reg (snd (unsubscribe sid ts reg))" "keeps_registry reg (snd (punsubscribe sid ts reg))"
    using keeps_registry_exec [of reg "Subscribe sid ts"] keeps_registry_exec [of reg "PSubscribe sid ts"]
      keeps_registry_exec [of reg "Unsubscribe sid ts"] keeps_registry_exec [of reg "PUnsubscribe sid ts"]
    by simp_all
next
  fix reg sid task
  show "keeps_registry reg (snd (new_subscriber reg))" "keeps_registry reg (register_listener_stopper sid task reg)"
    "keeps_registry reg (snd (stop_subscriber_listener sid reg))"
    using keeps_registry_exec [of reg NewSubscriber] keeps_registry_exec [of reg "RegisterListener sid task"]
      keeps_registry_exec [of reg "StopListener sid"]
    by simp_all
qed (auto simp: keeps_ok_def server_ok_def keeps_wf_def keeps_registry_def notify_lists_def notify_streams_def
      scripts_ok_insert script_load_def wf_lists.K_move_store [unfolded keeps_wf_def])

text \<open>
  The servers that come about: a new one, what steps make of it, and what a new process has
  after it has loaded the snapshot that \<open>save\<close> took of one; the clock of the machine is far
  from its end.
\<close>

definition restarted :: "keyspace \<Rightarrow> scripts \<Rightarrow> server" where
  "restarted ks sc = empty_server\<lparr>shared := new_store\<lparr>data := ks, scripts := sc\<rparr>\<rparr>"

inductive server_reachable :: "'o py_api \<Rightarrow> lua_host \<Rightarrow> server \<Rightarrow> bool"
  for py :: "'o py_api" and lua :: lua_host where
  start: "server_reachable py lua empty_server"
| step: "server_reachable py lua s \<Longrightarrow> server_step py lua s b s' \<Longrightarrow> server_reachable py lua s'"
| restart: "server_reachable py lua s \<Longrightarrow> later < 2 ^ 62 * 10 ^ 9 \<Longrightarrow>
    into_runtime later (from_store now check (shared s)) = Some (ks, sc) \<Longrightarrow> server_reachable py lua (restarted ks sc)"

lemma reachable_server_ok: "server_reachable py lua s \<Longrightarrow> server_ok (sha1_hex lua) s"
proof (induction rule: server_reachable.induct)
  have new: "registry_ok new_registry" by (simp add: registry_ok_def new_registry_def)
  {
    case start
    show ?case using new by (simp add: server_ok_def empty_server_def new_store_def ks_wf_def)
  next
    case (step s b s')
    with invariant.step_within [OF step.hyps(2)] show ?case by (simp add: keeps_ok_def)
  next
    case (restart s later now check ks sc)
    then have "ks_wf (data (shared s))" "hm_wf (scripts (shared s))" "scripts_ok (sha1_hex lua) (scripts (shared s))"
      by (simp_all add: server_ok_def)
    moreover from into_runtime_total [OF this(1,2) restart.hyps(2), of now check] restart.hyps(3)
    have "ks_wf ks" "sc = scripts (shared s)" by auto
    ultimately show ?case using new by (simp add: server_ok_def restarted_def empty_server_def new_store_def)
  }
qed

text \<open>
  C3. In every store that Python can bring about, by any sequence of methods, pipelines,
  scripts, blocked calls and sweeps, whatever their arguments and however they end, also over
  restarts from a saved snapshot, the invariant of the store holds.
\<close>

theorem reachable_ok:
  "server_reachable py lua s \<Longrightarrow>
     ks_wf (data (shared s)) \<and> registry_ok (pubsub (shared s)) \<and> scripts_ok (sha1_hex lua) (scripts (shared s))"
  using reachable_server_ok [of py lua s] by (simp add: server_ok_def)

section \<open>The promise to blocked readers\<close>

text \<open>
  The wake-up counts and the shutdown flag never go back; as long as a count stands, no list
  has become occupied, no stream has got new entries, and the store has not been shut down.
\<close>

definition promises :: "server \<Rightarrow> server \<Rightarrow> bool" where
  "promises s s' \<longleftrightarrow>
     list_notify (shared s) \<le> list_notify (shared s') \<and> stream_notify (shared s) \<le> stream_notify (shared s') \<and>
     (list_notify (shared s') = list_notify (shared s) \<longrightarrow>
        not_larger occupied (data (shared s)) (data (shared s')) \<and> is_shutdown (shared s') = is_shutdown (shared s)) \<and>
     (stream_notify (shared s') = stream_notify (shared s) \<longrightarrow>
        (\<forall>Q. not_larger (entry_count Q) (data (shared s)) (data (shared s'))) \<and>
        is_shutdown (shared s') = is_shutdown (shared s))"

definition quiet_step :: "keyspace \<Rightarrow> keyspace \<Rightarrow> bool" where
  "quiet_step ks ks' \<longleftrightarrow> not_larger occupied ks ks' \<and> (\<forall>Q. not_larger (entry_count Q) ks ks')"

definition quiet_value :: "value_data option \<Rightarrow> value_data \<Rightarrow> bool" where
  "quiet_value old d \<longleftrightarrow> smaller occupied old d \<and> (\<forall>Q. smaller (entry_count Q) old d)"

definition quiet_streams :: "keyspace \<Rightarrow> keyspace \<Rightarrow> bool" where
  "quiet_streams ks ks' \<longleftrightarrow> (\<forall>Q. not_larger (entry_count Q) ks ks')"

definition quiet_streams_value :: "value_data option \<Rightarrow> value_data \<Rightarrow> bool" where
  "quiet_streams_value old d \<longleftrightarrow> (\<forall>Q. smaller (entry_count Q) old d)"

lemmas quiet_defs = quiet_step_def quiet_value_def quiet_streams_def quiet_streams_value_def

lemma occupied_less: "length ys \<le> length xs \<Longrightarrow> occupied (ListV ys) \<le> occupied (ListV xs)"
  by auto

lemma promises_trans: "promises s1 s2 \<Longrightarrow> promises s2 s3 \<Longrightarrow> promises s1 s3"
  unfolding promises_def by (auto intro: not_larger_trans)

lemma script_notifies:
  assumes "eval disp digest vm c script keys argv st = (er, msgs, st') \<or> evalsha disp vm c sha keys argv st = (er, msgs, st')"
  shows "list_notify st \<le> list_notify st'" "stream_notify st \<le> stream_notify st'" "is_shutdown st' = is_shutdown st"
proof -
  have run: "list_notify st1 \<le> list_notify st2 \<and> stream_notify st1 \<le> stream_notify st2 \<and> is_shutdown st2 = is_shutdown st1"
    if "run_script disp vm c s keys argv st1 = (er, msgs, st2)" for s st1 st2
    using that by (auto simp: run_script_def Let_def notify_lists_def notify_streams_def is_shutdown_def
        split: prod.splits lua_result.splits if_splits)
  have "list_notify st \<le> list_notify st' \<and> stream_notify st \<le> stream_notify st' \<and> is_shutdown st' = is_shutdown st"
  proof (cases "eval disp digest vm c script keys argv st = (er, msgs, st')")
    case True
    then show ?thesis using run by (fastforce simp: eval_def is_shutdown_def)
  next
    case False
    with assms have "evalsha disp vm c sha keys argv st = (er, msgs, st')" by blast
    then show ?thesis using run by (auto simp: evalsha_def split: option.splits)
  qed
  then show "list_notify st \<le> list_notify st'" "stream_notify st \<le> stream_notify st'" "is_shutdown st' = is_shutdown st"
    by simp_all
qed

lemma script_promises:
  assumes "eval disp digest vm c script keys argv (shared s) = (er, msgs, st) \<or>
      evalsha disp vm c sha keys argv (shared s) = (er, msgs, st)" and "er \<noteq> EvalPanic"
  shows "promises s (s\<lparr>shared := st\<rparr>)"
proof -
  note wake = script_wakes_readers [OF assms]
  note n = script_notifies [OF assms(1)]
  show ?thesis
    using wake n occupied_mono [of "data (shared s)" "data st"]
    by (auto simp: promises_def not_larger_def not_less [symmetric])
qed


interpretation wakeups: server_frame quiet_step quiet_value quiet_streams quiet_streams_value
  "not_larger occupied" "smaller occupied" "\<lambda>_ _. True" promises False digest for digest
proof unfold_locales
  fix ks :: keyspace and t key place pivot v
  show "quiet_step ks (snd (linsert t key place pivot v ks))"
    by (simp add: quiet_step_def occupancy_linsert streams.K_move_store)
next
  fix s1 s2 s3 :: server
  show "promises s1 s2 \<Longrightarrow> promises s2 s3 \<Longrightarrow> promises s1 s3" by (rule promises_trans)
next
  fix s :: server and vm disp c script keys argv er msgs st
  assume "eval disp digest vm c script keys argv (shared s) = (er, msgs, st)" "er = EvalPanic \<longrightarrow> False"
  then show "promises s (s\<lparr>shared := st\<rparr>)" by (intro script_promises) auto
next
  fix s :: server and vm disp c sha keys argv er msgs st
  assume "evalsha disp vm c sha keys argv (shared s) = (er, msgs, st)" "er = EvalPanic \<longrightarrow> False"
  then show "promises s (s\<lparr>shared := st\<rparr>)" by (intro script_promises) auto
qed (auto simp: quiet_defs promises_def not_larger_refl not_larger_frame notify_lists_def notify_streams_def
      shutdown_def Let_def script_load_def is_shutdown_def smaller_def subseq_count occupied_less
      intro: not_larger_trans not_larger_insert not_larger_remove)


lemma step_promises: "server_step py lua s False s' \<Longrightarrow> promises s s'"
  using wakeups.step_within [where digest = "sha1_hex lua"] by blast


section \<open>Witnesses\<close>

lemma pushed_step: "server_step sample_api sample_lua empty_server False pushed_server"
proof -
  have push: "lpush t ''q'' [''x''] [] = (Inr 1, True, [(''q'', \<lparr>vdata = ListV [''x''], expires_at = None\<rparr>)])" for t
    by (simp add: lpush_def create_key_def expire_key_def hm_get_def hm_insert_def modify_kind_def new_list_def notified_def)
  have "py_lpush sample_api sample_clock (PyStr ''q'') [PyBytes ''x''] empty_server = (Return (resolved (PyInt 1)), pushed_server)"
    by (simp add: py_lpush_def stored_def call_def growing_def bind_def given_def map_err_def finish_def answer_def push
        empty_server_def pushed_server_def new_store_def notify_lists_def)
  from do_lpush [OF this, of sample_lua] show ?thesis by simp
qed

theorem reachable_ok_witness: "ks_wf (data (shared pushed_server)) \<and> data (shared pushed_server) \<noteq> []"
  using reachable_ok [OF server_reachable.step [OF server_reachable.start pushed_step]]
  by (simp add: pushed_server_def)


end
