(* ===== verification/Lua_Expiry.thy ===== *)
theory Lua_Expiry
  imports Lazy_Expiry Lua_Dispatch
begin

text \<open>
  Expired entries are invisible to scripts as well: every command of the script dispatcher is
  local to the live view, and so are whole runs of scripts, EVAL and EVALSHA, as long as the
  clock does not go back.
\<close>

section \<open>Rules for the arms of the dispatcher\<close>

text \<open>A case distinction on the arguments, and what is made of the answer, do not see the keyspace.\<close>

lemma view_local_if [view_intros]:
  "view_local now f \<Longrightarrow> view_local now g \<Longrightarrow> view_local now (\<lambda>ks. if c then f ks else g ks)"
  by (cases c) simp_all

lemma view_local_list [view_intros]:
  "view_local now f \<Longrightarrow> (\<And>x xs. view_local now (g x xs)) \<Longrightarrow>
     view_local now (\<lambda>ks. case args of [] \<Rightarrow> f ks | x # xs \<Rightarrow> g x xs ks)"
  by (cases args) simp_all

lemma view_local_option [view_intros]:
  "view_local now f \<Longrightarrow> (\<And>x. view_local now (g x)) \<Longrightarrow>
     view_local now (\<lambda>ks. case v of None \<Rightarrow> f ks | Some x \<Rightarrow> g x ks)"
  by (cases v) simp_all

lemma view_local_sum [view_intros]:
  "(\<And>x. view_local now (f x)) \<Longrightarrow> (\<And>y. view_local now (g y)) \<Longrightarrow>
     view_local now (\<lambda>ks. case v of Inl x \<Rightarrow> f x ks | Inr y \<Rightarrow> g y ks)"
  by (cases v) simp_all

lemma view_local_pair [view_intros]:
  "(\<And>x y. view_local now (f x y)) \<Longrightarrow> view_local now (\<lambda>ks. case p of (x, y) \<Rightarrow> f x y ks)"
  by (cases p) simp

lemma view_local_let [view_intros]: "view_local now (f c) \<Longrightarrow> view_local now (\<lambda>ks. let x = c in f x ks)"
  by simp

lemma view_local_answer:
  assumes "view_local now g" and "\<And>p. fst (h p) = r (fst p)" and "\<And>p. snd (h p) = snd p"
  shows "view_local now (\<lambda>ks. h (g ks))"
  unfolding view_local_def
proof (intro allI impI)
  fix ks1 ks2 assume "live now ks1 = live now ks2"
  from view_localD [OF assms(1) this]
  show "fst (h (g ks1)) = fst (h (g ks2)) \<and> live now (snd (h (g ks1))) = live now (snd (h (g ks2)))"
    by (simp add: assms(2,3))
qed

lemma view_local_reply [view_intros]: "view_local now g \<Longrightarrow> view_local now (\<lambda>ks. reply f (g ks))"
  by (erule view_local_answer [where r = "\<lambda>x. Reply (case x of Inl e \<Rightarrow> RError (store_error_text e) | Inr v \<Rightarrow> f v)"])
     (auto simp: reply_def split: prod.split sum.split)

lemma view_local_reply_or_fail [view_intros]: "view_local now g \<Longrightarrow> view_local now (\<lambda>ks. reply_or_fail f (g ks))"
  by (erule view_local_answer [where r = "\<lambda>x. case x of Inl e \<Rightarrow> Reply (RError (store_error_text e))
        | Inr (Inl msg) \<Rightarrow> Fail msg | Inr (Inr v) \<Rightarrow> Reply (f v)"])
     (auto simp: reply_or_fail_def split: prod.split sum.split)

lemma view_local_outcome [view_intros]: "view_local now g \<Longrightarrow> view_local now (\<lambda>ks. outcome (g ks))"
  by (erule view_local_answer [where r = "\<lambda>x. case x of Inl e \<Rightarrow> Reply (RError (store_error_text e)) | Inr v \<Rightarrow> v"])
     (auto simp: outcome_def split: prod.split sum.split)

lemma view_local_result [view_intros]: "view_local now g \<Longrightarrow> view_local now (\<lambda>ks. let (n, ks') = g ks in (f n, ks'))"
  by (erule view_local_answer [where r = f]) (auto split: prod.split)

lemma view_local_then_drop [view_intros]: "view_local now g \<Longrightarrow> view_local now (\<lambda>ks. then_drop key (g ks))"
  using view_local_drop [of now g key] by (simp add: then_drop_def split_beta)

lemma view_local_with_int [view_intros]:
  "(\<And>n. view_local now (f n)) \<Longrightarrow> view_local now (\<lambda>ks. with_int a ks (\<lambda>n. f n ks))"
  unfolding with_int_def by (intro view_intros)

section \<open>Keys, hashes, sets and sorted sets\<close>

lemma view_local_lua_set: "view_local now (lua_set now args)"
proof -
  have "view_local now (\<lambda>ks. if nx \<and> live now ks key \<noteq> None then (Reply RNil, ks)
      else if xx \<and> \<not> (live now ks key \<noteq> None) then (Reply RNil, ks)
      else (case e of None \<Rightarrow> (Panic, expire_key now key ks)
            | Some e \<Rightarrow> (Reply ok_status, hm_insert key e (expire_key now key ks))))" for nx xx key e
    by (cases e) (auto simp: view_local_def live_insert)
  then show ?thesis
    unfolding lua_set_def [abs_def] Let_def key_lookup by (intro view_intros)
qed

lemma view_local_lua_del: "view_local now (lua_del now args)"
  using view_local_delete_step unfolding lua_del_def [abs_def] delete_step_def [abs_def]
  by (intro view_intros view_local_count)

lemma view_local_lua_exists: "view_local now (lua_exists now args)"
proof -
  have "view_local now (\<lambda>ks. case hm_get ks key of
      Some e \<Rightarrow> if is_expired now e then (False, hm_remove key ks) else (True, ks) | None \<Rightarrow> (False, ks))" for key
    by (rule view_localI [where r = "\<lambda>m. m key \<noteq> None" and v = "\<lambda>m. m"])
       (auto simp: live_def live_remove_expired split: option.split)
  then show ?thesis
    unfolding lua_exists_def [abs_def] by (intro view_intros view_local_count)
qed

lemma view_local_lua_expire: "view_local now (lua_expire now args)" "view_local now (lua_pexpire now args)"
proof -
  have "view_local now (\<lambda>ks. case hm_get ks key of None \<Rightarrow> (Reply (RInt 0), ks)
      | Some e \<Rightarrow> if is_expired now e then (Reply (RInt 0), hm_remove key ks)
          else if n \<le> 0 then (Reply (RInt 1), hm_remove key ks)
          else (case instant_checked_add now t of None \<Rightarrow> (Panic, ks)
                | Some at \<Rightarrow> (Reply (RInt 1), hm_insert key (e\<lparr>expires_at := Some at\<rparr>) ks)))" for key t and n :: int
  proof (rule view_localI [where r = "\<lambda>m. case m key of None \<Rightarrow> Reply (RInt 0)
           | Some e \<Rightarrow> if n \<le> 0 then Reply (RInt 1)
               else (case instant_checked_add now t of None \<Rightarrow> Panic | Some at \<Rightarrow> Reply (RInt 1))"
         and v = "\<lambda>m. case m key of None \<Rightarrow> m
           | Some e \<Rightarrow> if n \<le> 0 then m(key := None)
               else (case instant_checked_add now t of None \<Rightarrow> m
                     | Some at \<Rightarrow> m(key := if is_expired now (e\<lparr>expires_at := Some at\<rparr>) then None else Some (e\<lparr>expires_at := Some at\<rparr>)))"])
  qed (auto simp: live_def live_remove_expired live_remove live_insert fun_eq_iff split: option.splits)
  then have "view_local now (lua_expire_in cmd unit_of now args)" for cmd unit_of
    unfolding lua_expire_in_def [abs_def] by (intro view_intros)
  then show "view_local now (lua_expire now args)" "view_local now (lua_pexpire now args)"
    by (simp_all add: lua_expire_def lua_pexpire_def)
qed

lemma view_local_lua_strings:
  "view_local now (lua_get now args)" "view_local now (lua_hset now args)" "view_local now (lua_hget now args)"
  "view_local now (lua_hdel now args)" "view_local now (lua_hvals now args)" "view_local now (lua_hgetall now args)"
  "view_local now (lua_hexists now args)" "view_local now (lua_hincrby now args)"
  "view_local now (lua_sadd now args)" "view_local now (lua_smembers now args)"
  "view_local now (lua_sismember now args)" "view_local now (lua_srem now args)"
  "view_local now (lua_zadd now args)" "view_local now (lua_zrem now args)" "view_local now (lua_zrange disp now args)"
  "view_local now (lua_zrangebyscore disp now args)" "view_local now (lua_zremrangebyscore now args)"
  "view_local now (lua_zcard now args)" "view_local now (lua_zscore disp now args)"
  unfolding lua_get_def [abs_def] lua_hset_def [abs_def] lua_hget_def [abs_def] lua_hdel_def [abs_def]
    lua_hvals_def [abs_def] lua_hgetall_def [abs_def] lua_hexists_def [abs_def] lua_hincrby_def [abs_def]
    lua_sadd_def [abs_def] lua_smembers_def [abs_def] lua_sismember_def [abs_def] lua_srem_def [abs_def]
    lua_zadd_def [abs_def] lua_zrem_def [abs_def] lua_zrange_def [abs_def] lua_zrangebyscore_def [abs_def]
    lua_zremrangebyscore_def [abs_def] lua_zcard_def [abs_def] lua_zscore_def [abs_def]
  by (intro view_intros; simp add: new_hash_def new_set_def new_sorted_set_def)+

section \<open>Lists\<close>

lemma view_local_move_reply [view_intros]:
  "view_local now (\<lambda>ks. move_reply (lmove_atomic now src dst a b ks))"
proof -
  have "view_local now (\<lambda>ks. case with_wake (lmove_atomic now src dst a b) ks of (r, ks') \<Rightarrow> reply bulk_or_nil (fst r, ks'))"
    by (rule view_local_answer [OF view_local_lmove(1), where r = "\<lambda>x. Reply (case fst x of Inl e \<Rightarrow> RError (store_error_text e) | Inr v \<Rightarrow> bulk_or_nil v)"])
       (auto simp: reply_def split: prod.split sum.split)
  then show ?thesis by (simp add: with_wake_def move_reply_def split_beta Let_def)
qed

lemma view_local_lua_lists:
  "view_local now (lua_lpush now args)" "view_local now (lua_rpush now args)" "view_local now (lua_lpop now args)"
  "view_local now (lua_rpop now args)" "view_local now (lua_lrange now args)" "view_local now (lua_llen now args)"
  "view_local now (lua_lindex now args)" "view_local now (lua_linsert now args)" "view_local now (lua_lrem now args)"
  "view_local now (lua_lset now args)" "view_local now (lua_ltrim now args)" "view_local now (lua_lmove now args)"
  "view_local now (lua_rpoplpush now args)"
  unfolding lua_lpush_def lua_rpush_def lua_lpop_def lua_rpop_def lua_push_def [abs_def] lua_pop_def [abs_def]
    lua_lrange_def [abs_def] lua_llen_def [abs_def] lua_lindex_def [abs_def] lua_linsert_def [abs_def]
    lua_lrem_def [abs_def] lua_lset_def [abs_def] lua_ltrim_def [abs_def] lua_lmove_def [abs_def]
    lua_rpoplpush_def [abs_def]
  by (intro view_intros; simp add: new_list_def)+

section \<open>Streams\<close>

lemma view_local_xread_loop [view_intros]: "view_local now (xread_loop now cnt ps)"
  unfolding view_local_def
proof (intro allI impI)
  fix ks1 ks2 assume l: "live now ks1 = live now ks2"
  show "fst (xread_loop now cnt ps ks1) = fst (xread_loop now cnt ps ks2) \<and>
      live now (snd (xread_loop now cnt ps ks1)) = live now (snd (xread_loop now cnt ps ks2))"
    unfolding xread_loop_result xread_loop_view read_stream_live [OF l] wrong_kind_live [OF l] l by simp
qed

lemma view_local_update_group [view_intros]: "view_local now (update_group now key grp dflt f)"
  unfolding update_group_def by (intro view_intros)

lemma view_local_lua_streams:
  "view_local now (lua_xadd ms now args)" "view_local now (lua_xread now args)" "view_local now (lua_xdel now args)"
  "view_local now (lua_xack now args)" "view_local now (lua_xlen now args)" "view_local now (lua_xrange now args)"
  "view_local now (lua_xrevrange now args)" "view_local now (lua_xclaim now args)"
  unfolding lua_xadd_def [abs_def] lua_xread_def [abs_def] lua_xdel_def [abs_def] lua_xack_def [abs_def]
    lua_xlen_def [abs_def] lua_xrange_def lua_xrevrange_def lua_xrange_dir_def [abs_def] lua_xclaim_def [abs_def]
  by (intro view_intros; simp add: new_stream_def)+

section \<open>Every command of the dispatcher\<close>

lemma view_local_command:
  assumes "map_of (lua_commands disp ms) cmd = Some f"
  shows "view_local now (f now args)"
proof -
  have "\<forall>(c, f) \<in> set (lua_commands disp ms). view_local now (f now args)"
    by (simp only: lua_commands_def list.set ball_simps prod.case view_local_lua_set view_local_lua_del
        view_local_lua_exists view_local_lua_expire view_local_lua_strings view_local_lua_lists view_local_lua_streams
        simp_thms)
  moreover from assms have "(cmd, f) \<in> set (lua_commands disp ms)" by (rule map_of_SomeD)
  ultimately show ?thesis by blast
qed

section \<open>Runs of scripts\<close>

text \<open>A clock that does not go back, and an instant at which everything it dates is over.\<close>

definition clock_until :: "(nat \<Rightarrow> instant \<times> u64) \<Rightarrow> instant \<Rightarrow> bool" where
  "clock_until clock t \<longleftrightarrow> (\<forall>m n. m \<le> n \<longrightarrow> fst (clock m) \<le> fst (clock n)) \<and> (\<forall>n. fst (clock n) \<le> t)"

text \<open>Two states of a script, or two stores, that differ in expired entries only.\<close>

definition same_state :: "instant \<Rightarrow> lua_state \<Rightarrow> lua_state \<Rightarrow> bool" where
  "same_state t st1 st2 \<longleftrightarrow> live t (lua_data st1) = live t (lua_data st2) \<and> lua_sent st1 = lua_sent st2 \<and>
     lua_xadds st1 = lua_xadds st2 \<and> lua_list_growth st1 = lua_list_growth st2"

definition same_store :: "instant \<Rightarrow> store \<Rightarrow> store \<Rightarrow> bool" where
  "same_store t st1 st2 \<longleftrightarrow> live t (data st1) = live t (data st2) \<and> scripts st1 = scripts st2 \<and>
     pubsub st1 = pubsub st2 \<and> stream_notify st1 = stream_notify st2 \<and> list_notify st1 = list_notify st2 \<and>
     shutdown_flag st1 = shutdown_flag st2"

lemma same_state_later: "same_state t st1 st2 \<Longrightarrow> t \<le> u \<Longrightarrow> same_state u st1 st2"
  unfolding same_state_def using live_later [of t "lua_data st1" "lua_data st2" u] by blast

lemma same_store_later: "same_store t st1 st2 \<Longrightarrow> t \<le> u \<Longrightarrow> same_store u st1 st2"
  unfolding same_store_def using live_later [of t "data st1" "data st2" u] by blast

lemma view_local_dispatch:
  "view_local now (\<lambda>ks. case dispatch_command disp ms has_sender now cmd args ks of
     (r, x, l, ks', msgs) \<Rightarrow> ((r, x, l, msgs), ks'))"
proof (cases "map_of (lua_commands disp ms) cmd")
  case (Some f)
  have "view_local now (\<lambda>ks. case f now args ks of (r, ks') \<Rightarrow>
      (case r of Reply v \<Rightarrow> (r, is_xadd_success cmd v, is_list_mutation cmd v, []) | _ \<Rightarrow> (r, False, False, []), ks'))"
    by (rule view_local_answer [OF view_local_command [OF Some], where r = "\<lambda>r. case r of
          Reply v \<Rightarrow> (r, is_xadd_success cmd v, is_list_mutation cmd v, []) | _ \<Rightarrow> (r, False, False, [])"])
       (auto split: prod.split lua_outcome.split)
  moreover have "(case dispatch_command disp ms has_sender now cmd args ks of (r, x, l, ks', msgs) \<Rightarrow> ((r, x, l, msgs), ks')) =
      (case f now args ks of (r, ks') \<Rightarrow>
        (case r of Reply v \<Rightarrow> (r, is_xadd_success cmd v, is_list_mutation cmd v, []) | _ \<Rightarrow> (r, False, False, []), ks'))" for ks
    by (auto simp: dispatch_command_def dispatch_command_inner_def Some split: prod.split lua_outcome.split)
  ultimately show ?thesis by simp
next
  case None
  show ?thesis
  proof (rule view_localI)
    fix ks
    show "fst (case dispatch_command disp ms has_sender now cmd args ks of (r, x, l, ks', msgs) \<Rightarrow> ((r, x, l, msgs), ks')) =
        fst (case dispatch_command disp ms has_sender now cmd args [] of (r, x, l, ks', msgs) \<Rightarrow> ((r, x, l, msgs), ks'))"
      by (auto simp: dispatch_command_def dispatch_command_inner_def None Let_def split: prod.split lua_outcome.split)
    show "live now (snd (case dispatch_command disp ms has_sender now cmd args ks of
        (r, x, l, ks', msgs) \<Rightarrow> ((r, x, l, msgs), ks'))) = live now ks"
      by (auto simp: dispatch_command_def dispatch_command_inner_def None Let_def split: prod.split lua_outcome.split)
  qed
qed

lemma redis_call_same:
  assumes "same_state now st1 st2"
  shows "fst (redis_call disp ms has_sender now protected args st1) = fst (redis_call disp ms has_sender now protected args st2) \<and>
    same_state now (snd (redis_call disp ms has_sender now protected args st1)) (snd (redis_call disp ms has_sender now protected args st2))"
proof -
  from assms have eqs: "lua_sent st1 = lua_sent st2" "lua_xadds st1 = lua_xadds st2" "lua_list_growth st1 = lua_list_growth st2"
    and data: "live now (lua_data st1) = live now (lua_data st2)"
    unfolding same_state_def by blast+
  have call: "fst (redis_call disp ms has_sender now protected (LStr s # rest) st1) =
      fst (redis_call disp ms has_sender now protected (LStr s # rest) st2) \<and>
    same_state now (snd (redis_call disp ms has_sender now protected (LStr s # rest) st1))
      (snd (redis_call disp ms has_sender now protected (LStr s # rest) st2))"
    if args: "command_args disp rest = Inr as" for s rest as
  proof -
    define q where "q ks = (case dispatch_command disp ms has_sender now (arg_upper s) as ks of
      (r, x, l, ks', msgs) \<Rightarrow> ((r, x, l, msgs), ks'))" for ks
    have "view_local now q"
      using view_local_dispatch unfolding q_def [abs_def] .
    note q = view_localD [OF this data]
    obtain r x l msgs ks1 where q1: "q (lua_data st1) = ((r, x, l, msgs), ks1)" by (metis surj_pair)
    obtain ks2 where q2: "q (lua_data st2) = ((r, x, l, msgs), ks2)" by (metis q q1 fst_conv surj_pair)
    have d: "dispatch_command disp ms has_sender now (arg_upper s) as ks = (r, x, l, ks', msgs)"
      if "q ks = ((r, x, l, msgs), ks')" for ks ks'
      using that by (simp add: q_def split: prod.splits)
    from q have l: "live now ks1 = live now ks2" unfolding q1 q2 snd_conv by (rule conjunct2)
    show ?thesis
      unfolding same_state_def
      by (cases r) (simp_all add: redis_call_def args d [OF q1] d [OF q2] l eqs Let_def split: redis_value.split)
  qed
  show ?thesis
  proof (cases "\<exists>s rest as. args = LStr s # rest \<and> command_args disp rest = Inr as")
    case True
    with call show ?thesis by blast
  next
    case False
    then obtain r where "redis_call disp ms has_sender now protected args st = (r, st)" for st
      by (cases args; cases "hd args"; cases "command_args disp (tl args)") (auto simp: redis_call_def)
    with assms show ?thesis by simp
  qed
qed

lemma run_lua_same:
  assumes "clock_until clock t" and "same_state (fst (clock n)) st1 st2"
  shows "fst (run_lua disp clock has_sender run n st1) = fst (run_lua disp clock has_sender run n st2) \<and>
    same_state t (snd (run_lua disp clock has_sender run n st1)) (snd (run_lua disp clock has_sender run n st2))"
  using assms(2)
proof (induction run arbitrary: n st1 st2)
  case (Done r)
  then show ?case
    using assms(1) by (simp add: clock_until_def same_state_later)
next
  case (Invoke protected args k)
  note c = redis_call_same [OF Invoke.prems, of disp "snd (clock n)" has_sender protected args]
  have "fst (clock n) \<le> fst (clock (Suc n))"
    using assms(1) by (simp add: clock_until_def)
  with c have "same_state (fst (clock (Suc n))) (snd (redis_call disp (snd (clock n)) has_sender (fst (clock n)) protected args st1))
      (snd (redis_call disp (snd (clock n)) has_sender (fst (clock n)) protected args st2))"
    using same_state_later by blast
  from Invoke.IH [OF _ this] c show ?case
    by (simp add: split_beta Let_def)
qed

lemma run_script_same:
  assumes "clock_until clock t" and "same_store (fst (clock 0)) st1 st2"
    and "run_script disp vm clock script keys argv st1 = (r, msgs, st1')"
  shows "\<exists>st2'. run_script disp vm clock script keys argv st2 = (r, msgs, st2') \<and> same_store t st1' st2'"
proof -
  let ?run = "\<lambda>st. lua_execute disp vm clock script keys argv (data st) True"
  have "fst (?run st1) = fst (?run st2) \<and> same_state t (snd (?run st1)) (snd (?run st2))"
    unfolding lua_execute_def
    by (rule run_lua_same [OF assms(1)]) (use assms(2) in \<open>simp add: same_state_def same_store_def\<close>)
  note run = conjunct1 [OF this] conjunct2 [OF this, unfolded same_state_def]
  note st = assms(2) [unfolded same_store_def]
  from assms(3) show ?thesis
    unfolding run_script_def split_beta Let_def same_store_def
    by (cases "fst (?run st1)"; cases "fst (?run st2)")
       (use run st in \<open>auto simp: notify_streams_def notify_lists_def\<close>)
qed

lemma eval_same:
  assumes "clock_until clock t" and "same_store (fst (clock 0)) st1 st2"
  shows "\<lbrakk>eval disp digest vm clock script keys argv st1 = (r, msgs, st1')\<rbrakk> \<Longrightarrow>
      \<exists>st2'. eval disp digest vm clock script keys argv st2 = (r, msgs, st2') \<and> same_store t st1' st2'"
    and "\<lbrakk>evalsha disp vm clock sha keys argv st1 = (r, msgs, st1')\<rbrakk> \<Longrightarrow>
      \<exists>st2'. evalsha disp vm clock sha keys argv st2 = (r, msgs, st2') \<and> same_store t st1' st2'"
proof -
  assume "eval disp digest vm clock script keys argv st1 = (r, msgs, st1')"
  moreover have "same_store (fst (clock 0)) (st1\<lparr>scripts := hm_insert (digest script) script (scripts st1)\<rparr>)
      (st2\<lparr>scripts := hm_insert (digest script) script (scripts st2)\<rparr>)"
    using assms(2) by (simp add: same_store_def)
  ultimately show "\<exists>st2'. eval disp digest vm clock script keys argv st2 = (r, msgs, st2') \<and> same_store t st1' st2'"
    unfolding eval_def using run_script_same [OF assms(1)] by blast
next
  assume e: "evalsha disp vm clock sha keys argv st1 = (r, msgs, st1')"
  have s: "scripts st2 = scripts st1" and t: "same_store t st1 st2"
    using assms same_store_later [OF assms(2)] by (auto simp: same_store_def clock_until_def)
  show "\<exists>st2'. evalsha disp vm clock sha keys argv st2 = (r, msgs, st2') \<and> same_store t st1' st2'"
  proof (cases "hm_get (scripts st1) sha")
    case None
    with e s t show ?thesis by (auto simp: evalsha_def)
  next
    case (Some script)
    with e s run_script_same [OF assms] show ?thesis by (simp add: evalsha_def)
  qed
qed


end
