(* ===== verification/Sweep_Runs.thy ===== *)
theory Sweep_Runs
  imports Lua_Expiry Server_Steps
begin

text \<open>
  From the commands of the store to its clients: every method and every pipeline, scripts
  included, is unaware of the expired entries that are still in the map, and so no client can
  tell whether, when and how often the background sweep has run.  KEYS is left out, as it lists
  the keys in the order of the map, which a removal may change.
\<close>

section \<open>Actions that do not see expired entries\<close>

definition same_server :: "instant \<Rightarrow> server \<Rightarrow> server \<Rightarrow> bool" where
  "same_server t s1 s2 \<longleftrightarrow> same_store t (shared s1) (shared s2) \<and> broadcast s1 = broadcast s2"

text \<open>
  From servers that look the same at \<open>t\<close>, the action gives the same answer and leaves servers
  that look the same at \<open>u\<close>.
\<close>

definition unaware :: "instant \<Rightarrow> instant \<Rightarrow> 'a action \<Rightarrow> bool" where
  "unaware t u a \<longleftrightarrow>
     (\<forall>s1 s2. same_server t s1 s2 \<longrightarrow> fst (a s1) = fst (a s2) \<and> same_server u (snd (a s1)) (snd (a s2)))"

named_theorems unaware_intros \<open>actions that do not see expired entries\<close>

lemma same_server_later: "same_server t s1 s2 \<Longrightarrow> t \<le> u \<Longrightarrow> same_server u s1 s2"
  using same_store_later by (auto simp: same_server_def)

lemma unawareI:
  "(\<And>s1 s2. same_server t s1 s2 \<Longrightarrow> fst (a s1) = fst (a s2) \<and> same_server u (snd (a s1)) (snd (a s2))) \<Longrightarrow> unaware t u a"
  by (simp add: unaware_def)

lemma unawareD:
  "unaware t u a \<Longrightarrow> same_server t s1 s2 \<Longrightarrow> fst (a s1) = fst (a s2) \<and> same_server u (snd (a s1)) (snd (a s2))"
  by (simp add: unaware_def)

lemma unaware_weaken: "unaware t' u' a \<Longrightarrow> t \<le> t' \<Longrightarrow> u' \<le> u \<Longrightarrow> unaware t u a"
  using same_server_later unfolding unaware_def by blast

lemma unaware_finish [unaware_intros]:
  "t \<le> u \<Longrightarrow> unaware t u (finish v)" "t \<le> u \<Longrightarrow> unaware t u (raising e)" "t \<le> u \<Longrightarrow> unaware t u (answer w)"
  "t \<le> u \<Longrightarrow> unaware t u (claim_answer justid c)" "t \<le> u \<Longrightarrow> unaware t u (eval_answer py err er)"
  by (auto simp: unaware_def finish_def raising_def answer_def claim_answer_def eval_answer_def intro: same_server_later)

lemma unaware_given [unaware_intros]: "(\<And>x. unaware t u (f x)) \<Longrightarrow> t \<le> u \<Longrightarrow> unaware t u (given r f)"
  by (cases r) (simp_all add: unaware_finish)

lemma unaware_choice [unaware_intros]:
  "unaware t u a \<Longrightarrow> unaware t u b \<Longrightarrow> unaware t u (if c then a else b)"
  "unaware t u a \<Longrightarrow> (\<And>x. unaware t u (f x)) \<Longrightarrow> unaware t u (case v of None \<Rightarrow> a | Some x \<Rightarrow> f x)"
  by (simp, cases v) simp_all

lemma unaware_bind_via:
  assumes "unaware t m a" and "\<And>x. unaware m u (f x)" and "m \<le> u"
  shows "unaware t u (bind a f)"
proof (rule unawareI)
  fix s1 s2 assume "same_server t s1 s2"
  from unawareD [OF assms(1) this] obtain r s1' s2'
    where a: "a s1 = (r, s1')" "a s2 = (r, s2')" and s: "same_server m s1' s2'"
    by (metis prod.collapse fst_conv snd_conv)
  show "fst (bind a f s1) = fst (bind a f s2) \<and> same_server u (snd (bind a f s1)) (snd (bind a f s2))"
    using unawareD [OF assms(2) s] same_server_later [OF s assms(3)]
    by (cases r) (simp_all add: bind_def a)
qed

lemmas unaware_bind [unaware_intros] = unaware_bind_via [where m = t and t = t for t]

lemma unaware_stored [unaware_intros]:
  "unaware t t (call f) \<Longrightarrow> (\<And>x. unaware t u (k x)) \<Longrightarrow> t \<le> u \<Longrightarrow> unaware t u (stored err f k)"
  unfolding stored_def by (intro unaware_intros)

lemma unaware_attempt [unaware_intros]: "(\<And>x. unaware t u (f x)) \<Longrightarrow> t \<le> u \<Longrightarrow> unaware t u (attempt r f)"
  unfolding attempt_def by (intro unaware_intros) (simp add: unaware_def)

text \<open>Calls of the store.\<close>

lemma unaware_on_data [unaware_intros]: "view_local t f \<Longrightarrow> unaware t t (call (on_data f))"
proof (rule unawareI)
  fix s1 s2 assume "view_local t f" and s: "same_server t s1 s2"
  from view_localD [OF this(1), of "data (shared s1)" "data (shared s2)"] s
  show "fst (call (on_data f) s1) = fst (call (on_data f) s2) \<and>
      same_server t (snd (call (on_data f) s1)) (snd (call (on_data f) s2))"
    by (simp add: call_def on_data_def split_beta Let_def same_server_def same_store_def)
qed

lemma unaware_growing_by:
  assumes "view_local t (with_wake f)" and wake: "\<And>st1 st2. same_store t st1 st2 \<Longrightarrow> same_store t (wake st1) (wake st2)"
  shows "unaware t t (call (growing wake f))"
proof (rule unawareI)
  fix s1 s2 assume s: "same_server t s1 s2"
  then have "live t (data (shared s1)) = live t (data (shared s2))"
    by (simp add: same_server_def same_store_def)
  from view_localD [OF assms(1) this]
  have w: "fst (f (data (shared s1))) = fst (f (data (shared s2)))"
    "fst (snd (f (data (shared s1)))) = fst (snd (f (data (shared s2))))"
    "same_store t ((shared s1)\<lparr>data := snd (snd (f (data (shared s1))))\<rparr>) ((shared s2)\<lparr>data := snd (snd (f (data (shared s2))))\<rparr>)"
    using s by (simp_all add: with_wake_def split_beta Let_def same_server_def same_store_def)
  show "fst (call (growing wake f) s1) = fst (call (growing wake f) s2) \<and>
      same_server t (snd (call (growing wake f) s1)) (snd (call (growing wake f) s2))"
    using s w wake [OF w(3)] by (simp add: call_def growing_def split_beta Let_def same_server_def)
qed

lemma unaware_growing [unaware_intros]:
  "view_local t (with_wake f) \<Longrightarrow> unaware t t (call (growing notify_lists f))"
  "view_local t (with_wake f) \<Longrightarrow> unaware t t (call (growing notify_streams f))"
  by (erule unaware_growing_by, simp add: same_store_def notify_lists_def notify_streams_def)+

lemma unaware_checked [unaware_intros]:
  assumes "view_local t (or_panic f)"
  shows "unaware t t (checked_call f)"
proof (rule unawareI)
  fix s1 s2 assume s: "same_server t s1 s2"
  then have "live t (data (shared s1)) = live t (data (shared s2))"
    by (simp add: same_server_def same_store_def)
  from view_localD [OF assms this] s
  show "fst (checked_call f s1) = fst (checked_call f s2) \<and> same_server t (snd (checked_call f s1)) (snd (checked_call f s2))"
    by (auto simp: or_panic_def checked_call_def same_server_def same_store_def split: option.splits)
qed

lemma unaware_registry [unaware_intros]:
  "unaware t t (call (on_registry f))" "unaware t t (call (\<lambda>st. (g (pubsub st), st)))"
  "unaware t t (call (\<lambda>st. ((), shutdown st)))"
  "unaware t t (call (script_load digest script))" "unaware t t (call (\<lambda>st. (script_exists shas st, st)))"
  "unaware t t (sending (\<lambda>st. let (n, msgs) = publish channel message (pubsub st) in (n, msgs, st)))"
  by (auto simp: unaware_def call_def on_registry_def sending_def script_load_def script_exists_def same_server_def
      same_store_def shutdown_def notify_lists_def notify_streams_def Let_def split: prod.split)

lemma unaware_script [unaware_intros]:
  assumes "clock_until clock u" and "fst (clock 0) = t"
  shows "unaware t u (sending (eval disp digest vm clock script keys argv))"
    "unaware t u (sending (evalsha disp vm clock sha keys argv))"
proof -
  have same: "unaware t u (sending f)"
    if f: "\<And>st1 st2 r msgs st1'. same_store t st1 st2 \<Longrightarrow> f st1 = (r, msgs, st1') \<Longrightarrow>
        \<exists>st2'. f st2 = (r, msgs, st2') \<and> same_store u st1' st2'"
    for f :: "store \<Rightarrow> eval_result \<times> pubsub_message list \<times> store"
  proof (rule unawareI)
    fix s1 s2 assume s: "same_server t s1 s2"
    obtain r msgs st1' where 1: "f (shared s1) = (r, msgs, st1')" by (metis surj_pair)
    then obtain st2' where 2: "f (shared s2) = (r, msgs, st2')" and u: "same_store u st1' st2'"
      using f [of "shared s1" "shared s2"] s by (auto simp: same_server_def)
    show "fst (sending f s1) = fst (sending f s2) \<and> same_server u (snd (sending f s1)) (snd (sending f s2))"
      using s u by (simp add: sending_def 1 2 same_server_def)
  qed
  show "unaware t u (sending (eval disp digest vm clock script keys argv))"
    by (rule same) (use eval_same(1) [OF assms(1)] assms(2) in blast)
  show "unaware t u (sending (evalsha disp vm clock sha keys argv))"
    by (rule same) (use eval_same(2) [OF assms(1)] assms(2) in blast)
qed

section \<open>The methods and the arms of the pipeline\<close>

text \<open>The methods that read the clock once, and the queries, see one instant.\<close>

lemma view_local_reads:
  "view_local now (\<lambda>ks. (exists_cmd now keys ks, ks))" "view_local now (\<lambda>ks. (mget_cmd now keys ks, ks))"
  using view_local_keys(4,5) by (simp_all add: reading_def [abs_def])

lemmas view_local_commands =
  view_local_keys view_local_reads view_local_hashes view_local_sets view_local_zsets view_local_zrangestore
  view_local_list_reads view_local_pushes view_local_lmove view_local_streams view_local_xread view_local_xadd
  view_local_groups view_local_xgroup_create view_local_xreadgroup

lemma keys_unaware:
  "unaware (fst (clock 0)) (fst (clock 0)) (py_set py clock name val ex px nx xx)"
  "unaware (fst (clock 0)) (fst (clock 0)) (py_get py clock name)"
  "unaware (fst (clock 0)) (fst (clock 0)) (py_delete py clock names)"
  "unaware (fst (clock 0)) (fst (clock 0)) (py_exists py clock names)"
  "unaware (fst (clock 0)) (fst (clock 0)) (py_expire py clock name time)"
  "unaware (fst (clock 0)) (fst (clock 0)) (py_ttl py clock name)"
  "unaware (fst (clock 0)) (fst (clock 0)) (py_mget py clock keys)"
  unfolding py_set_def py_get_def py_delete_def py_exists_def py_expire_def py_ttl_def py_mget_def read_clock_def
  by (intro unaware_intros view_local_commands order_refl)+

lemma keys_pipe_unaware:
  "unaware (fst (clock 0)) (fst (clock 0)) (pipe_set py clock args kw)"
  "unaware (fst (clock 0)) (fst (clock 0)) (pipe_get py clock args kw)"
  "unaware (fst (clock 0)) (fst (clock 0)) (pipe_delete py clock args kw)"
  "unaware (fst (clock 0)) (fst (clock 0)) (pipe_exists py clock args kw)"
  "unaware (fst (clock 0)) (fst (clock 0)) (pipe_expire py clock args kw)"
  "unaware (fst (clock 0)) (fst (clock 0)) (pipe_ttl py clock args kw)"
  "unaware (fst (clock 0)) (fst (clock 0)) (pipe_mget py clock args kw)"
  "unaware (fst (clock 0)) (fst (clock 0)) (pipe_setex py clock args kw)"
  unfolding pipe_set_def pipe_get_def pipe_delete_def pipe_exists_def pipe_expire_def pipe_ttl_def pipe_mget_def
    pipe_setex_def read_clock_def
  by (intro unaware_intros view_local_commands order_refl)+

lemma hashes_unaware:
  "unaware (fst (clock 0)) (fst (clock 0)) (py_hset py clock name key_opt val_opt mapping)"
  "unaware (fst (clock 0)) (fst (clock 0)) (py_hget py clock name key)"
  "unaware (fst (clock 0)) (fst (clock 0)) (py_hdel py clock name keys)"
  "unaware (fst (clock 0)) (fst (clock 0)) (py_hvals py clock name)"
  "unaware (fst (clock 0)) (fst (clock 0)) (py_hgetall py clock name)"
  "unaware (fst (clock 0)) (fst (clock 0)) (py_hexists py clock name key)"
  "unaware (fst (clock 0)) (fst (clock 0)) (py_hincrby py clock name key amount)"
  "unaware (fst (clock 0)) (fst (clock 0)) (py_sadd py clock name vals)"
  "unaware (fst (clock 0)) (fst (clock 0)) (py_smembers py clock name)"
  "unaware (fst (clock 0)) (fst (clock 0)) (py_sismember py clock name val)"
  "unaware (fst (clock 0)) (fst (clock 0)) (py_srem py clock name vals)"
  unfolding py_hset_def py_hget_def py_hdel_def py_hvals_def py_hgetall_def py_hexists_def py_hincrby_def
    py_sadd_def py_smembers_def py_sismember_def py_srem_def read_clock_def
  by (intro unaware_intros view_local_commands order_refl)+

lemma hashes_pipe_unaware:
  "unaware (fst (clock 0)) (fst (clock 0)) (pipe_hset py clock args kw)"
  "unaware (fst (clock 0)) (fst (clock 0)) (pipe_hget py clock args kw)"
  "unaware (fst (clock 0)) (fst (clock 0)) (pipe_hdel py clock args kw)"
  "unaware (fst (clock 0)) (fst (clock 0)) (pipe_hvals py clock args kw)"
  "unaware (fst (clock 0)) (fst (clock 0)) (pipe_hgetall py clock args kw)"
  "unaware (fst (clock 0)) (fst (clock 0)) (pipe_hexists py clock args kw)"
  "unaware (fst (clock 0)) (fst (clock 0)) (pipe_hincrby py clock args kw)"
  "unaware (fst (clock 0)) (fst (clock 0)) (pipe_sadd py clock args kw)"
  "unaware (fst (clock 0)) (fst (clock 0)) (pipe_smembers py clock args kw)"
  "unaware (fst (clock 0)) (fst (clock 0)) (pipe_sismember py clock args kw)"
  "unaware (fst (clock 0)) (fst (clock 0)) (pipe_srem py clock args kw)"
  unfolding pipe_hset_def pipe_hget_def pipe_hdel_def pipe_hvals_def pipe_hgetall_def pipe_hexists_def
    pipe_hincrby_def pipe_sadd_def pipe_smembers_def pipe_sismember_def pipe_srem_def read_clock_def
  by (intro unaware_intros view_local_commands order_refl)+

lemma zsets_unaware:
  "unaware (fst (clock 0)) (fst (clock 0)) (py_zadd py clock name mapping nx xx gt lt ch)"
  "unaware (fst (clock 0)) (fst (clock 0)) (py_zrem py clock name vals)"
  "unaware (fst (clock 0)) (fst (clock 0)) (py_zrange py clock name start stop withscores)"
  "unaware (fst (clock 0)) (fst (clock 0)) (py_zrangebyscore py clock name lo hi withscores)"
  "unaware (fst (clock 0)) (fst (clock 0)) (py_zrangestore py clock dest name lo hi)"
  "unaware (fst (clock 0)) (fst (clock 0)) (py_zremrangebyscore py clock name lo hi)"
  "unaware (fst (clock 0)) (fst (clock 0)) (py_zcard py clock name)"
  "unaware (fst (clock 0)) (fst (clock 0)) (py_zscore py clock name val)"
  "unaware (fst (clock 0)) (fst (clock 0)) (py_zcount py clock name lo hi)"
  unfolding py_zadd_def py_zrem_def py_zrange_def py_zrangebyscore_def py_zrangestore_def py_zremrangebyscore_def
    py_zcard_def py_zscore_def py_zcount_def read_clock_def
  by (intro unaware_intros view_local_commands order_refl)+

lemma zsets_pipe_unaware:
  "unaware (fst (clock 0)) (fst (clock 0)) (pipe_zadd py clock args kw)"
  "unaware (fst (clock 0)) (fst (clock 0)) (pipe_zrem py clock args kw)"
  "unaware (fst (clock 0)) (fst (clock 0)) (pipe_zrange py clock args kw)"
  "unaware (fst (clock 0)) (fst (clock 0)) (pipe_zrangebyscore py clock args kw)"
  "unaware (fst (clock 0)) (fst (clock 0)) (pipe_zrangestore py clock args kw)"
  "unaware (fst (clock 0)) (fst (clock 0)) (pipe_zremrangebyscore py clock args kw)"
  "unaware (fst (clock 0)) (fst (clock 0)) (pipe_zcard py clock args kw)"
  "unaware (fst (clock 0)) (fst (clock 0)) (pipe_zscore py clock args kw)"
  "unaware (fst (clock 0)) (fst (clock 0)) (pipe_zcount py clock args kw)"
  unfolding pipe_zadd_def pipe_zrem_def pipe_zrange_def pipe_zrangebyscore_def pipe_zrangestore_def
    pipe_zremrangebyscore_def pipe_zcard_def pipe_zscore_def pipe_zcount_def read_clock_def
  by (intro unaware_intros view_local_commands order_refl)+

lemma lists_unaware:
  "unaware (fst (clock 0)) (fst (clock 0)) (py_lpush py clock name vals)"
  "unaware (fst (clock 0)) (fst (clock 0)) (py_rpush py clock name vals)"
  "unaware (fst (clock 0)) (fst (clock 0)) (py_lpop py clock name cnt)"
  "unaware (fst (clock 0)) (fst (clock 0)) (py_rpop py clock name cnt)"
  "unaware (fst (clock 0)) (fst (clock 0)) (py_lrange py clock name start stop)"
  "unaware (fst (clock 0)) (fst (clock 0)) (py_llen py clock name)"
  "unaware (fst (clock 0)) (fst (clock 0)) (py_lindex py clock name index)"
  "unaware (fst (clock 0)) (fst (clock 0)) (py_linsert py clock name place refvalue val)"
  "unaware (fst (clock 0)) (fst (clock 0)) (py_lrem py clock name n val)"
  "unaware (fst (clock 0)) (fst (clock 0)) (py_lset py clock name index val)"
  "unaware (fst (clock 0)) (fst (clock 0)) (py_ltrim py clock name start stop)"
  "unaware (fst (clock 0)) (fst (clock 0)) (py_lmove py clock first_list second_list src dest)"
  "unaware (fst (clock 0)) (fst (clock 0)) (py_rpoplpush py clock x y)"
  unfolding py_lpush_def py_rpush_def py_lpop_def py_rpop_def py_lrange_def py_llen_def py_lindex_def
    py_linsert_def py_lrem_def py_lset_def py_ltrim_def py_lmove_def py_rpoplpush_def read_clock_def
  by (intro unaware_intros view_local_commands order_refl)+

lemma lists_pipe_unaware:
  "unaware (fst (clock 0)) (fst (clock 0)) (pipe_lpush py clock args kw)"
  "unaware (fst (clock 0)) (fst (clock 0)) (pipe_rpush py clock args kw)"
  "unaware (fst (clock 0)) (fst (clock 0)) (pipe_lpop py clock args kw)"
  "unaware (fst (clock 0)) (fst (clock 0)) (pipe_rpop py clock args kw)"
  "unaware (fst (clock 0)) (fst (clock 0)) (pipe_lrange py clock args kw)"
  "unaware (fst (clock 0)) (fst (clock 0)) (pipe_llen py clock args kw)"
  "unaware (fst (clock 0)) (fst (clock 0)) (pipe_lindex py clock args kw)"
  "unaware (fst (clock 0)) (fst (clock 0)) (pipe_linsert py clock args kw)"
  "unaware (fst (clock 0)) (fst (clock 0)) (pipe_lrem py clock args kw)"
  "unaware (fst (clock 0)) (fst (clock 0)) (pipe_lset py clock args kw)"
  "unaware (fst (clock 0)) (fst (clock 0)) (pipe_ltrim py clock args kw)"
  "unaware (fst (clock 0)) (fst (clock 0)) (pipe_lmove py clock args kw)"
  "unaware (fst (clock 0)) (fst (clock 0)) (pipe_rpoplpush py clock args kw)"
  unfolding pipe_lpush_def pipe_rpush_def pipe_lpop_def pipe_rpop_def pipe_lrange_def pipe_llen_def
    pipe_lindex_def pipe_linsert_def pipe_lrem_def pipe_lset_def pipe_ltrim_def pipe_lmove_def pipe_rpoplpush_def read_clock_def
  by (intro unaware_intros view_local_commands order_refl)+

lemma streams_unaware:
  "unaware (fst (clock 0)) (fst (clock 0)) (py_xadd py clock name flds id_str maxlen minid)"
  "unaware (fst (clock 0)) (fst (clock 0)) (py_xlen py clock name)"
  "unaware (fst (clock 0)) (fst (clock 0)) (py_xtrim py clock name maxlen minid)"
  "unaware (fst (clock 0)) (fst (clock 0)) (py_xdel py clock name ids)"
  "unaware (fst (clock 0)) (fst (clock 0)) (py_xrange py clock name min_str max_str cnt)"
  "unaware (fst (clock 0)) (fst (clock 0)) (py_stream_last_id py clock key)"
  unfolding py_xadd_def py_xlen_def py_xtrim_def py_xdel_def py_xrange_def py_stream_last_id_def read_clock_def
  by (intro unaware_intros view_local_commands order_refl)+

lemma streams_pipe_unaware:
  "unaware (fst (clock 0)) (fst (clock 0)) (pipe_xadd py clock args kw)"
  "unaware (fst (clock 0)) (fst (clock 0)) (pipe_xlen py clock args kw)"
  "unaware (fst (clock 0)) (fst (clock 0)) (pipe_xtrim py clock args kw)"
  "unaware (fst (clock 0)) (fst (clock 0)) (pipe_xdel py clock args kw)"
  "unaware (fst (clock 0)) (fst (clock 0)) (pipe_xrange py clock args kw)"
  unfolding pipe_xadd_def pipe_xlen_def pipe_xtrim_def pipe_xdel_def pipe_xrange_def read_clock_def
  by (intro unaware_intros view_local_commands order_refl)+

lemma groups_unaware:
  "unaware (fst (clock 0)) (fst (clock 0)) (py_xgroup_create py clock name groupname id_str mkstream)"
  "unaware (fst (clock 0)) (fst (clock 0)) (py_xgroup_destroy py clock name groupname)"
  "unaware (fst (clock 0)) (fst (clock 0)) (py_xreadgroup py clock groupname consumername streams cnt)"
  "unaware (fst (clock 0)) (fst (clock 0)) (py_xack py clock name groupname ids)"
  "unaware (fst (clock 0)) (fst (clock 0)) (py_xautoclaim py clock name groupname consumername min_idle start_str cnt)"
  "unaware (fst (clock 0)) (fst (clock 0)) (py_xclaim py clock name groupname consumername min_idle message_ids idle time retrycount force justid)"
  "unaware (fst (clock 0)) (fst (clock 0)) (py_xinfo_stream py clock name)"
  "unaware (fst (clock 0)) (fst (clock 0)) (py_xinfo_groups py clock name)"
  "unaware (fst (clock 0)) (fst (clock 0)) (py_xinfo_consumers py clock name groupname)"
  "unaware (fst (clock 0)) (fst (clock 0)) (py_xpending_range py clock name groupname min_str max_str n filt idle)"
  "unaware (fst (clock 0)) (fst (clock 0)) (py_xpending py clock name groupname)"
  unfolding py_xgroup_create_def py_xgroup_destroy_def py_xreadgroup_def py_xack_def py_xautoclaim_def
    py_xclaim_def py_xinfo_stream_def py_xinfo_groups_def py_xinfo_consumers_def py_xpending_range_def
    py_xpending_def read_clock_def
  by (intro unaware_intros view_local_commands order_refl)+

lemma groups_pipe_unaware:
  "unaware (fst (clock 0)) (fst (clock 0)) (pipe_xgroup_create py clock args kw)"
  "unaware (fst (clock 0)) (fst (clock 0)) (pipe_xgroup_destroy py clock args kw)"
  "unaware (fst (clock 0)) (fst (clock 0)) (pipe_xreadgroup py clock args kw)"
  "unaware (fst (clock 0)) (fst (clock 0)) (pipe_xack py clock args kw)"
  "unaware (fst (clock 0)) (fst (clock 0)) (pipe_xautoclaim py clock args kw)"
  "unaware (fst (clock 0)) (fst (clock 0)) (pipe_xclaim py clock args kw)"
  "unaware (fst (clock 0)) (fst (clock 0)) (pipe_xinfo_groups py clock args kw)"
  "unaware (fst (clock 0)) (fst (clock 0)) (pipe_xinfo_consumers py clock args kw)"
  "unaware (fst (clock 0)) (fst (clock 0)) (pipe_xpending_range py clock args kw)"
  "unaware (fst (clock 0)) (fst (clock 0)) (pipe_xpending py clock args kw)"
  unfolding pipe_xgroup_create_def pipe_xgroup_destroy_def pipe_xreadgroup_def pipe_xack_def pipe_xautoclaim_def
    pipe_xclaim_def pipe_xinfo_groups_def pipe_xinfo_consumers_def pipe_xpending_range_def pipe_xpending_def read_clock_def
  by (intro unaware_intros view_local_commands order_refl)+

lemma channels_unaware:
  "unaware t t (py_publish py channel message)" "unaware t t py_new_subscriber"
  "unaware t t (py_subscribe_channels sid channels)" "unaware t t (py_unsubscribe_channels sid channels)"
  "unaware t t (py_psubscribe_patterns sid patterns)" "unaware t t (py_punsubscribe_patterns sid patterns)"
  "unaware t t (py_pubsub_channels pattern_opt)" "unaware t t (py_pubsub_numsub channels)"
  "unaware t t py_pubsub_numpat" "unaware t t py_aclose" "unaware t t (py_script_exists py args)"
  unfolding py_publish_def py_new_subscriber_def py_subscribe_channels_def py_unsubscribe_channels_def
    py_psubscribe_patterns_def py_punsubscribe_patterns_def py_pubsub_channels_def py_pubsub_numsub_def
    py_pubsub_numpat_def py_aclose_def py_script_exists_def read_clock_def
  by (intro unaware_intros view_local_commands order_refl)+

lemma channels_pipe_unaware:
  "unaware (fst (clock 0)) (fst (clock 0)) (pipe_publish py clock args kw)"
  "unaware (fst (clock 0)) (fst (clock 0)) (pipe_script_exists py clock args kw)"
  unfolding pipe_publish_def pipe_script_exists_def read_clock_def
  by (intro unaware_intros view_local_commands order_refl)+


section \<open>Methods that read the clock more than once\<close>

text \<open>The clock does not go back between \<open>t\<close> and \<open>u\<close>.\<close>

definition on_time :: "clock \<Rightarrow> instant \<Rightarrow> instant \<Rightarrow> bool" where
  "on_time clock t u \<longleftrightarrow> t \<le> fst (clock 0) \<and> clock_until clock u"

lemma on_time_unaware: "on_time clock t u \<Longrightarrow> unaware (fst (clock 0)) (fst (clock 0)) a \<Longrightarrow> unaware t u a"
  by (rule unaware_weaken) (auto simp: on_time_def clock_until_def)

lemma on_time_unaware_until: "on_time clock t u \<Longrightarrow> unaware (fst (clock 0)) u a \<Longrightarrow> unaware t u a"
  by (rule unaware_weaken) (auto simp: on_time_def)

lemma targets_unaware:
  assumes "clock_until clock u"
  shows "unaware (fst (clock n)) (fst (clock (n + length ps))) (xread_targets py clock n ps)"
proof (induction ps arbitrary: n)
  case Nil
  then show ?case by (simp add: unaware_finish)
next
  case (Cons p ps)
  have le: "fst (clock i) \<le> fst (clock j)" if "i \<le> j" for i j
    using assms that by (simp add: clock_until_def)
  have target: "unaware t t (xread_target py t p)" for t
    unfolding xread_target_def by (intro unaware_intros view_local_commands order_refl)
  have "unaware (fst (clock n)) (fst (clock (Suc n))) (xread_target py (read_clock clock n) p)"
    by (rule unaware_weaken [OF target]) (simp_all add: read_clock_def le)
  moreover have "unaware (fst (clock (Suc n))) (fst (clock (n + length (p # ps))))
      (bind (xread_targets py clock (Suc n) ps) (\<lambda>ts. finish (x # ts)))" for x
    by (rule unaware_bind_via [OF Cons [of "Suc n", simplified add_Suc]]) (simp_all add: unaware_finish)
  ultimately show ?case
    unfolding xread_targets.simps by (rule unaware_bind_via) (simp add: le)
qed

lemma xread_unaware:
  assumes "clock_until clock u"
  shows "unaware (fst (clock 0)) u (py_xread py clock streams cnt)" "unaware (fst (clock 0)) u (pipe_xread py clock args kw)"
proof -
  have le: "fst (clock 0) \<le> fst (clock i)" "fst (clock i) \<le> u" for i
    using assms by (simp_all add: clock_until_def)
  have rest: "unaware (fst (clock n)) (fst (clock n)) (stored err (on_data (xread (read_clock clock n) ks ids cnt)) k)"
    if "\<And>r. unaware (fst (clock n)) (fst (clock n)) (k r)" for err n ks ids cnt and k :: "_ \<Rightarrow> 'b action"
    unfolding read_clock_def by (intro unaware_intros view_local_commands order_refl that)
  have whole: "unaware (fst (clock 0)) u (bind (xread_targets py clock 0 streams) (\<lambda>ts.
      stored err (on_data (xread (read_clock clock (length streams)) (map fst ts) (map snd ts) cnt)) k))"
    if k: "\<And>r t. unaware t t (k r)" for streams err cnt and k :: "_ \<Rightarrow> 'b action"
    by (rule unaware_bind_via [OF targets_unaware [OF assms, of 0, simplified] unaware_weaken [OF rest [OF k]]])
       (simp_all add: le)
  show "unaware (fst (clock 0)) u (py_xread py clock streams cnt)"
    unfolding py_xread_def by (rule whole) (intro unaware_intros order_refl)
  show "unaware (fst (clock 0)) u (pipe_xread py clock args kw)"
    unfolding pipe_xread_def by (intro unaware_given whole unaware_finish order_refl le)
qed

lemma scripts_unaware:
  assumes "clock_until clock u"
  shows "unaware (fst (clock 0)) u (py_eval py lua clock script numkeys keys_and_args)"
    "unaware (fst (clock 0)) u (py_evalsha py lua clock sha numkeys keys_and_args)"
    "unaware (fst (clock 0)) u (pipe_eval py lua clock args kw)"
    "unaware (fst (clock 0)) u (pipe_evalsha py lua clock args kw)"
proof -
  have le: "fst (clock 0) \<le> u" using assms by (simp add: clock_until_def)
  show "unaware (fst (clock 0)) u (py_eval py lua clock script numkeys keys_and_args)"
    "unaware (fst (clock 0)) u (py_evalsha py lua clock sha numkeys keys_and_args)"
    "unaware (fst (clock 0)) u (pipe_eval py lua clock args kw)"
    "unaware (fst (clock 0)) u (pipe_evalsha py lua clock args kw)"
    unfolding py_eval_def py_evalsha_def pipe_eval_def pipe_evalsha_def
    by (intro unaware_given unaware_bind_via [OF unaware_script(1) [OF assms refl]]
        unaware_bind_via [OF unaware_script(2) [OF assms refl]] unaware_bind unaware_finish order_refl le)+
qed

lemma script_load_unaware: "unaware t t (py_script_load lua script)" "unaware t t (pipe_script_load py lua clock args kw)"
  unfolding py_script_load_def pipe_script_load_def by (intro unaware_intros order_refl)+

section \<open>Pipelines\<close>

lemma dispatch_unaware:
  assumes "clock_until clock u" and "cmd \<noteq> ''keys''"
  shows "unaware (fst (clock 0)) u (dispatch_pipeline_command py lua clock cmd args kw)"
proof (cases "map_of (pipeline_commands py lua clock) cmd")
  case None
  with assms(1) show ?thesis by (simp add: dispatch_pipeline_command_def unaware_finish clock_until_def)
next
  case (Some f)
  have le: "fst (clock 0) \<le> u" using assms(1) by (simp add: clock_until_def)
  note arms = keys_pipe_unaware hashes_pipe_unaware zsets_pipe_unaware lists_pipe_unaware streams_pipe_unaware
    groups_pipe_unaware channels_pipe_unaware
  have "\<forall>(c, f) \<in> set (pipeline_commands py lua clock). c = ''keys'' \<or> unaware (fst (clock 0)) u (f args kw)"
    by (simp only: pipeline_commands_def list.set ball_simps prod.case simp_thms
        arms [where clock = clock, THEN unaware_weaken [OF _ order_refl le]]
        script_load_unaware(2) [THEN unaware_weaken [OF _ order_refl le]] xread_unaware(2) [OF assms(1)] scripts_unaware(3,4) [OF assms(1)])
  moreover have "(cmd, f) \<in> set (pipeline_commands py lua clock)" using Some by (rule map_of_SomeD)
  ultimately have "unaware (fst (clock 0)) u (f args kw)" using assms(2) by blast
  with Some show ?thesis by (simp add: dispatch_pipeline_command_def)
qed


lemma unaware_caught: "unaware t u a \<Longrightarrow> unaware t u (caught a)"
proof (rule unawareI)
  fix s1 s2 assume "unaware t u a" "same_server t s1 s2"
  from unawareD [OF this] show "fst (caught a s1) = fst (caught a s2) \<and> same_server u (snd (caught a s1)) (snd (caught a s2))"
    by (cases "a s1"; cases "a s2") (auto simp: caught_def split: answer.split)
qed

text \<open>The commands of a pipeline run one after the other.\<close>

definition pipeline_on_time :: "(nat \<Rightarrow> clock) \<Rightarrow> instant \<Rightarrow> instant \<Rightarrow> bool" where
  "pipeline_on_time clocks t u \<longleftrightarrow> t \<le> fst (clocks 0 0) \<and>
     (\<forall>n. clock_until (clocks n) u \<and> clock_until (clocks n) (fst (clocks (Suc n) 0)))"

definition without_keys :: "'o py_api \<Rightarrow> 'o list \<Rightarrow> bool" where
  "without_keys py items \<longleftrightarrow> (\<forall>item \<in> set items. \<forall>args kw. pipeline_entry py item \<noteq> Inr (''keys'', args, kw))"

lemma pipeline_unaware:
  assumes "pipeline_on_time clocks t u" and "without_keys py items"
  shows "unaware t u (execute_pipeline py lua clocks items)"
proof -
  have until: "clock_until (clocks n) u" "clock_until (clocks n) (fst (clocks (Suc n) 0))" for n
    using assms(1) by (simp_all add: pipeline_on_time_def)
  then have le: "fst (clocks n 0) \<le> u" for n by (simp add: clock_until_def)
  have "unaware (fst (clocks n 0)) u (run_pipeline py lua clocks n items)" for n
    using assms(2)
  proof (induction items arbitrary: n)
    case Nil
    then show ?case by (simp add: unaware_finish le)
  next
    case (Cons item items)
    show ?case
    proof (cases "pipeline_entry py item")
      case (Inl e)
      then show ?thesis by (simp add: unaware_finish le)
    next
      case (Inr p)
      obtain cmd args kw where p: "p = (cmd, args, kw)" by (cases p)
      from Cons.prems Inr p have "cmd \<noteq> ''keys''" by (simp add: without_keys_def)
      then have first_cmd: "unaware (fst (clocks n 0)) (fst (clocks (Suc n) 0))
          (caught (dispatch_pipeline_command py lua (clocks n) cmd args kw))"
        by (intro unaware_caught dispatch_unaware until)
      from Cons.prems have "without_keys py items" by (simp add: without_keys_def)
      from Cons.IH [OF this] have rest: "unaware (fst (clocks (Suc n) 0)) u
          (bind (run_pipeline py lua clocks (Suc n) items) (\<lambda>vs. finish (v # vs)))" for v
        by (rule unaware_bind_via) (simp_all add: unaware_finish)
      show ?thesis
        by (simp add: Inr p) (rule unaware_bind_via [OF first_cmd rest le])
    qed
  qed
  then have "unaware (fst (clocks 0 0)) u (execute_pipeline py lua clocks items)"
    unfolding execute_pipeline_def by (rule unaware_bind_via) (simp_all add: unaware_finish)
  then show ?thesis
    by (rule unaware_weaken) (use assms(1) in \<open>simp_all add: pipeline_on_time_def\<close>)
qed

section \<open>Clients and the sweep\<close>

text \<open>
  What a client of Python can do between two instants and get an answer at once: every method
  but KEYS, and every pipeline without it.
\<close>

inductive client_call :: "'o py_api \<Rightarrow> lua_host \<Rightarrow> instant \<Rightarrow> instant \<Rightarrow> py_value action \<Rightarrow> bool"
  for py :: "'o py_api" and lua :: lua_host and t :: instant and u :: instant where
  call_set: "on_time clock t u \<Longrightarrow>
      client_call py lua t u (awaited (py_set py clock name val ex px nx xx))"
| call_get: "on_time clock t u \<Longrightarrow> client_call py lua t u (awaited (py_get py clock name))"
| call_delete: "on_time clock t u \<Longrightarrow> client_call py lua t u (awaited (py_delete py clock names))"
| call_exists: "on_time clock t u \<Longrightarrow> client_call py lua t u (awaited (py_exists py clock names))"
| call_expire: "on_time clock t u \<Longrightarrow> client_call py lua t u (awaited (py_expire py clock name time))"
| call_ttl: "on_time clock t u \<Longrightarrow> client_call py lua t u (awaited (py_ttl py clock name))"
| call_mget: "on_time clock t u \<Longrightarrow> client_call py lua t u (awaited (py_mget py clock keys))"
| call_hset: "on_time clock t u \<Longrightarrow>
      client_call py lua t u (awaited (py_hset py clock name key_opt val_opt mapping))"
| call_hget: "on_time clock t u \<Longrightarrow> client_call py lua t u (awaited (py_hget py clock name key))"
| call_hdel: "on_time clock t u \<Longrightarrow> client_call py lua t u (awaited (py_hdel py clock name keys))"
| call_hvals: "on_time clock t u \<Longrightarrow> client_call py lua t u (awaited (py_hvals py clock name))"
| call_hgetall: "on_time clock t u \<Longrightarrow> client_call py lua t u (awaited (py_hgetall py clock name))"
| call_hexists: "on_time clock t u \<Longrightarrow> client_call py lua t u (awaited (py_hexists py clock name key))"
| call_hincrby: "on_time clock t u \<Longrightarrow>
      client_call py lua t u (awaited (py_hincrby py clock name key amount))"
| call_sadd: "on_time clock t u \<Longrightarrow> client_call py lua t u (awaited (py_sadd py clock name vals))"
| call_smembers: "on_time clock t u \<Longrightarrow> client_call py lua t u (awaited (py_smembers py clock name))"
| call_sismember: "on_time clock t u \<Longrightarrow>
      client_call py lua t u (awaited (py_sismember py clock name val))"
| call_srem: "on_time clock t u \<Longrightarrow> client_call py lua t u (awaited (py_srem py clock name vals))"
| call_zadd: "on_time clock t u \<Longrightarrow>
      client_call py lua t u (awaited (py_zadd py clock name mapping nx xx gt lt ch))"
| call_zrem: "on_time clock t u \<Longrightarrow> client_call py lua t u (awaited (py_zrem py clock name vals))"
| call_zrange: "on_time clock t u \<Longrightarrow>
      client_call py lua t u (awaited (py_zrange py clock name start stop withscores))"
| call_zrangebyscore: "on_time clock t u \<Longrightarrow>
      client_call py lua t u (awaited (py_zrangebyscore py clock name lo hi withscores))"
| call_zrangestore: "on_time clock t u \<Longrightarrow>
      client_call py lua t u (awaited (py_zrangestore py clock dest name lo hi))"
| call_zremrangebyscore: "on_time clock t u \<Longrightarrow>
      client_call py lua t u (awaited (py_zremrangebyscore py clock name lo hi))"
| call_zcard: "on_time clock t u \<Longrightarrow> client_call py lua t u (awaited (py_zcard py clock name))"
| call_zscore: "on_time clock t u \<Longrightarrow> client_call py lua t u (awaited (py_zscore py clock name val))"
| call_zcount: "on_time clock t u \<Longrightarrow> client_call py lua t u (awaited (py_zcount py clock name lo hi))"
| call_lpush: "on_time clock t u \<Longrightarrow> client_call py lua t u (awaited (py_lpush py clock name vals))"
| call_rpush: "on_time clock t u \<Longrightarrow> client_call py lua t u (awaited (py_rpush py clock name vals))"
| call_lpop: "on_time clock t u \<Longrightarrow> client_call py lua t u (awaited (py_lpop py clock name cnt))"
| call_rpop: "on_time clock t u \<Longrightarrow> client_call py lua t u (awaited (py_rpop py clock name cnt))"
| call_lrange: "on_time clock t u \<Longrightarrow>
      client_call py lua t u (awaited (py_lrange py clock name start stop))"
| call_llen: "on_time clock t u \<Longrightarrow> client_call py lua t u (awaited (py_llen py clock name))"
| call_lindex: "on_time clock t u \<Longrightarrow> client_call py lua t u (awaited (py_lindex py clock name index))"
| call_linsert: "on_time clock t u \<Longrightarrow>
      client_call py lua t u (awaited (py_linsert py clock name place refvalue val))"
| call_lrem: "on_time clock t u \<Longrightarrow> client_call py lua t u (awaited (py_lrem py clock name n val))"
| call_lset: "on_time clock t u \<Longrightarrow> client_call py lua t u (awaited (py_lset py clock name index val))"
| call_ltrim: "on_time clock t u \<Longrightarrow>
      client_call py lua t u (awaited (py_ltrim py clock name start stop))"
| call_lmove: "on_time clock t u \<Longrightarrow>
      client_call py lua t u (awaited (py_lmove py clock first_list second_list src dest))"
| call_rpoplpush: "on_time clock t u \<Longrightarrow>
      client_call py lua t u (awaited (py_rpoplpush py clock src dst))"
| call_xadd: "on_time clock t u \<Longrightarrow>
      client_call py lua t u (awaited (py_xadd py clock name flds id_str maxlen minid))"
| call_xread: "on_time clock t u \<Longrightarrow> client_call py lua t u (awaited (py_xread py clock streams cnt))"
| call_xlen: "on_time clock t u \<Longrightarrow> client_call py lua t u (awaited (py_xlen py clock name))"
| call_xtrim: "on_time clock t u \<Longrightarrow>
      client_call py lua t u (awaited (py_xtrim py clock name maxlen minid))"
| call_xdel: "on_time clock t u \<Longrightarrow> client_call py lua t u (awaited (py_xdel py clock name ids))"
| call_xrange: "on_time clock t u \<Longrightarrow>
      client_call py lua t u (awaited (py_xrange py clock name min_str max_str cnt))"
| call_stream_last_id: "on_time clock t u \<Longrightarrow> client_call py lua t u (py_stream_last_id py clock key)"
| call_xgroup_create: "on_time clock t u \<Longrightarrow>
      client_call py lua t u (awaited (py_xgroup_create py clock name groupname id_str mkstream))"
| call_xgroup_destroy: "on_time clock t u \<Longrightarrow>
      client_call py lua t u (awaited (py_xgroup_destroy py clock name groupname))"
| call_xreadgroup: "on_time clock t u \<Longrightarrow>
      client_call py lua t u (awaited (py_xreadgroup py clock groupname consumername streams cnt))"
| call_xack: "on_time clock t u \<Longrightarrow>
      client_call py lua t u (awaited (py_xack py clock name groupname ids))"
| call_xautoclaim: "on_time clock t u \<Longrightarrow>
      client_call py lua t u (awaited (py_xautoclaim py clock name groupname consumername min_idle start_str cnt))"
| call_xclaim: "on_time clock t u \<Longrightarrow>
      client_call py lua t u (awaited (py_xclaim py clock name groupname consumername min_idle message_ids idle time retrycount force justid))"
| call_xinfo_stream: "on_time clock t u \<Longrightarrow>
      client_call py lua t u (awaited (py_xinfo_stream py clock name))"
| call_xinfo_groups: "on_time clock t u \<Longrightarrow>
      client_call py lua t u (awaited (py_xinfo_groups py clock name))"
| call_xinfo_consumers: "on_time clock t u \<Longrightarrow>
      client_call py lua t u (awaited (py_xinfo_consumers py clock name groupname))"
| call_xpending_range: "on_time clock t u \<Longrightarrow>
      client_call py lua t u (awaited (py_xpending_range py clock name groupname min_str max_str cnt consumername idle))"
| call_xpending: "on_time clock t u \<Longrightarrow>
      client_call py lua t u (awaited (py_xpending py clock name groupname))"
| call_eval: "on_time clock t u \<Longrightarrow>
      client_call py lua t u (awaited (py_eval py lua clock script numkeys keys_and_args))"
| call_evalsha: "on_time clock t u \<Longrightarrow>
      client_call py lua t u (awaited (py_evalsha py lua clock sha numkeys keys_and_args))"
| call_script_load: "t \<le> u \<Longrightarrow> client_call py lua t u (awaited (py_script_load lua script))"
| call_script_exists: "t \<le> u \<Longrightarrow> client_call py lua t u (awaited (py_script_exists py args))"
| call_publish: "t \<le> u \<Longrightarrow> client_call py lua t u (awaited (py_publish py channel message))"
| call_new_subscriber: "t \<le> u \<Longrightarrow> client_call py lua t u py_new_subscriber"
| call_subscribe_channels: "t \<le> u \<Longrightarrow>
      client_call py lua t u (awaited (py_subscribe_channels sid channels))"
| call_unsubscribe_channels: "t \<le> u \<Longrightarrow>
      client_call py lua t u (awaited (py_unsubscribe_channels sid channels))"
| call_psubscribe_patterns: "t \<le> u \<Longrightarrow>
      client_call py lua t u (awaited (py_psubscribe_patterns sid patterns))"
| call_punsubscribe_patterns: "t \<le> u \<Longrightarrow>
      client_call py lua t u (awaited (py_punsubscribe_patterns sid patterns))"
| call_pubsub_channels: "t \<le> u \<Longrightarrow> client_call py lua t u (awaited (py_pubsub_channels pattern))"
| call_pubsub_numsub: "t \<le> u \<Longrightarrow> client_call py lua t u (awaited (py_pubsub_numsub channels))"
| call_pubsub_numpat: "t \<le> u \<Longrightarrow> client_call py lua t u (awaited py_pubsub_numpat)"
| call_aclose: "t \<le> u \<Longrightarrow> client_call py lua t u (awaited py_aclose)"
| call_pipeline: "pipeline_on_time clocks t u \<Longrightarrow> without_keys py items \<Longrightarrow>
      client_call py lua t u (awaited (execute_pipeline py lua clocks items))"

lemma snd_awaited [simp]: "snd (awaited a s) = snd (a s)"
  by (simp add: awaited_def split: prod.split answer.split)

lemma unaware_awaited: "unaware t u a \<Longrightarrow> unaware t u (awaited a)"
proof (rule unawareI)
  fix s1 s2 assume "unaware t u a" "same_server t s1 s2"
  from unawareD [OF this] show "fst (awaited a s1) = fst (awaited a s2) \<and> same_server u (snd (awaited a s1)) (snd (awaited a s2))"
    by (cases "a s1"; cases "a s2") (auto simp: awaited_def split: answer.split)
qed

lemmas arms_unaware = keys_unaware hashes_unaware zsets_unaware lists_unaware streams_unaware groups_unaware
  channels_unaware script_load_unaware(1)

lemma on_time_until: "on_time clock t u \<Longrightarrow> clock_until clock u"
  by (simp add: on_time_def)

lemmas arms_unaware_until = xread_unaware(1) [OF on_time_until] scripts_unaware(1,2) [OF on_time_until]

lemma client_call_unaware:
  assumes "client_call py lua t u a"
  shows "unaware t u a"
  using assms
proof cases
  case call_pipeline
  then show ?thesis by (simp only: unaware_awaited pipeline_unaware)
qed (simp only:, (rule unaware_awaited)?, (erule on_time_unaware, rule arms_unaware
    | rule on_time_unaware_until, assumption, rule arms_unaware_until, assumption
    | rule unaware_weaken [OF _ order_refl], rule arms_unaware, assumption))+

lemma client_call_step:
  assumes "client_call py lua t u a"
  shows "\<exists>b. server_step py lua s b (snd (a s))"
  using assms
  by cases (simp only: snd_awaited, rule exI, rule server_step.intros, rule surjective_pairing)+


text \<open>What happens to a store: calls, and sweeps between them.\<close>

datatype event = Swept instant | Called "py_value action"

fun is_call :: "event \<Rightarrow> bool" where
  "is_call (Swept t) = False"
| "is_call (Called a) = True"

text \<open>The answers that the clients get, and the server in the end.\<close>

fun run_events :: "event list \<Rightarrow> server \<Rightarrow> py_value answer list \<times> server" where
  "run_events [] s = ([], s)"
| "run_events (Swept t # es) s = run_events es (s\<lparr>shared := sweep_tick t (shared s)\<rparr>)"
| "run_events (Called a # es) s = (let (r, s1) = a s; (rs, s2) = run_events es s1 in (r # rs, s2))"

text \<open>The events happen between \<open>t\<close> and \<open>u\<close>, in this order.\<close>

inductive timely :: "'o py_api \<Rightarrow> lua_host \<Rightarrow> instant \<Rightarrow> event list \<Rightarrow> instant \<Rightarrow> bool"
  for py :: "'o py_api" and lua :: lua_host where
  over: "t \<le> u \<Longrightarrow> timely py lua t [] u"
| swept: "t \<le> t' \<Longrightarrow> timely py lua t' es u \<Longrightarrow> timely py lua t (Swept t' # es) u"
| called: "client_call py lua t m a \<Longrightarrow> timely py lua m es u \<Longrightarrow> timely py lua t (Called a # es) u"

lemma sweep_same:
  assumes "same_server t s1 s2" and "hm_wf (data (shared s1))"
  shows "same_server t (s1\<lparr>shared := sweep_tick t (shared s1)\<rparr>) s2"
  using assms(1) sweep_view [OF assms(2), of t]
  by (simp add: same_server_def same_store_def sweep_tick_def on_data_def split_beta Let_def)

lemma sweep_step: "server_step py lua s False (s\<lparr>shared := sweep_tick t (shared s)\<rparr>)"
  by (rule do_sweep [where t = t and r = "fst (sweep_expired t (data (shared s)))"])
     (simp add: call_def on_data_def sweep_tick_def split_beta Let_def)

lemma run_events_same:
  assumes "timely py lua t es u" and "same_server t s1 s2" and "server_ok (sha1_hex lua) s1"
  shows "fst (run_events es s1) = fst (run_events (filter is_call es) s2) \<and>
    same_server u (snd (run_events es s1)) (snd (run_events (filter is_call es) s2))"
  using assms
proof (induction arbitrary: s1 s2)
  case (over t u)
  then show ?case by (simp add: same_server_later)
next
  case (swept t t' es u)
  have "hm_wf (data (shared s1))"
    using swept.prems(2) by (simp add: server_ok_def ks_wf_hm)
  from sweep_same [OF same_server_later [OF swept.prems(1) swept.hyps(1)] this]
  have "same_server t' (s1\<lparr>shared := sweep_tick t' (shared s1)\<rparr>) s2" .
  moreover have "server_ok (sha1_hex lua) (s1\<lparr>shared := sweep_tick t' (shared s1)\<rparr>)"
    using invariant.step_within [OF sweep_step refl] swept.prems(2) by (simp add: keeps_ok_def)
  ultimately show ?case using swept.IH by simp
next
  case (called t m a es u)
  note same = unawareD [OF client_call_unaware [OF called.hyps(1)] called.prems(1)]
  obtain b where "server_step py lua s1 b (snd (a s1))"
    using client_call_step [OF called.hyps(1)] by blast
  from invariant.step_within [OF this refl] called.prems(2) have "server_ok (sha1_hex lua) (snd (a s1))"
    by (simp add: keeps_ok_def)
  from called.IH [OF conjunct2 [OF same] this] same show ?case
    by (simp add: split_beta Let_def)
qed

text \<open>
  C4. No client can tell whether the background sweep has run.  Take any store that can come
  about, and any calls of the methods (but KEYS) and pipelines, scripts included, at instants
  that do not go back, with sweeps at any instants between them: every call gives the answer
  it gives without the sweeps, raises and panics where it does without them, the same
  messages are published and the same readers woken, and in the end the store shows the same
  entries.
\<close>

theorem sweeps_unnoticed:
  assumes "server_reachable py lua s" and "timely py lua t es u"
  shows "fst (run_events es s) = fst (run_events (filter is_call es) s) \<and>
    same_server u (snd (run_events es s)) (snd (run_events (filter is_call es) s))"
proof (rule run_events_same [OF assms(2)])
  show "same_server t s s" by (simp add: same_server_def same_store_def)
  show "server_ok (sha1_hex lua) s" using assms(1) by (rule reachable_server_ok)
qed

text \<open>A key that has expired, and is swept before it is asked for.\<close>

definition clock_at :: "instant \<Rightarrow> clock" where
  "clock_at t n = (t, 1000)"

definition set_soon_over :: "py_value action" where
  "set_soon_over = awaited (py_set sample_api (clock_at 0) (PyStr ''k'') (PyBytes ''v'') None (Some (PyInt 1)) False False)"

definition ask_later :: "py_value action" where
  "ask_later = awaited (py_exists sample_api (clock_at 2000000) [PyStr ''k''])"

definition swept_between :: "event list" where
  "swept_between = [Called set_soon_over, Swept 2000000, Called ask_later]"

definition soon_over :: server where
  "soon_over = empty_server\<lparr>shared := new_store\<lparr>data := [(''k'', \<lparr>vdata = StringV ''v'', expires_at = Some 1000000\<rparr>)]\<rparr>\<rparr>"

lemma sample_runs:
  "set_soon_over empty_server = (Return (PyBool True), soon_over)"
  "ask_later soon_over = (Return (PyInt 0), soon_over)" "ask_later empty_server = (Return (PyInt 0), empty_server)"
  "soon_over\<lparr>shared := sweep_tick 2000000 (shared soon_over)\<rparr> = empty_server"
proof -
  have "extract_u64 sample_api (PyInt 1) = Inr 1" by (simp add: sample_api_def)
  moreover have "new_string 0 ''v'' (Some (from_millis 1)) = Some \<lparr>vdata = StringV ''v'', expires_at = Some 1000000\<rparr>"
    by (simp add: new_string_def from_millis_def instant_checked_add_def)
  ultimately show "set_soon_over empty_server = (Return (PyBool True), soon_over)"
    by (simp add: set_soon_over_def py_set_def awaited_def attempt_def expiry_arg_def extract_expiry_def bind_def checked_call_def
        set_cmd_def clock_at_def read_clock_def empty_server_def soon_over_def new_store_def answer_def finish_def
        resolved_def future_next_def true_or_none_def expire_key_def hm_insert_def hm_get_def)
  have e: "exists_cmd 2000000 [''k''] (data (shared s)) = 0" if "s = soon_over \<or> s = empty_server" for s :: server
    using that by (auto simp: exists_cmd_def exists_step_def soon_over_def empty_server_def new_store_def hm_get_def is_expired_def)
  have "ask_later s = (Return (PyInt 0), s)" if "s = soon_over \<or> s = empty_server" for s :: server
    using e [OF that]
    by (simp add: ask_later_def py_exists_def awaited_def bind_def call_def on_data_def clock_at_def read_clock_def
        answer_def finish_def resolved_def future_next_def)
  then show "ask_later soon_over = (Return (PyInt 0), soon_over)" "ask_later empty_server = (Return (PyInt 0), empty_server)"
    by simp_all
  show "soon_over\<lparr>shared := sweep_tick 2000000 (shared soon_over)\<rparr> = empty_server"
    by (simp add: sweep_tick_def on_data_def sweep_expired_def soon_over_def empty_server_def new_store_def is_expired_def
        hm_remove_def)
qed

lemma sample_timely: "timely sample_api sample_lua 0 swept_between 2000000"
  unfolding swept_between_def set_soon_over_def ask_later_def
  by (intro timely.called [OF call_set [where u = 2000000]] timely.swept
      timely.called [OF call_exists [where u = 2000000]] timely.over)
     (simp_all add: on_time_def clock_at_def clock_until_def)

theorem sweeps_unnoticed_witness:
  "fst (run_events swept_between empty_server) = [Return (PyBool True), Return (PyInt 0)] \<and>
   data (shared (snd (run_events swept_between empty_server))) = [] \<and>
   data (shared (snd (run_events (filter is_call swept_between) empty_server))) \<noteq> []"
proof -
  have "fst (run_events (filter is_call swept_between) empty_server) = [Return (PyBool True), Return (PyInt 0)]"
    "data (shared (snd (run_events (filter is_call swept_between) empty_server))) \<noteq> []"
    by (simp_all add: swept_between_def sample_runs) (simp add: soon_over_def)
  moreover have "data (shared (snd (run_events swept_between empty_server))) = []"
    by (simp add: swept_between_def sample_runs) (simp add: empty_server_def new_store_def)
  ultimately show ?thesis
    using sweeps_unnoticed [OF server_reachable.start sample_timely] by simp
qed

end
