(* ===== verification/Blocking.thy ===== *)
theory Blocking
  imports Server_Steps
begin

text \<open>
  The calls that wait: BLPOP, BRPOP, BLMOVE, and XREAD and XREADGROUP with \<open>block\<close>.  Each is a
  task that arms a waiter, polls the store, and otherwise loops: it looks at the shutdown flag
  and at its deadline, sleeps until the waiter or a timer fires, arms the waiter anew and polls
  again.  The locale \<open>blocking_call\<close> states what polls owe the loop; its facts are that no
  wake-up is lost and when a call may return without a result.
\<close>

section \<open>The loop\<close>

text \<open>
  What differs between the calls: the poll of the store (\<open>None\<close> when there is nothing), the
  handle they wait on, and the milliseconds after which they give up (\<open>None\<close>: never).
\<close>

record 'r blocking =
  poll :: "instant \<Rightarrow> store \<Rightarrow> 'r option result \<times> store"
  handle :: "store \<Rightarrow> nat"
  patience :: "u64 option"

datatype 'r block_result = Found 'r | Nothing | Failed store_error

text \<open>
  Where a task stands.  \<open>Armed n\<close>: the waiter was created when the handle had been notified
  \<open>n\<close> times, the first poll comes next; \<open>Missed\<close>: it found nothing, the deadline comes next;
  \<open>Top\<close> of the loop; \<open>Timed\<close>: the flag was down, the deadline is looked at next; \<open>Asleep\<close> in the
  \<open>select!\<close>, with the end of its sleep; \<open>Woken\<close>: the waiter fired; \<open>Rearmed\<close>: a new waiter is
  armed, the poll comes next.
\<close>

datatype 'r place =
  Created
| Armed nat
| Missed nat
| Top nat "instant option"
| Timed nat "instant option"
| Asleep nat "instant option" instant
| Woken "instant option"
| Rearmed nat "instant option"
| Finished "'r block_result"

definition polled :: "'r blocking \<Rightarrow> instant \<Rightarrow> 'r place \<Rightarrow> server \<Rightarrow> 'r place \<times> server" where
  "polled c t again s =
     (let (r, st) = poll c t (shared s)
      in (case r of
            Inl e \<Rightarrow> Finished (Failed e)
          | Inr (Some v) \<Rightarrow> Finished (Found v)
          | Inr None \<Rightarrow> again,
          s\<lparr>shared := st\<rparr>))"

text \<open>
  The next step of the task at the instant \<open>t\<close>; \<open>None\<close>: it sleeps on, or has finished.  When
  the waiter and the timer are both ready, \<open>select!\<close> takes either (\<open>timer_first\<close>).
\<close>

fun advance :: "'r blocking \<Rightarrow> bool \<Rightarrow> instant \<Rightarrow> 'r place \<times> server \<Rightarrow> ('r place \<times> server) option" where
  "advance c timer_first t (Created, s) = Some (Armed (handle c (shared s)), s)"
| "advance c timer_first t (Armed n, s) = Some (polled c t (Missed n) s)"
| "advance c timer_first t (Missed n, s) =
     Some (Top n (map_option (\<lambda>ms. t + int (from_millis (unat ms))) (patience c)), s)"
| "advance c timer_first t (Top n d, s) =
     Some (if is_shutdown (shared s) then Finished Nothing else Timed n d, s)"
| "advance c timer_first t (Timed n d, s) =
     Some (case d of
             Some deadline \<Rightarrow>
               if deadline \<le> t then Finished Nothing
               else Asleep n d (t + int (duration_since deadline t))
           | None \<Rightarrow> Asleep n d (t + int (from_secs 3600)), s)"
| "advance c timer_first t (Asleep n d wake, s) =
     (if wake \<le> t \<and> (timer_first \<or> handle c (shared s) = n) then
        Some (if d \<noteq> None then Finished Nothing else Top n d, s)
      else if handle c (shared s) \<noteq> n then Some (Woken d, s)
      else None)"
| "advance c timer_first t (Woken d, s) = Some (Rearmed (handle c (shared s)) d, s)"
| "advance c timer_first t (Rearmed n d, s) = Some (polled c t (Top n d) s)"
| "advance c timer_first t (Finished r, s) = None"

text \<open>
  A call in the middle of everything else: it started at \<open>t0\<close>; between its steps other steps
  change the store, and time passes.
\<close>

inductive waits :: "'o py_api \<Rightarrow> lua_host \<Rightarrow> 'r blocking \<Rightarrow> instant \<Rightarrow> instant \<Rightarrow> 'r place \<times> server \<Rightarrow> bool"
  for py :: "'o py_api" and lua :: lua_host and c :: "'r blocking" and t0 :: instant where
  begins: "waits py lua c t0 t0 (Created, s)"
| own: "waits py lua c t0 t x \<Longrightarrow> advance c timer_first t x = Some x' \<Longrightarrow> waits py lua c t0 t x'"
| others: "waits py lua c t0 t (p, s) \<Longrightarrow> server_step py lua s False s' \<Longrightarrow> waits py lua c t0 t (p, s')"
| passes: "waits py lua c t0 t x \<Longrightarrow> t \<le> t' \<Longrightarrow> waits py lua c t0 t' x"

text \<open>The task by itself, for up to \<open>k\<close> steps at the instant \<open>t\<close>.\<close>

fun run_alone :: "'r blocking \<Rightarrow> bool \<Rightarrow> instant \<Rightarrow> nat \<Rightarrow> 'r place \<times> server \<Rightarrow> 'r place \<times> server" where
  "run_alone c timer_first t 0 x = x"
| "run_alone c timer_first t (Suc k) x =
     (case advance c timer_first t x of None \<Rightarrow> x | Some x' \<Rightarrow> run_alone c timer_first t k x')"

section \<open>The calls\<close>

text \<open>A timeout of zero blocks for ever.\<close>

definition deadline_of :: "u64 \<Rightarrow> u64 option" where
  "deadline_of ms = (if ms = 0 then None else Some ms)"

definition pop_call :: "(instant \<Rightarrow> bytes list \<Rightarrow> keyspace \<Rightarrow> (bytes \<times> bytes) option result \<times> keyspace) \<Rightarrow>
    bytes list \<Rightarrow> u64 \<Rightarrow> (bytes \<times> bytes) blocking" where
  "pop_call f keys ms =
     \<lparr>poll = (\<lambda>t. on_data (f t keys)), handle = list_notify, patience = deadline_of ms\<rparr>"

definition move_call :: "bytes \<Rightarrow> bytes \<Rightarrow> list_end \<Rightarrow> list_end \<Rightarrow> u64 \<Rightarrow> bytes blocking" where
  "move_call src dst src_end dst_end ms =
     \<lparr>poll = (\<lambda>t. growing notify_lists (lmove_atomic t src dst src_end dst_end)), handle = list_notify,
      patience = deadline_of ms\<rparr>"

definition some_results :: "'a list result \<times> 's \<Rightarrow> 'a list option result \<times> 's" where
  "some_results p = (map_sum id (\<lambda>res. if res = [] then None else Some res) (fst p), snd p)"

definition read_call :: "(bytes \<times> stream_id) list \<Rightarrow> usize option \<Rightarrow> u64 \<Rightarrow>
    (bytes \<times> (stream_id \<times> fields) list) list blocking" where
  "read_call ts cnt ms =
     \<lparr>poll = (\<lambda>t st. some_results (on_data (xread t (map fst ts) (map snd ts) cnt) st)),
      handle = stream_notify, patience = deadline_of ms\<rparr>"

text \<open>XREADGROUP takes zero like any other timeout.\<close>

definition group_read_call :: "bytes \<Rightarrow> bytes \<Rightarrow> (bytes \<times> string) list \<Rightarrow> usize option \<Rightarrow> u64 \<Rightarrow>
    (bytes \<times> (stream_id \<times> fields) list) list blocking" where
  "group_read_call grp cname ts cnt ms =
     \<lparr>poll = (\<lambda>t st. some_results (on_data (xreadgroup t grp cname (map fst ts) (map snd ts) cnt) st)),
      handle = stream_notify, patience = Some ms\<rparr>"

text \<open>What a method does before it hands out the future.\<close>

definition pop_request :: "'o py_api \<Rightarrow> string \<Rightarrow> 'o \<Rightarrow> f64 option \<Rightarrow> py_error + bytes list \<times> u64" where
  "pop_request py cmd keys timeout =
     and_then (normalize_key_list py keys) (\<lambda>key_list.
     if key_list = [] then Inl (make_response_error py (''ERR wrong number of arguments for '' @ quoted cmd @ '' command''))
     else and_then (timeout_to_ms timeout) (\<lambda>block_ms. Inr (key_list, block_ms)))"

definition py_blpop :: "'o py_api \<Rightarrow> 'o \<Rightarrow> f64 option \<Rightarrow> (bytes \<times> bytes) blocking action" where
  "py_blpop py keys timeout =
     given (pop_request py ''blpop'' keys timeout) (\<lambda>(key_list, block_ms). finish (pop_call blpop_poll key_list block_ms))"

definition py_brpop :: "'o py_api \<Rightarrow> 'o \<Rightarrow> f64 option \<Rightarrow> (bytes \<times> bytes) blocking action" where
  "py_brpop py keys timeout =
     given (pop_request py ''brpop'' keys timeout) (\<lambda>(key_list, block_ms). finish (pop_call brpop_poll key_list block_ms))"

definition py_blmove :: "'o py_api \<Rightarrow> 'o \<Rightarrow> 'o \<Rightarrow> f64 \<Rightarrow> 'o option \<Rightarrow> 'o option \<Rightarrow> bytes blocking action" where
  "py_blmove py first_list second_list timeout src dest =
     given (extract_bytes py first_list) (\<lambda>src_key.
     given (extract_bytes py second_list) (\<lambda>dst_key.
     given (token_or py ''LEFT'' src) (\<lambda>src_str.
     given (token_or py ''RIGHT'' dest) (\<lambda>dst_str.
     given (map_err (store_err_to_py py) (parse_list_end src_str)) (\<lambda>src_end.
     given (map_err (store_err_to_py py) (parse_list_end dst_str)) (\<lambda>dst_end.
     given (timeout_to_ms (Some timeout)) (\<lambda>block_ms.
     finish (move_call src_key dst_key src_end dst_end block_ms))))))))"

definition py_xread_block :: "'o py_api \<Rightarrow> clock \<Rightarrow> ('o \<times> 'o) list \<Rightarrow> usize option \<Rightarrow> u64 \<Rightarrow>
    (bytes \<times> (stream_id \<times> fields) list) list blocking action" where
  "py_xread_block py clock streams cnt block_ms =
     bind (xread_targets py clock 0 streams) (\<lambda>ts. finish (read_call ts cnt block_ms))"

definition py_xreadgroup_block :: "'o py_api \<Rightarrow> 'o \<Rightarrow> 'o \<Rightarrow> ('o \<times> 'o) list \<Rightarrow> usize option \<Rightarrow> u64 \<Rightarrow>
    (bytes \<times> (stream_id \<times> fields) list) list blocking action" where
  "py_xreadgroup_block py groupname consumername streams cnt block_ms =
     given (extract_bytes py groupname) (\<lambda>grp.
     given (extract_bytes py consumername) (\<lambda>cname.
     given (traverse (group_target py) streams) (\<lambda>ts.
     finish (group_read_call grp cname ts cnt block_ms))))"

text \<open>What the future resolves to; the task attaches to the interpreter to make the value.\<close>

definition pop_answer :: "'o py_api \<Rightarrow> bool \<Rightarrow> (bytes \<times> bytes) block_result \<Rightarrow> py_error + py_value" where
  "pop_answer py attached r =
     (case r of
        Found (k, v) \<Rightarrow> try_attach attached (PyTuple [PyBytes k, PyBytes v])
      | Nothing \<Rightarrow> try_attach attached PyNone
      | Failed e \<Rightarrow> Inl (store_err_to_py py e))"

definition move_answer :: "'o py_api \<Rightarrow> bool \<Rightarrow> bytes block_result \<Rightarrow> py_error + py_value" where
  "move_answer py attached r =
     (case r of
        Found v \<Rightarrow> try_attach attached (PyBytes v)
      | Nothing \<Rightarrow> try_attach attached PyNone
      | Failed e \<Rightarrow> Inl (store_err_to_py py e))"

definition read_answer :: "'o py_api \<Rightarrow> bool \<Rightarrow> (bytes \<times> (stream_id \<times> fields) list) list block_result \<Rightarrow> py_error + py_value" where
  "read_answer py attached r =
     (case r of
        Found res \<Rightarrow> format_xread_result attached res
      | Nothing \<Rightarrow> format_xread_result attached []
      | Failed e \<Rightarrow> Inl (store_err_to_py py e))"

definition group_read_answer :: "'o py_api \<Rightarrow> bool \<Rightarrow> (bytes \<times> (stream_id \<times> fields) list) list block_result \<Rightarrow>
    py_error + py_value" where
  "group_read_answer py attached r =
     (case r of
        Found res \<Rightarrow> format_xreadgroup_result attached res
      | Nothing \<Rightarrow> format_xreadgroup_result attached []
      | Failed e \<Rightarrow> Inl (store_err_to_py_for_cmd py ''XREADGROUP'' e))"


section \<open>When a call returns\<close>

text \<open>A deadline lies the whole timeout after the start, and a sleep with a deadline ends there.\<close>

definition whole_timeout :: "'r blocking \<Rightarrow> instant \<Rightarrow> instant option \<Rightarrow> bool" where
  "whole_timeout c t0 d \<longleftrightarrow>
     (\<forall>dl. d = Some dl \<longrightarrow> (\<exists>ms. patience c = Some ms \<and> t0 + int (from_millis (unat ms)) \<le> dl))"

fun timed_ok :: "'r blocking \<Rightarrow> instant \<Rightarrow> 'r place \<Rightarrow> bool" where
  "timed_ok c t0 (Top n d) = whole_timeout c t0 d"
| "timed_ok c t0 (Timed n d) = whole_timeout c t0 d"
| "timed_ok c t0 (Asleep n d wake) = (whole_timeout c t0 d \<and> (\<forall>dl. d = Some dl \<longrightarrow> wake = dl))"
| "timed_ok c t0 (Woken d) = whole_timeout c t0 d"
| "timed_ok c t0 (Rearmed n d) = whole_timeout c t0 d"
| "timed_ok c t0 _ = True"

lemma polled_place: "fst (polled c t again s) = again \<or> (\<exists>r. fst (polled c t again s) = Finished r)"
  by (auto simp: polled_def split_beta Let_def split: sum.splits option.splits)

lemma timed_ok_polled: "timed_ok c t0 again \<Longrightarrow> timed_ok c t0 (fst (polled c t again s))"
  using polled_place [of c t again s] by auto

lemma timed_ok_advance:
  assumes "timed_ok c t0 p" and "t0 \<le> t" and "advance c timer_first t (p, s) = Some (p', s')"
  shows "timed_ok c t0 p'"
proof (cases p)
  case (Armed n)
  with assms(3) timed_ok_polled [of c t0 "Missed n" t s] show ?thesis by auto
next
  case (Rearmed n d)
  with assms timed_ok_polled [of c t0 "Top n d" t s] show ?thesis by auto
qed (use assms in \<open>auto simp: duration_since_def whole_timeout_def split: if_splits option.splits\<close>)

lemma waits_timed: "waits py lua c t0 t x \<Longrightarrow> t0 \<le> t \<and> timed_ok c t0 (fst x)"
proof (induction rule: waits.induct)
  case (own t x timer_first x')
  then show ?case
    using timed_ok_advance [of c t0 "fst x" t timer_first "snd x" "fst x'" "snd x'"] by simp
qed auto

text \<open>
  C8. A blocked call returns a result, or an error, only as its last poll gave it, and leaves
  the store as that poll did.  It returns without a result only when the store has been shut
  down, or when its whole timeout has passed since it started; then it changes nothing.
\<close>

theorem blocking_outcome:
  assumes "waits py lua c t0 t (p, s)" and "advance c timer_first t (p, s) = Some (Finished r, s')"
  shows "(\<forall>v. r = Found v \<longrightarrow> poll c t (shared s) = (Inr (Some v), shared s')) \<and>
    (\<forall>e. r = Failed e \<longrightarrow> poll c t (shared s) = (Inl e, shared s')) \<and>
    (r = Nothing \<longrightarrow> s' = s \<and>
       (is_shutdown (shared s) \<or>
        (\<exists>ms. patience c = Some ms \<and> t0 + int (from_millis (unat ms)) \<le> t)))"
proof -
  have poll: ?thesis if "polled c t again s = (Finished r, s')" "\<nexists>q. again = Finished q" for again
    using that by (auto simp: polled_def split_beta Let_def split: sum.splits option.splits intro: prod_eqI)
  have ok: "timed_ok c t0 p" using waits_timed [OF assms(1)] by simp
  show ?thesis
  proof (cases p)
    case (Armed n)
    with assms(2) poll [of "Missed n"] show ?thesis by simp
  next
    case (Rearmed n d)
    with assms(2) poll [of "Top n d"] show ?thesis by simp
  qed (use assms(2) ok in \<open>fastforce simp: whole_timeout_def split: if_splits option.splits\<close>)+
qed

section \<open>No wake-up is lost\<close>

text \<open>
  What a call owes: its handle is one that every step of the store tends, its polls are steps,
  and there is a condition of the store, \<open>quiet\<close>, that a poll without a result establishes,
  that lasts until the handle is notified, and under which no poll has a result.
\<close>

locale blocking_call =
  fixes c :: "'r blocking" and quiet :: "store \<Rightarrow> bool"
  assumes handle_grows: "promises s s' \<Longrightarrow> handle c (shared s) \<le> handle c (shared s')"
    and handle_flag: "promises s s' \<Longrightarrow> handle c (shared s') = handle c (shared s) \<Longrightarrow>
      is_shutdown (shared s') = is_shutdown (shared s)"
    and poll_promises: "poll c t (shared s) = (r, st) \<Longrightarrow> promises s (s\<lparr>shared := st\<rparr>)"
    and poll_quiet: "poll c t st = (Inr None, st') \<Longrightarrow> quiet st'"
    and quiet_lasts: "promises s s' \<Longrightarrow> handle c (shared s') = handle c (shared s) \<Longrightarrow>
      quiet (shared s) \<Longrightarrow> quiet (shared s')"
    and quiet_polls: "quiet st \<Longrightarrow> poll c t st \<noteq> (Inr (Some v), st')"
begin

definition unwoken :: "nat \<Rightarrow> server \<Rightarrow> bool" where
  "unwoken n s \<longleftrightarrow> n \<le> handle c (shared s) \<and> (handle c (shared s) = n \<longrightarrow> quiet (shared s))"

fun settled :: "'r place \<Rightarrow> server \<Rightarrow> bool" where
  "settled (Armed n) s = (n \<le> handle c (shared s))"
| "settled (Missed n) s = unwoken n s"
| "settled (Top n d) s = unwoken n s"
| "settled (Timed n d) s = (unwoken n s \<and> (handle c (shared s) = n \<longrightarrow> \<not> is_shutdown (shared s)))"
| "settled (Asleep n d wake) s = (unwoken n s \<and> (handle c (shared s) = n \<longrightarrow> \<not> is_shutdown (shared s)))"
| "settled (Rearmed n d) s = (n \<le> handle c (shared s))"
| "settled _ s = True"

lemma settled_promises:
  assumes "promises s s'" and "settled p s"
  shows "settled p s'"
proof -
  have "handle c (shared s) \<le> handle c (shared s')" by (rule handle_grows [OF assms(1)])
  moreover have "quiet (shared s')" "is_shutdown (shared s') = is_shutdown (shared s)"
    if "handle c (shared s') = handle c (shared s)" "quiet (shared s)"
    using quiet_lasts [OF assms(1) that] handle_flag [OF assms(1) that(1)] by simp_all
  ultimately show ?thesis
    using assms(2) by (cases p) (auto simp: unwoken_def)
qed

lemma settled_polled:
  assumes "settled (Armed n) s" and again: "again = Missed n \<or> again = Top n d"
    and "polled c t again s = (p, s')"
  shows "settled p s'"
proof -
  obtain r st where r: "poll c t (shared s) = (r, st)" by fastforce
  note pr = poll_promises [OF r]
  show ?thesis
  proof (cases "r = Inr None")
    case True
    with assms(3) r have "p = again" "s' = s\<lparr>shared := st\<rparr>" by (auto simp: polled_def)
    with poll_quiet r True again settled_promises [OF pr assms(1)] show ?thesis
      by (auto simp: unwoken_def)
  next
    case False
    with assms(3) r obtain q where "p = Finished q"
      by (auto simp: polled_def split: sum.splits option.splits)
    then show ?thesis by simp
  qed
qed

lemma settled_advance:
  assumes "settled p s" and "advance c timer_first t (p, s) = Some (p', s')"
  shows "settled p' s'"
proof (cases p)
  case (Armed n)
  with assms settled_polled [of n s "Missed n" None t p' s'] show ?thesis by simp
next
  case (Rearmed n d)
  with assms settled_polled [of n s "Top n d" d t p' s'] show ?thesis by simp
qed (use assms in \<open>auto split: if_splits option.splits\<close>)

lemma waits_settled: "waits py lua c t0 t x \<Longrightarrow> settled (fst x) (snd x)"
proof (induction rule: waits.induct)
  case (own t x timer_first x')
  then show ?case using settled_advance [of "fst x" "snd x" timer_first t "fst x'" "snd x'"] by simp
next
  case (others t p s s')
  then show ?case using settled_promises [OF step_promises] by simp
qed auto

lemma asleep_quiet:
  assumes "waits py lua c t0 t (Asleep n d wake, s)" and "advance c timer_first t (Asleep n d wake, s) = None"
  shows "quiet (shared s) \<and> \<not> is_shutdown (shared s) \<and> t < wake"
  using waits_settled [OF assms(1)] assms(2) by (auto simp: unwoken_def split: if_splits)

lemma returns:
  assumes w: "waits py lua c t0 t (p, s)" and p: "\<nexists>r. p = Finished r"
    and poll: "poll c t (shared s) = (Inr (Some v), st)" and up: "\<not> is_shutdown (shared s)"
    and early: "\<And>ms. patience c = Some ms \<Longrightarrow> t < t0 + int (from_millis (unat ms))"
  shows "run_alone c timer_first t 6 (p, s) = (Finished (Found v), s\<lparr>shared := st\<rparr>)"
proof -
  note ok = waits_timed [OF w] and settled = waits_settled [OF w]
  let ?goal = "(Finished (Found v), s\<lparr>shared := st\<rparr>)"
  let ?run = "\<lambda>k q. run_alone c timer_first t k (q, s)"
  have noisy: "\<not> quiet (shared s)" using quiet_polls poll by blast
  have polled: "polled c t q s = ?goal" for q
    by (simp add: polled_def poll)
  have finished: "run_alone c timer_first t k ?goal = ?goal" for k
    by (cases k) simp_all
  have late: "t < dl" if "whole_timeout c t0 (Some dl)" for dl
    using that early unfolding whole_timeout_def by force
  have rearmed: "?run (Suc k) (Rearmed m d) = ?goal" for k m d by (simp add: polled finished)
  have woken: "?run (Suc (Suc k)) (Woken d) = ?goal" for k d using rearmed by simp
  have asleep: "?run (Suc (Suc (Suc k))) (Asleep n d wake) = ?goal"
    if "handle c (shared s) \<noteq> n" "t < wake \<or> \<not> timer_first" for k n d wake
    using that woken [of k d] by (auto simp del: run_alone.simps simp: run_alone.simps(2) [of _ _ _ "Suc (Suc k)"])
  have timed: "?run (Suc (Suc (Suc (Suc k)))) (Timed n d) = ?goal"
    if "handle c (shared s) \<noteq> n" "\<And>dl. d = Some dl \<Longrightarrow> t < dl" for k n d
    using that asleep [of n _ k d]
    by (cases d) (simp_all del: run_alone.simps add: run_alone.simps(2) [of _ _ _ "Suc (Suc (Suc k))"]
        duration_since_def from_secs_def)
  have top: "?run (Suc (Suc (Suc (Suc (Suc k))))) (Top n d) = ?goal"
    if "handle c (shared s) \<noteq> n" "\<And>dl. d = Some dl \<Longrightarrow> t < dl" for k n d
    using timed [OF that, where k = k] up
    by (simp del: run_alone.simps add: run_alone.simps(2) [of _ _ _ "Suc (Suc (Suc (Suc k)))"])
  have six: "6 = Suc (Suc (Suc (Suc (Suc (Suc 0)))))" by simp
  show ?thesis
  proof (cases p)
    case Created
    then show ?thesis by (simp add: six polled)
  next
    case (Armed n)
    then show ?thesis by (simp add: six polled)
  next
    case (Missed n)
    let ?d = "map_option (\<lambda>ms. t + int (from_millis (unat ms))) (patience c)"
    have "t < dl" if "?d = Some dl" for dl
      using that early ok by fastforce
    moreover have "handle c (shared s) \<noteq> n" using Missed settled noisy by (auto simp: unwoken_def)
    ultimately show ?thesis
      using top [of n ?d 0] Missed by (simp del: run_alone.simps add: six run_alone.simps(2) [of _ _ _ "Suc _"])
  next
    case (Top n d)
    have "?run (Suc (Suc (Suc (Suc (Suc (Suc 0)))))) (Top n d) = ?goal"
      by (rule top) (use Top ok settled noisy late in \<open>auto simp: unwoken_def\<close>)
    with Top show ?thesis by (simp only: six)
  next
    case (Timed n d)
    have "?run (Suc (Suc (Suc (Suc (Suc (Suc 0)))))) (Timed n d) = ?goal"
      by (rule timed) (use Timed ok settled noisy late in \<open>auto simp: unwoken_def\<close>)
    with Timed show ?thesis by (simp only: six)
  next
    case (Asleep n d wake)
    then have n: "handle c (shared s) \<noteq> n" using settled noisy by (auto simp: unwoken_def)
    show ?thesis
    proof (cases "t < wake \<or> \<not> timer_first")
      case True
      with asleep [OF n, of wake "Suc (Suc (Suc 0))" d] Asleep show ?thesis by (simp only: six)
    next
      case False
      with Asleep ok late have "d = None" by (cases d) auto
      with False Asleep top [OF n, of None 0] show ?thesis
        by (simp del: run_alone.simps add: six run_alone.simps(2) [of _ _ _ "Suc _"])
    qed
  next
    case (Woken d)
    with woken [of "Suc (Suc (Suc (Suc 0)))" d] show ?thesis by (simp only: six)
  next
    case (Rearmed n d)
    with rearmed [of "Suc (Suc (Suc (Suc (Suc 0))))" n d] show ?thesis by (simp only: six)
  qed (use p in blast)
qed

end


section \<open>What the polls owe\<close>

abbreviation no_elements :: "bytes list \<Rightarrow> keyspace \<Rightarrow> bool" where
  "no_elements keys ks \<equiv> (\<forall>k \<in> set keys. size_at occupied ks k = 0)"

abbreviation no_entries :: "(bytes \<times> stream_id) list \<Rightarrow> keyspace \<Rightarrow> bool" where
  "no_entries ts ks \<equiv> (\<forall>(k, i) \<in> set ts. size_at (entry_count (\<lambda>j. i < j)) ks k = 0)"

lemma not_larger_zero: "not_larger m ks ks' \<Longrightarrow> size_at m ks k = 0 \<Longrightarrow> size_at m ks' k = 0"
  by (metis not_larger_def le_zero_eq)

lemma size_expire: "size_at m ks k = 0 \<Longrightarrow> size_at m (expire_key t k' ks) k = 0"
  by (auto simp: expire_key_def size_at_def split: option.split)

lemma occupied_empty: "size_at occupied ks k = 0 \<Longrightarrow> hm_get ks k = Some e \<Longrightarrow> vdata e = ListV xs \<Longrightarrow> xs = []"
  by (simp add: size_at_def split: if_splits)

lemma pop_end_none: "fst (pop_end side xs) = None \<longleftrightarrow> xs = []"
  by (cases side; cases xs) auto

lemma pop_poll_none: "pop_poll side t keys ks = (Inr None, ks') \<Longrightarrow> no_elements keys ks'"
proof (induction keys arbitrary: ks)
  case (Cons k keys)
  let ?ks1 = "expire_key t k ks"
  from Cons.prems have rest: "pop_poll side t keys ?ks1 = (Inr None, ks')" and k: "size_at occupied ?ks1 k = 0"
    by (auto simp: Let_def size_at_def pop_end_none split: option.splits value_data.splits prod.splits)
       (metis fst_conv pop_end_none)+
  have "not_larger occupied ?ks1 ks'"
    using occupancy.K_pop_poll [of ?ks1 side t keys] rest by simp
  with k Cons.IH [OF rest] show ?case by (simp add: not_larger_zero)
qed simp

lemma pop_poll_missed: "fst (pop_poll side t keys ks) = Inr None \<Longrightarrow> no_elements keys (snd (pop_poll side t keys ks))"
  by (metis pop_poll_none prod.collapse)

lemma pop_poll_empty: "no_elements keys ks \<Longrightarrow> fst (pop_poll side t keys ks) \<noteq> Inr (Some v)"
proof (induction keys arbitrary: ks)
  case (Cons k keys)
  then have "no_elements keys (expire_key t k ks)" "size_at occupied (expire_key t k ks) k = 0"
    by (simp_all add: size_expire)
  with Cons.IH [of "expire_key t k ks"] show ?case
    by (auto simp: Let_def dest: occupied_empty split: option.splits value_data.splits prod.splits)
qed simp

lemma move_none: "lmove_atomic t src dst a b ks = (Inr None, w, ks') \<Longrightarrow> size_at occupied ks' src = 0"
  unfolding lmove_atomic_def Let_def
  by (auto simp: size_at_def split: option.splits value_data.splits prod.splits if_splits)
     (metis fst_conv pop_end_none)+

lemma move_empty:
  assumes "size_at occupied ks src = 0"
  shows "fst (lmove_atomic t src dst a b ks) \<noteq> Inr (Some v)"
proof -
  define ks2 where "ks2 = (if src \<noteq> dst then expire_key t dst (expire_key t src ks) else expire_key t src ks)"
  have "size_at occupied ks2 src = 0" using assms by (auto simp: ks2_def intro: size_expire)
  then show ?thesis
    unfolding lmove_atomic_def Let_def ks2_def [symmetric]
    by (auto dest: occupied_empty split: option.splits value_data.splits prod.splits if_splits)
qed

lemma after_none:
  "entries_after start cnt s = [] \<longleftrightarrow> cnt = Some 0 \<or> entry_count (\<lambda>j. start < j) (StreamV s) = 0"
  by (cases cnt) (auto simp: entries_after_def bt_after_def take_opt_def)

lemma xread_none: "xread_loop t cnt ts ks = (Inr [], ks') \<Longrightarrow> cnt = Some 0 \<or> no_entries ts ks'"
proof (induction t cnt ts ks rule: xread_loop.induct)
  case (2 t cnt k i rest ks)
  let ?m = "entry_count (\<lambda>j. i < j)"
  have "size_at ?m (snd (xread_loop t cnt rest ks1)) k = 0" if "size_at ?m ks1 k = 0" for ks1
    by (rule not_larger_zero [OF streams.K_xread_loop that])
  note rest = this
  show ?case
  proof (cases "cnt = Some 0 \<or> hm_get ks k = None")
    case True
    with 2 rest [of ks] show ?thesis by (auto simp: size_at_def)
  next
    case False
    then obtain e where Some: "hm_get ks k = Some e" and cnt: "cnt \<noteq> Some 0" by auto
    show ?thesis
    proof (cases "is_expired t e")
      case True
      with Some 2 cnt rest [of "hm_remove k ks"] show ?thesis by (auto simp: size_at_def)
    next
      case False
      with Some 2(4) obtain s where s: "vdata e = StreamV s"
        by (auto split: value_data.splits)
      from 2(4) Some False s have "entries_after i cnt s = []" "xread_loop t cnt rest ks = (Inr [], ks')"
        by (auto simp: Let_def split_beta split: sum.splits if_splits intro: prod_eqI)
      moreover from this have "size_at ?m ks k = 0"
        using cnt Some s by (auto simp: size_at_def after_none)
      ultimately show ?thesis using 2(3) Some False s rest [of ks] by simp
    qed
  qed
qed simp

lemma xread_empty:
  "cnt = Some 0 \<or> no_entries ts ks \<Longrightarrow> fst (xread_loop t cnt ts ks) \<in> {Inl WrongType, Inr []}"
proof (induction t cnt ts ks rule: xread_loop.induct)
  case (2 t cnt k i rest ks)
  have "no_entries ts (hm_remove k ks)" if "no_entries ts ks" for ts
    using that by (auto intro: not_larger_zero [OF not_larger_remove])
  moreover have "entries_after i cnt s = []" if "hm_get ks k = Some e" "vdata e = StreamV s" for e s
    using 2(4) that by (auto simp: after_none size_at_def)
  ultimately show ?case
    using 2 by (auto simp: Let_def split_beta split: option.splits value_data.splits sum.splits)
qed simp


section \<open>The calls keep what they owe\<close>

lemma promises_within:
  assumes "wakeups.within (call f)" and "f (shared s) = (r, st)"
  shows "promises s (s\<lparr>shared := st\<rparr>)"
  by (rule wakeups.withinD [OF assms(1), of _ "Return r"]) (simp_all add: call_def assms(2))

lemma some_results_cases:
  "some_results p = (Inr None, st) \<longleftrightarrow> p = (Inr [], st)"
  "some_results p = (Inr (Some v), st) \<longleftrightarrow> p = (Inr v, st) \<and> v \<noteq> []"
  by (cases p; cases "fst p"; auto simp: some_results_def)+

lemma polls_of_calls:
  "poll (pop_call f keys ms) t = on_data (f t keys)"
  "poll (move_call src dst a b ms) t = growing notify_lists (lmove_atomic t src dst a b)"
  "poll (read_call ts cnt ms) t st = some_results (on_data (xread_loop t cnt ts) st)"
  by (simp_all add: pop_call_def move_call_def read_call_def on_data_def xread_def zip_map_fst_snd)

lemma handles_of_calls [simp]:
  "handle (pop_call f keys ms) = list_notify" "handle (move_call src dst a b ms) = list_notify"
  "handle (read_call ts cnt ms) = stream_notify" "handle (group_read_call grp cname ks cnt ms) = stream_notify"
  by (simp_all add: pop_call_def move_call_def read_call_def group_read_call_def)

interpretation pops: blocking_call "pop_call (pop_poll side) keys ms" "\<lambda>st. no_elements keys (data st)"
  for side keys ms
proof unfold_locales
  fix t r st and s :: server
  assume "poll (pop_call (pop_poll side) keys ms) t (shared s) = (r, st)"
  moreover have "wakeups.within (call (on_data (pop_poll side t keys)))"
    by (intro wakeups.within_on_data wakeups.base.K_pop_poll)
  ultimately show "promises s (s\<lparr>shared := st\<rparr>)" by (simp add: polls_of_calls promises_within)
qed (auto simp: promises_def polls_of_calls on_data_def split_beta Let_def intro: not_larger_zero
      dest: pop_poll_missed pop_poll_empty)

interpretation moves: blocking_call "move_call src dst a b ms" "\<lambda>st. size_at occupied (data st) src = 0"
  for src dst a b ms
proof unfold_locales
  fix t r st and s :: server
  assume "poll (move_call src dst a b ms) t (shared s) = (r, st)"
  then show "promises s (s\<lparr>shared := st\<rparr>)"
    by (simp add: polls_of_calls promises_within [OF wakeups.within_pushes(3)])
next
  fix t and st st' :: store
  assume "poll (move_call src dst a b ms) t st = (Inr None, st')"
  then have "fst (lmove_atomic t src dst a b (data st)) = Inr None" "data st' = snd (snd (lmove_atomic t src dst a b (data st)))"
    by (auto simp: polls_of_calls growing_def Let_def notify_lists_def split: prod.splits if_splits)
  then show "size_at occupied (data st') src = 0" by (metis move_none prod.collapse)
next
  fix st st' :: store and t v
  assume "size_at occupied (data st) src = 0"
  then have "fst (lmove_atomic t src dst a b (data st)) \<noteq> Inr (Some v)" by (rule move_empty)
  then show "poll (move_call src dst a b ms) t st \<noteq> (Inr (Some v), st')"
    by (auto simp: polls_of_calls growing_def Let_def split: prod.splits)
qed (auto simp: promises_def intro: not_larger_zero)

interpretation reads: blocking_call "read_call ts cnt ms" "\<lambda>st. cnt = Some 0 \<or> no_entries ts (data st)"
  for ts cnt ms
proof unfold_locales
  fix t r st and s :: server
  assume r: "poll (read_call ts cnt ms) t (shared s) = (r, st)"
  have "wakeups.within (call (on_data (xread_loop t cnt ts)))"
    by (intro wakeups.within_on_data wakeups.base.K_xread_loop)
  moreover obtain r' where "on_data (xread_loop t cnt ts) (shared s) = (r', st)"
    using r by (cases "on_data (xread_loop t cnt ts) (shared s)") (simp add: polls_of_calls some_results_def)
  ultimately show "promises s (s\<lparr>shared := st\<rparr>)" by (rule promises_within)
next
  fix t and st st' :: store
  assume "poll (read_call ts cnt ms) t st = (Inr None, st')"
  then have "xread_loop t cnt ts (data st) = (Inr [], data st')"
    by (auto simp: polls_of_calls some_results_cases on_data_def Let_def split: prod.splits)
  then show "cnt = Some 0 \<or> no_entries ts (data st')" by (rule xread_none)
next
  fix st st' :: store and t v
  assume "cnt = Some 0 \<or> no_entries ts (data st)"
  then have "fst (xread_loop t cnt ts (data st)) \<in> {Inl WrongType, Inr []}" by (rule xread_empty)
  then show "poll (read_call ts cnt ms) t st \<noteq> (Inr (Some v), st')"
    by (auto simp: polls_of_calls some_results_cases on_data_def Let_def split: prod.splits)
qed (auto simp: promises_def intro: not_larger_zero)


section \<open>The promises of the blocking calls\<close>

text \<open>A call that has not returned; one that sleeps on; one that has not run out of time.\<close>

definition under_way :: "'o py_api \<Rightarrow> lua_host \<Rightarrow> 'r blocking \<Rightarrow> instant \<Rightarrow> instant \<Rightarrow> 'r place \<times> server \<Rightarrow> bool" where
  "under_way py lua c t0 t x \<longleftrightarrow> waits py lua c t0 t x \<and> (\<nexists>r. fst x = Finished r)"

definition sleeps_on :: "'r blocking \<Rightarrow> instant \<Rightarrow> 'r place \<times> server \<Rightarrow> bool" where
  "sleeps_on c t x \<longleftrightarrow> (\<forall>timer_first. advance c timer_first t x = None)"

definition in_time :: "'r blocking \<Rightarrow> instant \<Rightarrow> instant \<Rightarrow> server \<Rightarrow> bool" where
  "in_time c t0 t s \<longleftrightarrow>
     \<not> is_shutdown (shared s) \<and> (\<forall>ms. patience c = Some ms \<longrightarrow> t < t0 + int (from_millis (unat ms)))"

lemma sleeps_place: "sleeps_on c t (p, s) \<Longrightarrow> (\<exists>n d wake. p = Asleep n d wake) \<or> (\<exists>r. p = Finished r)"
  by (cases p) (auto simp: sleeps_on_def)

context blocking_call begin

lemma sleeps_quiet:
  assumes "under_way py lua c t0 t (p, s)" and "sleeps_on c t (p, s)"
  shows "quiet (shared s) \<and> \<not> is_shutdown (shared s)"
proof -
  obtain n d wake where p: "p = Asleep n d wake"
    using sleeps_place [OF assms(2)] assms(1) by (auto simp: under_way_def)
  have "waits py lua c t0 t (Asleep n d wake, s)" using assms(1) by (simp add: under_way_def p)
  moreover have "advance c True t (Asleep n d wake, s) = None"
    using assms(2) unfolding sleeps_on_def p by blast
  ultimately show ?thesis using asleep_quiet by blast
qed

lemma returns_in_time:
  assumes "under_way py lua c t0 t (p, s)" and "in_time c t0 t s" and "poll c t (shared s) = (Inr (Some v), st)"
  shows "run_alone c timer_first t 6 (p, s) = (Finished (Found v), s\<lparr>shared := st\<rparr>)"
  using assms by (intro returns) (auto simp: under_way_def in_time_def)

end



text \<open>
  XREADGROUP with \<open>block=0\<close> does not wait: a task whose first poll found nothing returns
  an empty result in its next three steps, where XREAD with \<open>block=0\<close> has no deadline at all.
\<close>

theorem xreadgroup_zero_returns:
  "run_alone (group_read_call grp cname ts cnt 0) timer_first t 3 (Missed n, s) = (Finished Nothing, s) \<and>
   group_read_answer py True Nothing = Inr (PyList []) \<and> patience (read_call ts' cnt 0) = None"
  by (cases "is_shutdown (shared s)")
     (simp_all add: numeral_3_eq_3 group_read_call_def read_call_def deadline_of_def from_millis_def group_read_answer_def
       format_xreadgroup_result_def try_attach_def)


section \<open>Witnesses\<close>

text \<open>A BLPOP for ever on an empty store falls asleep, and wakes up when another client pushes.\<close>

abbreviation sample_pop :: "(bytes \<times> bytes) blocking" where
  "sample_pop \<equiv> pop_call (pop_poll LeftEnd) [''q''] 0"

lemma sample_asleep: "under_way sample_api sample_lua sample_pop 0 0 (Asleep 0 None (int (from_secs 3600)), empty_server)"
proof -
  note own = waits.own [where py = sample_api and lua = sample_lua and c = sample_pop and timer_first = False]
  have e: "on_data (pop_poll LeftEnd 0 [''q'']) (shared empty_server) = (Inr None, shared empty_server)"
    by (simp add: on_data_def empty_server_def new_store_def expire_key_def)
  have "waits sample_api sample_lua sample_pop 0 0 (Created, empty_server)" by (rule waits.begins)
  from own [OF this] have "waits sample_api sample_lua sample_pop 0 0 (Armed 0, empty_server)"
    by (simp add: empty_server_def new_store_def)
  from own [OF this] have "waits sample_api sample_lua sample_pop 0 0 (Missed 0, empty_server)"
    by (simp add: polled_def polls_of_calls e)
  from own [OF this] have "waits sample_api sample_lua sample_pop 0 0 (Top 0 None, empty_server)"
    by (simp add: pop_call_def deadline_of_def)
  from own [OF this] have "waits sample_api sample_lua sample_pop 0 0 (Timed 0 None, empty_server)"
    by (simp add: is_shutdown_def empty_server_def new_store_def)
  from own [OF this] show ?thesis by (simp add: under_way_def)
qed


lemma sample_woken: "under_way sample_api sample_lua sample_pop 0 0 (Asleep 0 None (int (from_secs 3600)), pushed_server)"
  using waits.others [OF _ pushed_step] sample_asleep by (auto simp: under_way_def)

lemma sample_polls: "pop_poll LeftEnd t [''q''] (data (shared pushed_server)) = (Inr (Some (''q'', ''x'')), [])"
  by (simp add: pushed_server_def expire_key_def hm_get_def hm_remove_def is_expired_def)


theorem blocking_outcome_witness:
  "\<exists>s'. advance sample_pop True 0 (Rearmed 1 None, pushed_server) = Some (Finished (Found (''q'', ''x'')), s') \<and>
     poll sample_pop 0 (shared pushed_server) = (Inr (Some (''q'', ''x'')), shared s')"
proof -
  note own = waits.own [where py = sample_api and lua = sample_lua and c = sample_pop and timer_first = False]
  let ?s' = "pushed_server\<lparr>shared := (shared pushed_server)\<lparr>data := []\<rparr>\<rparr>"
  have "waits sample_api sample_lua sample_pop 0 0 (Asleep 0 None (int (from_secs 3600)), pushed_server)"
    using sample_woken by (simp add: under_way_def)
  from own [OF this] have "waits sample_api sample_lua sample_pop 0 0 (Woken None, pushed_server)"
    by (simp add: from_secs_def pushed_server_def)
  from own [OF this] have w: "waits sample_api sample_lua sample_pop 0 0 (Rearmed 1 None, pushed_server)"
    by (simp add: pushed_server_def)
  have f: "advance sample_pop True 0 (Rearmed 1 None, pushed_server) = Some (Finished (Found (''q'', ''x'')), ?s')"
    by (simp add: polled_def polls_of_calls on_data_def sample_polls del: pop_poll.simps)
  from blocking_outcome [OF w f] f show ?thesis by blast
qed

end
