(* ===== verification/Listener.thy ===== *)
theory Listener
  imports Py_Streams
begin

text \<open>
  The task that \<open>_subscribe_listener\<close> of \<^verbatim>\<open>src/src/lib.rs\<close> spawns: it takes messages from the
  broadcast channel and puts them on the queue of its Python object, until it is stopped.  The
  channel, the stop signal, the interpreter and the queue are outside: a turn of the loop
  takes what they answer.
\<close>

section \<open>The loop\<close>

datatype received = Message pubsub_message | Lagged u64 | Closed

text \<open>
  The answers in one turn: the stop signal (looked at first: the \<open>select!\<close> is biased), the
  receiver, the stop flag before and after the task attaches to the interpreter, whether it
  attaches, and whether \<open>put_nowait\<close> raises.
\<close>

record turn =
  stop_signal :: bool
  reception :: received
  flag_before :: bool
  attaches :: bool
  flag_attached :: bool
  put_raises :: bool

definition message_dict :: "pubsub_message \<Rightarrow> py_value" where
  "message_dict m =
     PyDict
       [(PyStr ''type'', PyStr (msg_kind m)),
        (PyStr ''pattern'', bytes_or_none (msg_pattern m)),
        (PyStr ''channel'', PyBytes (msg_channel m)),
        (PyStr ''data'', PyBytes (msg_data m))]"

text \<open>The queue after a turn, and whether the loop goes on.\<close>

definition listener_turn :: "turn \<Rightarrow> py_value list \<Rightarrow> py_value list \<times> bool" where
  "listener_turn r q =
     (if stop_signal r then (q, False)
      else case reception r of
          Message m \<Rightarrow>
            if flag_before r then (q, False)
            else if \<not> attaches r then (q, False)
            else if flag_attached r then (q, True)
            else if put_raises r then (q, False)
            else (q @ [message_dict m], True)
        | Lagged n \<Rightarrow> (q, True)
        | Closed \<Rightarrow> (q, False))"

fun listener_run :: "turn list \<Rightarrow> py_value list \<Rightarrow> py_value list" where
  "listener_run [] q = q"
| "listener_run (r # rs) q = (let (q1, more) = listener_turn r q in if more then listener_run rs q1 else q1)"

text \<open>What \<open>_stop_subscriber_listener\<close> answers once the task it joins has ended.\<close>

definition stop_answer :: "bool \<Rightarrow> py_error + py_value" where
  "stop_answer attached = try_attach attached PyNone"

section \<open>What reaches the queue\<close>

definition undisturbed :: "turn \<Rightarrow> bool" where
  "undisturbed r \<longleftrightarrow>
     \<not> stop_signal r \<and> \<not> flag_before r \<and> attaches r \<and> \<not> flag_attached r \<and> \<not> put_raises r \<and> reception r \<noteq> Closed"

definition messages :: "turn list \<Rightarrow> pubsub_message list" where
  "messages rs = concat (map (\<lambda>r. case reception r of Message m \<Rightarrow> [m] | _ \<Rightarrow> []) rs)"

lemma listener_run_undisturbed:
  "list_all undisturbed rs \<Longrightarrow> listener_run (rs @ rs') q = listener_run rs' (q @ map message_dict (messages rs))"
proof (induction rs arbitrary: q)
  case (Cons r rs)
  then show ?case
    by (auto simp: listener_turn_def undisturbed_def messages_def split: received.splits)
qed (simp add: messages_def)

lemma listener_turn_stopped: "flag_attached r \<Longrightarrow> fst (listener_turn r q) = q"
  by (simp add: listener_turn_def split: received.split)

lemma listener_run_stopped: "list_all flag_attached rs \<Longrightarrow> listener_run rs q = q"
proof (induction rs)
  case (Cons r rs)
  then show ?case using listener_turn_stopped [of r q] by (auto simp: split_beta Let_def)
qed simp


definition sample_message :: "bytes \<Rightarrow> pubsub_message" where
  "sample_message c = \<lparr>msg_kind = ''message'', msg_pattern = None, msg_channel = c, msg_data = ''x''\<rparr>"

definition sample_turn :: "bytes \<Rightarrow> bool \<Rightarrow> turn" where
  "sample_turn c up =
     \<lparr>stop_signal = False, reception = Message (sample_message c), flag_before = False, attaches = True,
      flag_attached = up, put_raises = False\<rparr>"


end
